(* ===== verification/Ciel_Prelude.thy ===== *)
theory Ciel_Prelude
  imports Main "HOL-Library.Word" "HOL-Library.AList" "HOL-Library.Char_ord"
    "HOL-Library.List_Lexorder" "HOL-Library.Multiset"
begin

section \<open>Shared notions: bytes, integers, maps, text, time\<close>

text \<open>
  What every component uses: little-endian bytes and Rust's fixed-width integers, the two map
  types of the source (\<^verbatim>\<open>HashMap\<close> and \<^verbatim>\<open>BTreeMap\<close>) behind one interface locale, the functions of
  \<^verbatim>\<open>str\<close> the parsers call, durations in nanoseconds, and generic lemmas on them.
\<close>

named_theorems wire_simps
  \<comment> \<open>lengths and round trips of wire encodings\<close>

type_synonym u8 = "8 word"
type_synonym u16 = "16 word"
type_synonym u32 = "32 word"
type_synonym u64 = "64 word"
type_synonym bytes = "u8 list"

text \<open>A Rust result: \<open>Inl\<close> is \<^verbatim>\<open>Err\<close>, \<open>Inr\<close> is \<^verbatim>\<open>Ok\<close>.\<close>

type_synonym ('e, 'a) result = "'e + 'a"

fun bind_result :: "('e, 'a) result \<Rightarrow> ('a \<Rightarrow> ('e, 'b) result) \<Rightarrow> ('e, 'b) result" where
  "bind_result (Inl e) f = Inl e"
| "bind_result (Inr x) f = f x"

fun ok_or :: "'e \<Rightarrow> 'a option \<Rightarrow> ('e, 'a) result" where
  "ok_or e None = Inl e"
| "ok_or e (Some x) = Inr x"

fun map_err :: "('e \<Rightarrow> 'f) \<Rightarrow> ('e, 'a) result \<Rightarrow> ('f, 'a) result" where
  "map_err f (Inl e) = Inl (f e)"
| "map_err f (Inr x) = Inr x"

text \<open>\<^verbatim>\<open>slice.get(i)\<close> and \<^verbatim>\<open>slice.first()\<close>.\<close>

definition get :: "'a list \<Rightarrow> nat \<Rightarrow> 'a option" where
  "get xs i = (if i < length xs then Some (xs ! i) else None)"

abbreviation first :: "'a list \<Rightarrow> 'a option" where
  "first xs \<equiv> get xs 0"

subsection \<open>Little-endian bytes and signed integers\<close>

fun le_bytes :: "nat \<Rightarrow> nat \<Rightarrow> bytes" where
  "le_bytes 0 v = []"
| "le_bytes (Suc n) v = of_nat (v mod 256) # le_bytes n (v div 256)"

fun le_nat :: "bytes \<Rightarrow> nat" where
  "le_nat [] = 0"
| "le_nat (b # bs) = unat b + 256 * le_nat bs"

text \<open>The two's complement reading of an \<open>n\<close>-bit pattern.\<close>

definition wrap_signed :: "nat \<Rightarrow> int \<Rightarrow> int" where
  "wrap_signed n v = (v + 2 ^ (n - 1)) mod 2 ^ n - 2 ^ (n - 1)"

definition i128_max :: int where "i128_max = 2 ^ 127 - 1"
definition i128_min :: int where "i128_min = - (2 ^ 127)"

text \<open>Release-mode \<^verbatim>\<open>i128\<close> arithmetic wraps; \<^verbatim>\<open>saturating_mul\<close> stops at the bounds.\<close>

definition i128_wrap :: "int \<Rightarrow> int" where
  "i128_wrap = wrap_signed 128"

definition i128_saturating_mul :: "int \<Rightarrow> int \<Rightarrow> int" where
  "i128_saturating_mul a b = max i128_min (min i128_max (a * b))"

subsection \<open>Maps\<close>

text \<open>
  A \<^verbatim>\<open>HashMap\<close> is an association list with distinct keys, in its (unspecified) iteration
  order; a \<^verbatim>\<open>BTreeMap\<close> is one in increasing key order.
\<close>

type_synonym ('k, 'v) hashmap = "('k \<times> 'v) list"

abbreviation hm_get :: "('k, 'v) hashmap \<Rightarrow> 'k \<Rightarrow> 'v option" where
  "hm_get m k \<equiv> map_of m k"

abbreviation hm_insert :: "'k \<Rightarrow> 'v \<Rightarrow> ('k, 'v) hashmap \<Rightarrow> ('k, 'v) hashmap" where
  "hm_insert k v m \<equiv> AList.update k v m"

abbreviation hm_remove :: "'k \<Rightarrow> ('k, 'v) hashmap \<Rightarrow> ('k, 'v) hashmap" where
  "hm_remove k m \<equiv> AList.delete k m"

definition hm_ok :: "('k, 'v) hashmap \<Rightarrow> bool" where
  "hm_ok m \<longleftrightarrow> distinct (map fst m)"

text \<open>Collecting an iterator of pairs: a later pair replaces an earlier one with its key.\<close>

definition hm_collect :: "('k \<times> 'v) list \<Rightarrow> ('k, 'v) hashmap" where
  "hm_collect kvs = fold (\<lambda>(k, v) m. hm_insert k v m) kvs []"

fun bt_insert :: "'k::linorder \<Rightarrow> 'v \<Rightarrow> ('k \<times> 'v) list \<Rightarrow> ('k \<times> 'v) list" where
  "bt_insert k v [] = [(k, v)]"
| "bt_insert k v ((a, b) # m) =
     (if k < a then (k, v) # (a, b) # m
      else if k = a then (k, v) # m
      else (a, b) # bt_insert k v m)"

definition bt_remove :: "'k::linorder \<Rightarrow> ('k \<times> 'v) list \<Rightarrow> ('k \<times> 'v) list" where
  "bt_remove k m = filter (\<lambda>(a, b). a \<noteq> k) m"

definition bt_ok :: "('k::linorder \<times> 'v) list \<Rightarrow> bool" where
  "bt_ok m \<longleftrightarrow> sorted_wrt (<) (map fst m)"

definition bt_collect :: "('k::linorder \<times> 'v) list \<Rightarrow> ('k \<times> 'v) list" where
  "bt_collect kvs = fold (\<lambda>(k, v) m. bt_insert k v m) kvs []"

subsection \<open>Text\<close>

text \<open>
  A Rust \<^verbatim>\<open>str\<close> is its list of UTF-8 bytes. ASCII behaviour is defined here; what the Unicode
  tables of the standard library say beyond ASCII is a parameter.
\<close>

record unicode =
  u_alphanumeric :: "string \<Rightarrow> bool"
  u_whitespace :: "string \<Rightarrow> bool"
  u_to_lowercase :: "string \<Rightarrow> string"
  u_to_uppercase :: "string \<Rightarrow> string"

definition code_of :: "char \<Rightarrow> nat" where
  "code_of c = of_char c"

definition is_ascii :: "char \<Rightarrow> bool" where
  "is_ascii c \<longleftrightarrow> code_of c < 128"

definition is_continuation :: "char \<Rightarrow> bool" where
  "is_continuation c \<longleftrightarrow> 128 \<le> code_of c \<and> code_of c < 192"

text \<open>The characters of a string: a leading byte with its continuation bytes.\<close>

function utf8_chars :: "string \<Rightarrow> string list" where
  "utf8_chars [] = []"
| "utf8_chars (c # cs) = (c # takeWhile is_continuation cs) # utf8_chars (dropWhile is_continuation cs)"
  by pat_completeness auto
termination
  by (relation "measure length") (auto simp: le_imp_less_Suc length_dropWhile_le)

definition char_lower :: "char \<Rightarrow> char" where
  "char_lower c = (if 65 \<le> code_of c \<and> code_of c \<le> 90 then char_of (code_of c + 32) else c)"

definition char_upper :: "char \<Rightarrow> char" where
  "char_upper c = (if 97 \<le> code_of c \<and> code_of c \<le> 122 then char_of (code_of c - 32) else c)"

definition to_ascii_lowercase :: "string \<Rightarrow> string" where
  "to_ascii_lowercase s = map char_lower s"

definition to_lowercase :: "unicode \<Rightarrow> string \<Rightarrow> string" where
  "to_lowercase U s = (if list_all is_ascii s then map char_lower s else u_to_lowercase U s)"

definition to_uppercase :: "unicode \<Rightarrow> string \<Rightarrow> string" where
  "to_uppercase U s = (if list_all is_ascii s then map char_upper s else u_to_uppercase U s)"

text \<open>The classifications of one character (a chunk of \<open>utf8_chars\<close>).\<close>

definition is_digit :: "char \<Rightarrow> bool" where
  "is_digit c \<longleftrightarrow> 48 \<le> code_of c \<and> code_of c \<le> 57"

fun is_whitespace :: "unicode \<Rightarrow> string \<Rightarrow> bool" where
  "is_whitespace U [c] =
     (if is_ascii c then code_of c = 32 \<or> 9 \<le> code_of c \<and> code_of c \<le> 13 else u_whitespace U [c])"
| "is_whitespace U cs = u_whitespace U cs"

fun is_alphanumeric :: "unicode \<Rightarrow> string \<Rightarrow> bool" where
  "is_alphanumeric U [c] =
     (if is_ascii c
      then is_digit c \<or> 65 \<le> code_of c \<and> code_of c \<le> 90 \<or> 97 \<le> code_of c \<and> code_of c \<le> 122
      else u_alphanumeric U [c])"
| "is_alphanumeric U cs = u_alphanumeric U cs"

text \<open>\<^verbatim>\<open>str::split_whitespace\<close>: the maximal runs of other characters, none of them empty.\<close>

fun split_runs :: "(string \<Rightarrow> bool) \<Rightarrow> string list \<Rightarrow> string \<Rightarrow> string list" where
  "split_runs sep [] acc = (if acc = [] then [] else [acc])"
| "split_runs sep (ch # chs) acc =
     (if sep ch then (if acc = [] then split_runs sep chs [] else acc # split_runs sep chs [])
      else split_runs sep chs (acc @ ch))"

definition split_whitespace :: "unicode \<Rightarrow> string \<Rightarrow> string list" where
  "split_whitespace U s = split_runs (is_whitespace U) (utf8_chars s) []"

fun join :: "string \<Rightarrow> string list \<Rightarrow> string" where
  "join sep [] = []"
| "join sep [s] = s"
| "join sep (s # t # ts) = s @ sep @ join sep (t # ts)"

text \<open>\<^verbatim>\<open>str::contains\<close>.\<close>

fun contains :: "string \<Rightarrow> string \<Rightarrow> bool" where
  "contains [] pat = (pat = [])"
| "contains (c # cs) pat = (take (length pat) (c # cs) = pat \<or> contains cs pat)"

text \<open>Decimal display of integers.\<close>

fun show_nat :: "nat \<Rightarrow> string" where
  "show_nat n = (if n < 10 then [char_of (48 + n)] else show_nat (n div 10) @ [char_of (48 + n mod 10)])"

declare show_nat.simps [simp del]

definition show_int :: "int \<Rightarrow> string" where
  "show_int i = (if i < 0 then ''-'' @ show_nat (nat (- i)) else show_nat (nat i))"

text \<open>The two hexadecimal digits of a byte, \<^verbatim>\<open>{b:02x}\<close>.\<close>

definition hex_digit :: "nat \<Rightarrow> char" where
  "hex_digit n = (if n < 10 then char_of (48 + n) else char_of (87 + n))"

definition HEX_DIGITS :: string where "HEX_DIGITS = ''0123456789abcdef''"

definition hex_byte :: "u8 \<Rightarrow> string" where
  "hex_byte b = [hex_digit (unat b div 16), hex_digit (unat b mod 16)]"

text \<open>\<^verbatim>\<open>u8::from_str_radix(s, 16)\<close>: an optional plus sign and digits of either case, in range.\<close>

definition hex_value :: "char \<Rightarrow> nat option" where
  "hex_value c =
     (if 48 \<le> code_of c \<and> code_of c \<le> 57 then Some (code_of c - 48)
      else if 97 \<le> code_of c \<and> code_of c \<le> 102 then Some (code_of c - 87)
      else if 65 \<le> code_of c \<and> code_of c \<le> 70 then Some (code_of c - 55) else None)"

definition u8_from_hex :: "string \<Rightarrow> u8 option" where
  "u8_from_hex s =
     (let ds = (case s of c # cs \<Rightarrow> if c = CHR ''+'' then cs else s | [] \<Rightarrow> [])
      in if ds = [] then None
         else case those (map hex_value ds) of
                None \<Rightarrow> None
              | Some vs \<Rightarrow>
                  (let n = fold (\<lambda>v acc. acc * 16 + v) vs 0 in if n < 256 then Some (of_nat n) else None))"

text \<open>The bytes of a string.\<close>

definition str_bytes :: "string \<Rightarrow> bytes" where
  "str_bytes s = map (\<lambda>c. of_nat (code_of c)) s"

definition bytes_str :: "bytes \<Rightarrow> string" where
  "bytes_str bs = map (\<lambda>b. char_of (unat b)) bs"

subsection \<open>Time\<close>

text \<open>
  Instants and durations are nanoseconds. \<^verbatim>\<open>Instant::elapsed\<close> is the difference to the clock
  reading \<open>now\<close>, and 0 where the instant is later (as the standard library's saturates).
\<close>

type_synonym time = nat

definition from_secs :: "nat \<Rightarrow> time" where "from_secs s = s * 1000000000"
definition from_millis :: "nat \<Rightarrow> time" where "from_millis ms = ms * 1000000"
definition as_millis :: "time \<Rightarrow> nat" where "as_millis d = d div 1000000"

definition elapsed :: "time \<Rightarrow> time \<Rightarrow> time" where
  "elapsed now t = now - t"

subsection \<open>Lemmas on lists and options\<close>

lemma fold_max_Max: "fold max xs s = Max (insert s (set xs))"
  using Max.set_eq_fold [of s xs] by simp

lemma get_Some_iff: "get xs i = Some x \<longleftrightarrow> i < length xs \<and> xs ! i = x"
  by (auto simp: get_def)

lemma get_mem: "get xs i = Some x \<Longrightarrow> x \<in> set xs"
  by (auto simp: get_def split: if_splits)

lemma get_Nil [simp]: "get [] i = None"
  by (simp add: get_def)

lemma first_Cons [simp]: "first (x # xs) = Some x"
  by (simp add: get_def)

lemma get_Suc [simp]: "get (x # xs) (Suc i) = get xs i"
  by (simp add: get_def)

lemma bind_result_Inr: "bind_result r f = Inr y \<longleftrightarrow> (\<exists>x. r = Inr x \<and> f x = Inr y)"
  by (cases r) auto

lemma ok_or_Inr [simp]: "ok_or e r = Inr x \<longleftrightarrow> r = Some x"
  by (cases r) auto

lemma map_err_Inr [simp]: "map_err f r = Inr x \<longleftrightarrow> r = Inr x"
  by (cases r) auto

subsection \<open>Lemmas on bytes\<close>

lemma unat_u8_less: "unat (b :: u8) < 256"
  and unat_u16_less: "unat (h :: u16) < 65536"
  and unat_u32_less: "unat (w :: u32) < 4294967296"
  and unat_u64_less: "unat (d :: u64) < 18446744073709551616"
  using unsigned_less [of b, where 'a = nat] unsigned_less [of h, where 'a = nat]
    unsigned_less [of w, where 'a = nat] unsigned_less [of d, where 'a = nat]
  by simp_all

lemma length_le_bytes [simp, wire_simps]: "length (le_bytes n v) = n"
  by (induction n arbitrary: v) auto

lemma le_nat_le_bytes: "le_nat (le_bytes n v) = v mod 256 ^ n"
proof (induction n arbitrary: v)
  case 0
  then show ?case by simp
next
  case (Suc n)
  have "unat (of_nat (v mod 256) :: u8) = v mod 256"
    by (simp add: unat_of_nat)
  with Suc show ?case by (simp add: mod_mult2_eq)
qed

lemma le_nat_bound: "le_nat bs < 256 ^ length bs"
proof (induction bs)
  case Nil
  then show ?case by simp
next
  case (Cons b bs)
  have "unat b < 256" by (rule unat_u8_less)
  with Cons show ?case by simp
qed

lemma le_bytes_le_nat [wire_simps]: "le_bytes (length bs) (le_nat bs) = bs"
proof (induction bs)
  case Nil
  then show ?case by simp
next
  case (Cons b bs)
  have "unat b < 256" by (rule unat_u8_less)
  then have "(unat b + 256 * le_nat bs) mod 256 = unat b"
    and "(unat b + 256 * le_nat bs) div 256 = le_nat bs" by simp_all
  then show ?case using Cons by (simp del: of_nat_add of_nat_mult)
qed

text \<open>A word survives its own bytes, at the widths of the wire formats.\<close>

lemma le_word16 [wire_simps]: "of_nat (le_nat (le_bytes 2 (unat w))) = (w :: u16)"
  and le_word32 [wire_simps]: "of_nat (le_nat (le_bytes 4 (unat x))) = (x :: u32)"
  and le_word64 [wire_simps]: "of_nat (le_nat (le_bytes 8 (unat y))) = (y :: u64)"
  using unat_u16_less [of w] unat_u32_less [of x] unat_u64_less [of y]
  by (simp_all add: le_nat_le_bytes)

lemma wrap_signed_id:
  assumes "0 < n" "- (2 ^ (n - 1)) \<le> v" "v < 2 ^ (n - 1)"
  shows "wrap_signed n v = v"
proof -
  have "(2::int) ^ n = 2 * 2 ^ (n - 1)"
    using assms(1) by (metis Suc_pred' power_Suc)
  with assms(2,3) show ?thesis by (simp add: wrap_signed_def)
qed

lemma i128_wrap_id: "i128_min \<le> v \<Longrightarrow> v \<le> i128_max \<Longrightarrow> i128_wrap v = v"
  by (simp add: i128_wrap_def wrap_signed_id i128_min_def i128_max_def)

subsection \<open>The map interface\<close>

locale kv_store =
  fixes lookup :: "'m \<Rightarrow> 'k \<Rightarrow> 'v option"
    and put :: "'k \<Rightarrow> 'v \<Rightarrow> 'm \<Rightarrow> 'm"
    and emp :: 'm
    and invar :: "'m \<Rightarrow> bool"
  assumes lookup_emp: "lookup emp k = None"
    and lookup_put: "invar m \<Longrightarrow> lookup (put k v m) k' = (if k' = k then Some v else lookup m k')"
    and invar_emp: "invar emp"
    and invar_put: "invar m \<Longrightarrow> invar (put k v m)"
begin

lemma invar_fold: "invar m \<Longrightarrow> invar (fold (\<lambda>(k, v). put k v) kvs m)"
  by (induction kvs arbitrary: m) (auto simp: invar_put)

lemma lookup_fold:
  "invar m \<Longrightarrow> lookup (fold (\<lambda>(k, v). put k v) kvs m) k =
     (case map_of (rev kvs) k of None \<Rightarrow> lookup m k | Some v \<Rightarrow> Some v)"
proof (induction kvs arbitrary: m)
  case Nil
  then show ?case by simp
next
  case (Cons kv kvs)
  then show ?case
    by (cases kv) (simp add: invar_put lookup_put map_add_def split: option.splits)
qed

end

text \<open>A store from which keys can be removed.\<close>

locale kv_map = kv_store +
  fixes del :: "'b \<Rightarrow> 'a \<Rightarrow> 'a"
  assumes lookup_del: "invar m \<Longrightarrow> lookup (del k m) k' = (if k' = k then None else lookup m k')"
    and invar_del: "invar m \<Longrightarrow> invar (del k m)"
begin

lemma lookup_del_put: "invar m \<Longrightarrow> k' \<noteq> k \<Longrightarrow> lookup (del k (put k v m)) k' = lookup m k'"
  by (simp add: lookup_del lookup_put invar_put)

end

interpretation hm: kv_map map_of AList.update "[]" hm_ok AList.delete
  by unfold_locales
    (auto simp: hm_ok_def update_conv' delete_conv' distinct_update distinct_delete)

lemma hm_collect_ok: "hm_ok (hm_collect kvs)"
  unfolding hm_collect_def by (rule hm.invar_fold [OF hm.invar_emp])

lemma lookup_hm_collect: "map_of (hm_collect kvs) k = map_of (rev kvs) k"
  using hm.lookup_fold [OF hm.invar_emp, of kvs k]
  by (simp add: hm_collect_def case_prod_beta' split: option.splits)

lemma hm_collect_distinct:
  assumes "distinct (map fst kvs)"
  shows "hm_collect kvs = kvs"
proof -
  have u: "hm_insert k v m = m @ [(k, v)]" if "k \<notin> fst ` set m" for k v and m :: "('a, 'b) hashmap"
    using that by (induction m) auto
  have "fold (\<lambda>(k, v) m. hm_insert k v m) kvs m = m @ kvs" if "distinct (map fst (m @ kvs))" for m
    using that
  proof (induction kvs arbitrary: m)
    case (Cons kv kvs)
    obtain k v where kv: "kv = (k, v)" by (cases kv)
    have "hm_insert k v m = m @ [(k, v)]" using Cons.prems kv by (intro u) auto
    moreover have "distinct (map fst ((m @ [(k, v)]) @ kvs))" using Cons.prems kv by simp
    ultimately show ?case using Cons.IH [of "m @ [(k, v)]"] kv by simp
  qed simp
  from this [of "[]"] assms show ?thesis by (simp add: hm_collect_def)
qed

lemma lookup_bt_insert: "map_of (bt_insert k v m) k' = (if k' = k then Some v else map_of m k')"
  by (induction k v m rule: bt_insert.induct) auto

lemma fst_bt_insert: "set (map fst (bt_insert k v m)) = insert k (set (map fst m))"
  by (induction k v m rule: bt_insert.induct) auto

lemma bt_ok_insert: "bt_ok m \<Longrightarrow> bt_ok (bt_insert k v m)"
  unfolding bt_ok_def
proof (induction k v m rule: bt_insert.induct)
  case (2 k v a b m)
  then show ?case using fst_bt_insert [of k v m] by (auto simp: less_le_not_le dest: order_trans)
qed simp

lemma lookup_bt_remove: "map_of (bt_remove k m) k' = (if k' = k then None else map_of m k')"
  by (induction m) (auto simp: bt_remove_def)

lemma bt_ok_remove: "bt_ok m \<Longrightarrow> bt_ok (bt_remove k m)"
  by (induction m) (auto simp: bt_ok_def bt_remove_def)

interpretation bt: kv_map map_of bt_insert "[]" bt_ok bt_remove
  by unfold_locales
    (simp_all add: lookup_bt_insert lookup_bt_remove bt_ok_insert bt_ok_remove, simp add: bt_ok_def)

lemma hex_digit_mem: "n < 16 \<Longrightarrow> hex_digit n \<in> set HEX_DIGITS"
proof -
  have "list_all (\<lambda>n. hex_digit n \<in> set HEX_DIGITS) [0..<16]" by code_simp
  then show "n < 16 \<Longrightarrow> hex_digit n \<in> set HEX_DIGITS" by (simp add: list_all_iff)
qed

subsection \<open>Invariants of step relations\<close>

locale step_invariant =
  fixes start :: "'s \<Rightarrow> bool" and step :: "'s \<Rightarrow> 's \<Rightarrow> bool" and inv :: "'s \<Rightarrow> bool"
  assumes inv_start: "start s \<Longrightarrow> inv s"
    and inv_step: "inv s \<Longrightarrow> step s s' \<Longrightarrow> inv s'"
begin

lemma inv_steps: "step\<^sup>*\<^sup>* s s' \<Longrightarrow> inv s \<Longrightarrow> inv s'"
  by (induction rule: rtranclp_induct) (auto intro: inv_step)

lemma inv_reachable: "start s \<Longrightarrow> step\<^sup>*\<^sup>* s s' \<Longrightarrow> inv s'"
  using inv_steps inv_start by blast

end

subsection \<open>Simulation of labelled step relations\<close>

text \<open>A run along a list of labels.\<close>

fun steps_along :: "('s \<Rightarrow> 'l \<Rightarrow> 's \<Rightarrow> bool) \<Rightarrow> 's \<Rightarrow> 'l list \<Rightarrow> 's \<Rightarrow> bool" where
  "steps_along step s [] s' \<longleftrightarrow> s' = s"
| "steps_along step s (l # ls) s' \<longleftrightarrow> (\<exists>m. step s l m \<and> steps_along step m ls s')"

lemma steps_along_append:
  "steps_along step s (ls @ ls') s' \<longleftrightarrow> (\<exists>m. steps_along step s ls m \<and> steps_along step m ls' s')"
  by (induction ls arbitrary: s) auto

locale labelled_simulation =
  fixes cstep :: "'s \<Rightarrow> 'l \<Rightarrow> 's \<Rightarrow> bool" and astep :: "'t \<Rightarrow> 'l \<Rightarrow> 't \<Rightarrow> bool" and rel :: "'s \<Rightarrow> 't \<Rightarrow> bool"
  assumes step_simulated: "rel s t \<Longrightarrow> cstep s l s' \<Longrightarrow> \<exists>t'. astep t l t' \<and> rel s' t'"
begin

lemma run_simulated: "rel s t \<Longrightarrow> steps_along cstep s ls s' \<Longrightarrow> \<exists>t'. steps_along astep t ls t' \<and> rel s' t'"
proof (induction ls arbitrary: s t)
  case (Cons l ls)
  then obtain m where m: "cstep s l m" "steps_along cstep m ls s'" by auto
  then obtain t' where "astep t l t'" "rel m t'" using step_simulated Cons.prems(1) by blast
  then show ?case using Cons.IH m(2) by fastforce
qed simp

end

end
