(* ===== verification/Trace.thy ===== *)
theory Trace
  imports Ciel_Prelude
begin

section \<open>Transactions and simulation traces\<close>

text \<open>
  The data the components exchange: public keys, the Solana transaction the pipeline evaluates,
  and the trace types of \<^verbatim>\<open>crates/ciel-fork/src/trace.rs\<close>.

  A \<^verbatim>\<open>Pubkey\<close> is 32 bytes; the source compares keys, prints them in base58 and reads them from
  base58 literals. The model takes the base58 text as the representation of the key (the encoding
  is injective and the literals are the canonical texts), so printing is the identity.
\<close>

datatype pubkey = Pubkey (pk_text: string)

instantiation pubkey :: linorder
begin

definition less_eq_pubkey :: "pubkey \<Rightarrow> pubkey \<Rightarrow> bool" where
  "p \<le> q \<longleftrightarrow> pk_text p \<le> pk_text q"

definition less_pubkey :: "pubkey \<Rightarrow> pubkey \<Rightarrow> bool" where
  "p < q \<longleftrightarrow> pk_text p < pk_text q"

instance
  by standard (auto simp: less_eq_pubkey_def less_pubkey_def pubkey.expand)

end

text \<open>\<^verbatim>\<open>Pubkey::default()\<close>, 32 zero bytes, which is also the id of the system program.\<close>

definition pubkey_default :: pubkey where
  "pubkey_default = Pubkey ''11111111111111111111111111111111''"

abbreviation system_program_id :: pubkey where
  "system_program_id \<equiv> pubkey_default"

subsection \<open>The transaction\<close>

record compiled_instruction =
  program_id_index :: u8
  ci_accounts :: "u8 list"
  ci_data :: bytes

record transaction =
  signatures :: "bytes list"
  message_header :: "u8 \<times> u8 \<times> u8"
  account_keys :: "pubkey list"
  recent_blockhash :: bytes
  instructions :: "compiled_instruction list"

text \<open>An account as the fork and the RPC layer hold it.\<close>

record account =
  lamports :: u64
  acct_data :: bytes
  acct_owner :: pubkey
  executable :: bool
  rent_epoch :: u64

subsection \<open>The trace\<close>

record cpi_call =
  program_id :: pubkey
  instruction_index :: nat
  stack_height :: u8
  cpi_accounts :: "pubkey list"
  cpi_data :: bytes

record account_change =
  ac_pubkey :: pubkey
  owner_before :: pubkey
  owner_after :: pubkey
  lamports_before :: u64
  lamports_after :: u64
  data_len_before :: nat
  data_len_after :: nat

record oracle_read =
  oracle_pubkey :: pubkey
  oracle_type_name :: string

text \<open>The signed \<^verbatim>\<open>i128\<close> change of one (owner, mint) balance.\<close>

record token_balance_delta =
  tbd_owner :: pubkey
  tbd_mint :: pubkey
  tbd_delta :: int

record token_approval =
  ta_source :: pubkey
  ta_delegate :: pubkey
  ta_amount :: u64
  ta_owner :: pubkey

text \<open>\<open>balance_deltas\<close> maps a key to an \<^verbatim>\<open>i64\<close>; \<open>sint\<close> reads the word.\<close>

record simulation_trace =
  success :: bool
  trace_error :: "string option"
  balance_deltas :: "(pubkey, 64 word) hashmap"
  cpi_graph :: "cpi_call list"
  account_changes :: "account_change list"
  logs :: "string list"
  oracle_reads :: "oracle_read list"
  token_approvals :: "token_approval list"
  token_balance_deltas :: "token_balance_delta list"
  compute_units_consumed :: u64
  fee :: u64

end
