(* ===== verification/Program_Registry.thy ===== *)
theory Program_Registry
  imports Trace
begin

section \<open>The registry of known programs\<close>

text \<open>
  \<^verbatim>\<open>crates/ciel-checkers/src/program_registry.rs\<close>: the well-known program ids and the registry the
  checkers consult. The lemmas show what a registration makes known and that the registry stays a
  proper map; \<open>with_mainnet_defaults\<close> knows exactly the eight listed programs.
\<close>

definition SPL_TOKEN_PROGRAM_ID :: pubkey where
  "SPL_TOKEN_PROGRAM_ID = Pubkey ''TokenkegQfeZyiNwAJbNbGKPFXCWuBvf9Ss623VQ5DA''"

definition SPL_TOKEN_2022_PROGRAM_ID :: pubkey where
  "SPL_TOKEN_2022_PROGRAM_ID = Pubkey ''TokenzQdBNbLqP5VEhdkAS6EPFLC1PHnBqCXEpPxuEb''"

definition BPF_LOADER_UPGRADEABLE_PROGRAM_ID :: pubkey where
  "BPF_LOADER_UPGRADEABLE_PROGRAM_ID = Pubkey ''BPFLoaderUpgradeab1e11111111111111111111111''"

definition DRIFT_V2_PROGRAM_ID :: pubkey where
  "DRIFT_V2_PROGRAM_ID = Pubkey ''dRiftyHA39MWEi3m9aunc5MzRF1JYuBsbn6VPcn33UH''"

definition RAYDIUM_AMM_V4_PROGRAM_ID :: pubkey where
  "RAYDIUM_AMM_V4_PROGRAM_ID = Pubkey ''675kPX9MHTjS2zt1qfr1NYHuzeLXfQM9H24wFSUt1Mp8''"

definition JUPITER_V6_PROGRAM_ID :: pubkey where
  "JUPITER_V6_PROGRAM_ID = Pubkey ''JUP6LkbZbjS1jKKwapdHNy74zcZ3tLUZoi5QNyVTaV4''"

definition ORCA_WHIRLPOOL_PROGRAM_ID :: pubkey where
  "ORCA_WHIRLPOOL_PROGRAM_ID = Pubkey ''whirLbMiicVdio4qvUfM5KAg6Ct8VwpYzGff3uctyCc''"

definition SQUADS_V4_PROGRAM_ID :: pubkey where
  "SQUADS_V4_PROGRAM_ID = Pubkey ''SQDS4ep65T869zMMBKyuUq6aD6EgTu8psMjkvj52pCf''"

record program_registry =
  known_protocols :: "(pubkey, string) hashmap"

definition registry_new :: program_registry where
  "registry_new = \<lparr>known_protocols = []\<rparr>"

definition register :: "pubkey \<Rightarrow> string \<Rightarrow> program_registry \<Rightarrow> program_registry" where
  "register pid name r = r\<lparr>known_protocols := hm_insert pid name (known_protocols r)\<rparr>"

definition is_known_protocol :: "program_registry \<Rightarrow> pubkey \<Rightarrow> string option" where
  "is_known_protocol r pid = hm_get (known_protocols r) pid"

definition registry_len :: "program_registry \<Rightarrow> nat" where
  "registry_len r = length (known_protocols r)"

definition registry_is_empty :: "program_registry \<Rightarrow> bool" where
  "registry_is_empty r \<longleftrightarrow> known_protocols r = []"

definition with_mainnet_defaults :: program_registry where
  "with_mainnet_defaults =
     register SQUADS_V4_PROGRAM_ID ''Squads v4''
     (register ORCA_WHIRLPOOL_PROGRAM_ID ''Orca Whirlpool''
     (register JUPITER_V6_PROGRAM_ID ''Jupiter V6''
     (register RAYDIUM_AMM_V4_PROGRAM_ID ''Raydium AMM v4''
     (register DRIFT_V2_PROGRAM_ID ''Drift v2''
     (register BPF_LOADER_UPGRADEABLE_PROGRAM_ID ''BPF Loader Upgradeable''
     (register SPL_TOKEN_2022_PROGRAM_ID ''SPL Token-2022''
     (register SPL_TOKEN_PROGRAM_ID ''SPL Token'' registry_new)))))))"

text \<open>The ids as a simplification set: unfolding them decides equality of two ids.\<close>

lemmas program_ids =
  SPL_TOKEN_PROGRAM_ID_def SPL_TOKEN_2022_PROGRAM_ID_def BPF_LOADER_UPGRADEABLE_PROGRAM_ID_def
  DRIFT_V2_PROGRAM_ID_def RAYDIUM_AMM_V4_PROGRAM_ID_def JUPITER_V6_PROGRAM_ID_def
  ORCA_WHIRLPOOL_PROGRAM_ID_def SQUADS_V4_PROGRAM_ID_def pubkey_default_def

definition registry_ok :: "program_registry \<Rightarrow> bool" where
  "registry_ok r \<longleftrightarrow> hm_ok (known_protocols r)"

subsection \<open>The registry is a map from program ids to names\<close>

interpretation registry: kv_store is_known_protocol register registry_new registry_ok
  by unfold_locales
    (simp_all add: is_known_protocol_def register_def registry_new_def registry_ok_def
      hm.lookup_put hm.invar_emp hm.invar_put)

lemma mainnet_registry_ok: "registry_ok with_mainnet_defaults"
  unfolding with_mainnet_defaults_def by (intro registry.invar_put registry.invar_emp)

lemma known_drift [simp]: "is_known_protocol with_mainnet_defaults DRIFT_V2_PROGRAM_ID = Some ''Drift v2''"
  and known_squads [simp]: "is_known_protocol with_mainnet_defaults SQUADS_V4_PROGRAM_ID = Some ''Squads v4''"
  by (simp_all add: with_mainnet_defaults_def is_known_protocol_def register_def registry_new_def program_ids)

lemma mainnet_registry_len: "registry_len with_mainnet_defaults = 8"
  by (simp add: with_mainnet_defaults_def registry_len_def register_def registry_new_def program_ids)

end
