(* ===== verification/F64.thy ===== *)
theory F64
  imports Complex_Main "HOL-Library.Log_Nat"
begin

section \<open>Rust's f64 and f32: IEEE 754 arithmetic on exact rationals\<close>

text \<open>
  The checkers and the scorer compute with Rust's \<^verbatim>\<open>f64\<close>. This theory holds an executable
  model of the part of it that the source uses. A finite value is the rational number it
  denotes; every arithmetic operation computes the exact rational result and rounds it once to
  53 significant bits, ties to even, with gradual underflow below \<open>2\<^sup>-\<^sup>1\<^sup>0\<^sup>2\<^sup>2\<close> and overflow to an
  infinity (IEEE 754 binary64, round to nearest even). The two zeros of IEEE 754 are one value
  here: no branch of the source observes the sign of a zero.

  The lemmas below give what the users of the arithmetic need: the exponent of a positive
  rational is unique, the rounding error is at most half a unit in the last place, rounding never
  crosses an integer bound of at most 53 bits, and a closed rounding is evaluated from its
  exponent and its significand (\<open>rnd_evalI\<close>).
\<close>

subsection \<open>Values and rounding\<close>

datatype f64 =
    NaN
  | Inf bool \<comment> \<open>\<open>Inf True\<close> is negative infinity\<close>
  | Fin rat

definition pow2 :: "int \<Rightarrow> rat" where
  "pow2 k = (if 0 \<le> k then 2 ^ nat k else 1 / 2 ^ nat (- k))"

definition round_half_even :: "rat \<Rightarrow> int" where
  "round_half_even y =
     (let f = \<lfloor>y\<rfloor>; d = y - of_int f
      in if d < 1/2 then f else if 1/2 < d then f + 1 else if even f then f else f + 1)"

text \<open>The binary exponent of a positive rational.\<close>

definition ilog2 :: "rat \<Rightarrow> int" where
  "ilog2 x =
     (let (p, q) = quotient_of x; k = bitlen p - bitlen q
      in if pow2 k \<le> x then k else k - 1)"

text \<open>
  Rounding of a positive rational to \<open>prec\<close> significant bits with exponents from \<open>emin\<close> to
  \<open>emax\<close>; \<open>None\<close> is overflow.
\<close>

definition rnd_abs :: "nat \<Rightarrow> int \<Rightarrow> int \<Rightarrow> rat \<Rightarrow> rat option" where
  "rnd_abs prec emin emax x =
     (let e = max (ilog2 x) emin; q = e - (int prec - 1); n = round_half_even (x * pow2 (- q))
      in if emax < e \<or> (e = emax \<and> n = 2 ^ prec) then None else Some (of_int n * pow2 q))"

definition rnd_to :: "nat \<Rightarrow> int \<Rightarrow> int \<Rightarrow> rat \<Rightarrow> f64" where
  "rnd_to prec emin emax x =
     (if x = 0 then Fin 0
      else case rnd_abs prec emin emax \<bar>x\<bar> of None \<Rightarrow> Inf (x < 0) | Some y \<Rightarrow> Fin (sgn x * y))"

text \<open>A rational (a literal, an exact result) as an \<^verbatim>\<open>f64\<close>, and as an \<^verbatim>\<open>f32\<close>.\<close>

definition rnd :: "rat \<Rightarrow> f64" where
  "rnd x = rnd_to 53 (- 1022) 1023 x"

definition to_f32 :: "f64 \<Rightarrow> f64" where
  "to_f32 a = (case a of Fin x \<Rightarrow> rnd_to 24 (- 126) 127 x | _ \<Rightarrow> a)"

subsection \<open>Arithmetic and comparison\<close>

fun f_sub :: "f64 \<Rightarrow> f64 \<Rightarrow> f64" where
  "f_sub NaN b = NaN"
| "f_sub a NaN = NaN"
| "f_sub (Inf s) (Inf t) = (if s = t then NaN else Inf s)"
| "f_sub (Inf s) (Fin y) = Inf s"
| "f_sub (Fin x) (Inf t) = Inf (\<not> t)"
| "f_sub (Fin x) (Fin y) = rnd (x - y)"

fun f_mul :: "f64 \<Rightarrow> f64 \<Rightarrow> f64" where
  "f_mul NaN b = NaN"
| "f_mul a NaN = NaN"
| "f_mul (Inf s) (Inf t) = Inf (s \<noteq> t)"
| "f_mul (Inf s) (Fin y) = (if y = 0 then NaN else Inf (s \<noteq> (y < 0)))"
| "f_mul (Fin x) (Inf t) = (if x = 0 then NaN else Inf ((x < 0) \<noteq> t))"
| "f_mul (Fin x) (Fin y) = rnd (x * y)"

fun f_div :: "f64 \<Rightarrow> f64 \<Rightarrow> f64" where
  "f_div NaN b = NaN"
| "f_div a NaN = NaN"
| "f_div (Inf s) (Inf t) = NaN"
| "f_div (Inf s) (Fin y) = Inf (s \<noteq> (y < 0))"
| "f_div (Fin x) (Inf t) = Fin 0"
| "f_div (Fin x) (Fin y) = (if y = 0 then (if x = 0 then NaN else Inf (x < 0)) else rnd (x / y))"

fun f_abs :: "f64 \<Rightarrow> f64" where
  "f_abs NaN = NaN"
| "f_abs (Inf s) = Inf False"
| "f_abs (Fin x) = Fin \<bar>x\<bar>"

fun f_lt :: "f64 \<Rightarrow> f64 \<Rightarrow> bool" where
  "f_lt NaN b = False"
| "f_lt a NaN = False"
| "f_lt (Inf s) (Inf t) = (s \<and> \<not> t)"
| "f_lt (Inf s) (Fin y) = s"
| "f_lt (Fin x) (Inf t) = (\<not> t)"
| "f_lt (Fin x) (Fin y) = (x < y)"

fun f_le :: "f64 \<Rightarrow> f64 \<Rightarrow> bool" where
  "f_le NaN b = False"
| "f_le a NaN = False"
| "f_le (Inf s) (Inf t) = (s \<or> \<not> t)"
| "f_le (Inf s) (Fin y) = s"
| "f_le (Fin x) (Inf t) = (\<not> t)"
| "f_le (Fin x) (Fin y) = (x \<le> y)"

text \<open>\<^verbatim>\<open>f64::max\<close> ignores a NaN operand; \<^verbatim>\<open>f64::clamp\<close> leaves NaN as it is.\<close>

definition f_max :: "f64 \<Rightarrow> f64 \<Rightarrow> f64" where
  "f_max a b = (if a = NaN then b else if b = NaN then a else if f_lt a b then b else a)"

definition f_clamp :: "f64 \<Rightarrow> f64 \<Rightarrow> f64 \<Rightarrow> f64" where
  "f_clamp a lo hi = (let b = (if f_lt a lo then lo else a) in if f_lt hi b then hi else b)"

fun is_finite :: "f64 \<Rightarrow> bool" where
  "is_finite (Fin x) = True"
| "is_finite a = False"

text \<open>\<^verbatim>\<open>f64::round\<close>: to the nearest integer, halves away from zero.\<close>

definition round_half_away :: "rat \<Rightarrow> int" where
  "round_half_away x = (if 0 \<le> x then \<lfloor>x + 1/2\<rfloor> else - \<lfloor>1/2 - x\<rfloor>)"

fun f_round :: "f64 \<Rightarrow> f64" where
  "f_round (Fin x) = Fin (of_int (round_half_away x))"
| "f_round a = a"

text \<open>
  A cast \<^verbatim>\<open>f64 as iN\<close> or \<^verbatim>\<open>as uN\<close> truncates towards zero and saturates at the bounds of the
  target type; NaN becomes 0.
\<close>

definition truncate_rat :: "rat \<Rightarrow> int" where
  "truncate_rat x = (if 0 \<le> x then \<lfloor>x\<rfloor> else \<lceil>x\<rceil>)"

fun f_cast :: "int \<Rightarrow> int \<Rightarrow> f64 \<Rightarrow> int" where
  "f_cast lo hi NaN = 0"
| "f_cast lo hi (Inf s) = (if s then lo else hi)"
| "f_cast lo hi (Fin x) = max lo (min hi (truncate_rat x))"

text \<open>A cast of an integer to \<^verbatim>\<open>f64\<close> rounds to nearest.\<close>

definition f_of_int :: "int \<Rightarrow> f64" where
  "f_of_int n = rnd (of_int n)"

subsection \<open>Powers of two and the binary exponent\<close>

lemma pow2_pos [simp]: "0 < pow2 k"
  by (simp add: pow2_def)

lemma pow2_nonneg [simp]: "0 \<le> pow2 k"
  by (rule less_imp_le) simp

lemma pow2_nonzero [simp]: "pow2 k \<noteq> 0"
  by (simp add: pow2_def)

lemma pow2_powi: "pow2 k = 2 powi k"
  by (simp add: pow2_def power_int_def inverse_eq_divide power_divide)

lemma pow2_add: "pow2 (a + b) = pow2 a * pow2 b"
  by (simp add: pow2_powi power_int_add)

lemma pow2_minus: "pow2 (- k) = 1 / pow2 k"
  by (simp add: pow2_powi power_int_minus inverse_eq_divide)

lemma pow2_Suc: "pow2 (k + 1) = 2 * pow2 k"
  by (simp add: pow2_add) (simp add: pow2_def)

lemma pow2_mono: "a \<le> b \<Longrightarrow> pow2 a \<le> pow2 b"
  by (simp add: pow2_powi power_int_increasing)

lemma pow2_strict_mono: "a < b \<Longrightarrow> pow2 a < pow2 b"
  by (simp add: pow2_powi power_int_strict_increasing)

lemma pow2_less_iff: "pow2 a < pow2 b \<longleftrightarrow> a < b"
  using pow2_mono [of b a] pow2_strict_mono [of a b] by linarith

text \<open>A positive integer lies between the powers of two its bit length gives.\<close>

lemma bitlen_bracket:
  assumes "0 < p"
  shows "pow2 (bitlen p - 1) \<le> of_int p" and "of_int p < pow2 (bitlen p)"
proof -
  have b: "2 ^ nat (bitlen p - 1) \<le> p" "p < 2 ^ nat (bitlen p)" "0 < bitlen p"
    using bitlen_bounds [OF assms] assms by (simp_all add: bitlen_def compute_floorlog)
  have "of_int (2 ^ nat (bitlen p - 1)) \<le> (of_int p :: rat)"
    using b(1) by (simp only: of_int_le_iff)
  then show "pow2 (bitlen p - 1) \<le> of_int p"
    using b(3) by (simp add: pow2_def)
  have "of_int p < (of_int (2 ^ nat (bitlen p)) :: rat)"
    using b(2) by (simp only: of_int_less_iff)
  then show "of_int p < pow2 (bitlen p)"
    using b(3) by (simp add: pow2_def)
qed

lemma ilog2_bounds:
  assumes "0 < x"
  shows "pow2 (ilog2 x) \<le> x" and "x < pow2 (ilog2 x + 1)"
proof -
  obtain p q where pq: "quotient_of x = (p, q)" by fastforce
  have q: "0 < q" using pq quotient_of_denom_pos by blast
  have x: "x = of_int p / of_int q" using pq quotient_of_div by blast
  have p: "0 < p" using assms q by (simp add: x zero_less_divide_iff)
  let ?k = "bitlen p - bitlen q"
  have up: "x < pow2 (?k + 1)"
  proof -
    have "pow2 (?k + 1) * pow2 (bitlen q - 1) = pow2 (bitlen p)"
      by (simp flip: pow2_add)
    moreover have "pow2 (?k + 1) * pow2 (bitlen q - 1) \<le> pow2 (?k + 1) * of_int q"
      by (rule mult_left_mono [OF bitlen_bracket(1) [OF q]]) simp
    ultimately have "of_int p < pow2 (?k + 1) * of_int q"
      using bitlen_bracket(2) [OF p] by linarith
    then show ?thesis using q by (simp add: x divide_less_eq)
  qed
  have low: "pow2 (?k - 1) \<le> x"
  proof -
    have "pow2 (?k - 1) * pow2 (bitlen q) = pow2 (bitlen p - 1)"
      by (simp flip: pow2_add add: algebra_simps)
    moreover have "pow2 (?k - 1) * of_int q \<le> pow2 (?k - 1) * pow2 (bitlen q)"
      by (rule mult_left_mono [OF less_imp_le [OF bitlen_bracket(2) [OF q]]]) simp
    ultimately have "pow2 (?k - 1) * of_int q \<le> of_int p"
      using bitlen_bracket(1) [OF p] by linarith
    then show ?thesis using q by (simp add: x le_divide_eq)
  qed
  show "pow2 (ilog2 x) \<le> x" and "x < pow2 (ilog2 x + 1)"
    using up low by (auto simp: ilog2_def pq Let_def)
qed

lemma ilog2_eqI:
  assumes "pow2 e \<le> x" and "x < pow2 (e + 1)"
  shows "ilog2 x = e"
proof -
  have "0 < x" using assms(1) pow2_pos [of e] by linarith
  note b = ilog2_bounds [OF this]
  have "pow2 e < pow2 (ilog2 x + 1)" and "pow2 (ilog2 x) < pow2 (e + 1)"
    using assms b by linarith+
  then show ?thesis by (simp add: pow2_less_iff)
qed

subsection \<open>Rounding\<close>

lemma round_half_even_error: "\<bar>of_int (round_half_even y) - y\<bar> \<le> 1/2"
proof -
  have "of_int \<lfloor>y\<rfloor> \<le> y" "y < of_int \<lfloor>y\<rfloor> + 1" by linarith+
  then show ?thesis by (auto simp: round_half_even_def Let_def abs_le_iff)
qed

lemma round_half_even_eqI: "\<bar>of_int n - y\<bar> < 1/2 \<Longrightarrow> round_half_even y = n"
  using round_half_even_error [of y] by linarith

lemma round_half_even_le: "y \<le> of_int m \<Longrightarrow> round_half_even y \<le> m"
  using round_half_even_error [of y] by linarith

lemma round_half_even_ge: "of_int m \<le> y \<Longrightarrow> m \<le> round_half_even y"
  using round_half_even_error [of y] by linarith

lemma round_half_even_of_int [simp]: "round_half_even (of_int m) = m"
  by (rule round_half_even_eqI) simp

text \<open>Evaluation of a rounding in the normal range, from its exponent and significand.\<close>

lemma rnd_evalI:
  assumes "pow2 e \<le> x" "x < pow2 (e + 1)" "- 1022 \<le> e" "e < 1023"
    and "\<bar>of_int n - x * pow2 (52 - e)\<bar> < 1/2" "y = of_int n * pow2 (e - 52)"
  shows "rnd x = Fin y"
proof -
  have "0 < x" using assms(1) pow2_pos [of e] by linarith
  moreover have "max (ilog2 x) (- 1022) = e"
    using ilog2_eqI [OF assms(1,2)] assms(3) by simp
  moreover have "round_half_even (x * pow2 (52 - e)) = n"
    using assms(5) by (rule round_half_even_eqI)
  ultimately show ?thesis
    using assms(4) by (simp add: rnd_def rnd_to_def rnd_abs_def Let_def assms(6))
qed

text \<open>
  The rounding error: within \<open>\<bar>x\<bar> < 2\<^sup>K\<close> (and below overflow) it is at most half a unit in the last
  place of the binade below \<open>2\<^sup>K\<close>.
\<close>

lemma rnd_abs_error:
  assumes "0 < x" "x < pow2 K" "- 1022 < K" "K \<le> 1023"
  shows "\<exists>y. rnd_abs 53 (- 1022) 1023 x = Some y \<and> \<bar>y - x\<bar> \<le> pow2 (K - 54)"
proof -
  define e where "e = max (ilog2 x) (- 1022)"
  define n where "n = round_half_even (x * pow2 (52 - e))"
  have "ilog2 x < K"
    using ilog2_bounds(1) [OF assms(1)] assms(2) pow2_less_iff [of "ilog2 x" K] by linarith
  then have e: "e \<le> K - 1" using assms(3) by (simp add: e_def)
  have "\<bar>of_int n - x * pow2 (52 - e)\<bar> \<le> 1/2"
    unfolding n_def by (rule round_half_even_error)
  then have "\<bar>of_int n - x * pow2 (52 - e)\<bar> * pow2 (e - 52) \<le> 1/2 * pow2 (e - 52)"
    by (rule mult_right_mono) simp
  also have "\<bar>of_int n - x * pow2 (52 - e)\<bar> * pow2 (e - 52) = \<bar>of_int n * pow2 (e - 52) - x\<bar>"
  proof -
    have "pow2 (52 - e) * pow2 (e - 52) = 1" by (simp flip: pow2_add) (simp add: pow2_def)
    then have "(of_int n - x * pow2 (52 - e)) * pow2 (e - 52) = of_int n * pow2 (e - 52) - x"
      by (simp add: left_diff_distrib mult.assoc)
    then show ?thesis by (metis abs_mult_pos pow2_nonneg)
  qed
  also have "1/2 * pow2 (e - 52) = pow2 (e - 53)"
    using pow2_Suc [of "e - 53"] by simp
  also have "\<dots> \<le> pow2 (K - 54)" by (rule pow2_mono) (use e in simp)
  finally have "\<bar>of_int n * pow2 (e - 52) - x\<bar> \<le> pow2 (K - 54)" .
  moreover have "rnd_abs 53 (- 1022) 1023 x = Some (of_int n * pow2 (e - 52))"
    using e assms(4) by (simp add: rnd_abs_def Let_def flip: e_def n_def)
  ultimately show ?thesis by blast
qed

lemma rnd_error:
  assumes "\<bar>x\<bar> < pow2 K" "- 1022 < K" "K \<le> 1023"
  shows "\<exists>y. rnd x = Fin y \<and> \<bar>y - x\<bar> \<le> pow2 (K - 54)"
proof (cases "x = 0")
  case True
  then show ?thesis by (simp add: rnd_def rnd_to_def)
next
  case False
  then obtain y where y: "rnd_abs 53 (- 1022) 1023 \<bar>x\<bar> = Some y" "\<bar>y - \<bar>x\<bar>\<bar> \<le> pow2 (K - 54)"
    using rnd_abs_error [of "\<bar>x\<bar>" K] assms by auto
  then have "rnd x = Fin (sgn x * y)"
    using False by (simp add: rnd_def rnd_to_def)
  moreover have "\<bar>sgn x * y - x\<bar> \<le> pow2 (K - 54)"
    using y(2) False by (cases "0 < x") (auto simp: sgn_if abs_minus_commute)
  ultimately show ?thesis by blast
qed

text \<open>Rounding never crosses zero or an integer bound of at most 53 bits.\<close>

lemma rnd_int_bounds:
  assumes "0 \<le> x" "x \<le> of_int N" "N < 2 ^ 53"
  shows "\<exists>y. rnd x = Fin y \<and> 0 \<le> y \<and> y \<le> of_int N"
proof (cases "x = 0")
  case True
  then show ?thesis using assms by (simp add: rnd_def rnd_to_def)
next
  case False
  define e where "e = max (ilog2 x) (- 1022)"
  define n where "n = round_half_even (x * pow2 (52 - e))"
  have x: "0 < x" using False assms(1) by simp
  have "of_int N < (of_int (2 ^ 53) :: rat)" using assms(3) by (simp only: of_int_less_iff)
  then have "x < pow2 53" using assms(2) by (simp add: pow2_def)
  then have e: "e \<le> 52"
    using ilog2_bounds(1) [OF x] pow2_less_iff [of "ilog2 x" 53] by (simp add: e_def)
  have p: "pow2 (52 - e) = of_int (2 ^ nat (52 - e))" using e by (simp add: pow2_def)
  have inv: "pow2 (52 - e) * pow2 (e - 52) = 1" by (simp flip: pow2_add) (simp add: pow2_def)
  have "x * pow2 (52 - e) \<le> of_int (N * 2 ^ nat (52 - e))"
    using mult_right_mono [OF assms(2) pow2_nonneg [of "52 - e"]] by (simp add: p)
  then have "n \<le> N * 2 ^ nat (52 - e)" unfolding n_def by (rule round_half_even_le)
  then have "of_int n \<le> (of_int (N * 2 ^ nat (52 - e)) :: rat)" by (simp only: of_int_le_iff)
  then have "of_int n \<le> of_int N * pow2 (52 - e)" by (simp add: p)
  then have "of_int n * pow2 (e - 52) \<le> of_int N * pow2 (52 - e) * pow2 (e - 52)"
    by (rule mult_right_mono) simp
  also have "\<dots> = of_int N" using inv by (simp add: mult.assoc)
  finally have le: "of_int n * pow2 (e - 52) \<le> of_int N" .
  have "of_int 0 \<le> x * pow2 (52 - e)" using assms(1) by simp
  then have "0 \<le> n" unfolding n_def by (rule round_half_even_ge)
  moreover have "rnd x = Fin (of_int n * pow2 (e - 52))"
    using e x by (simp add: rnd_def rnd_to_def rnd_abs_def Let_def flip: e_def n_def)
  ultimately show ?thesis using le by simp
qed

lemma rnd_0 [simp]: "rnd 0 = Fin 0"
  by (simp add: rnd_def rnd_to_def)

lemma rnd_1 [simp]: "rnd 1 = Fin 1"
  by (rule rnd_evalI [where e = 0 and n = "2 ^ 52"]) (simp_all add: pow2_def)

lemma rnd_10000 [simp]: "rnd 10000 = Fin 10000"
  by (rule rnd_evalI [where e = 13 and n = "10000 * 2 ^ 39"]) (simp_all add: pow2_def)

end
