(* ===== verification/Json.thy ===== *)
theory Json
  imports Ciel_Prelude F64
begin

section \<open>JSON values and the textual forms of floats\<close>

text \<open>
  The data type behind \<^verbatim>\<open>serde_json::Value\<close> as the source uses it: an object is a \<^verbatim>\<open>BTreeMap\<close>
  (an association list in increasing key order), a number is an unsigned, a negative or a float
  number. The theory also holds \<^verbatim>\<open>f64::from_str\<close> and the fixed-precision display \<^verbatim>\<open>{:.N}\<close>.
\<close>

datatype json =
    JNull
  | JBool bool
  | JU64 nat
  | JI64 int
  | JF64 f64
  | JStr string
  | JArr "json list"
  | JObj "(string \<times> json) list"

text \<open>The object literal \<^verbatim>\<open>json!({...})\<close>.\<close>

definition json_obj :: "(string \<times> json) list \<Rightarrow> json" where
  "json_obj kvs = JObj (bt_collect kvs)"

fun json_opt :: "('a \<Rightarrow> json) \<Rightarrow> 'a option \<Rightarrow> json" where
  "json_opt f None = JNull"
| "json_opt f (Some x) = f x"

definition json_int :: "int \<Rightarrow> json" where
  "json_int i = (if i < 0 then JI64 i else JU64 (nat i))"

text \<open>A float that is not finite becomes \<^verbatim>\<open>null\<close>.\<close>

definition json_f64 :: "f64 \<Rightarrow> json" where
  "json_f64 x = (if is_finite x then JF64 x else JNull)"

fun json_get :: "json \<Rightarrow> string \<Rightarrow> json option" where
  "json_get (JObj m) k = map_of m k"
| "json_get v k = None"

text \<open>\<^verbatim>\<open>value[key]\<close> is \<^verbatim>\<open>null\<close> where the key is missing; the accessors refuse other types.\<close>

definition json_index :: "json \<Rightarrow> string \<Rightarrow> json" where
  "json_index v k = (case json_get v k of None \<Rightarrow> JNull | Some x \<Rightarrow> x)"

fun json_as_str :: "json \<Rightarrow> string option" where
  "json_as_str (JStr s) = Some s"
| "json_as_str v = None"

fun json_as_u64 :: "json \<Rightarrow> nat option" where
  "json_as_u64 (JU64 n) = Some n"
| "json_as_u64 v = None"

fun json_as_i64 :: "json \<Rightarrow> u64 option" where
  "json_as_i64 (JU64 n) = (if n < 2 ^ 63 then Some (of_nat n) else None)"
| "json_as_i64 (JI64 i) = Some (of_int i)"
| "json_as_i64 v = None"

fun json_as_bool :: "json \<Rightarrow> bool option" where
  "json_as_bool (JBool b) = Some b"
| "json_as_bool v = None"

text \<open>\<^verbatim>\<open>value[key] = v\<close> and \<^verbatim>\<open>map.remove(key)\<close> on an object; other values are left alone.\<close>

fun json_set :: "string \<Rightarrow> json \<Rightarrow> json \<Rightarrow> json" where
  "json_set k v (JObj m) = JObj (bt_insert k v m)"
| "json_set k v j = j"

fun json_remove :: "string \<Rightarrow> json \<Rightarrow> json" where
  "json_remove k (JObj m) = JObj (bt_remove k m)"
| "json_remove k j = j"

text \<open>Objects whose keys are in order, at the outermost level.\<close>

fun json_ok :: "json \<Rightarrow> bool" where
  "json_ok (JObj m) = bt_ok m"
| "json_ok v = True"

text \<open>
  The values \<^verbatim>\<open>serde_json\<close> can hold: a number in range, with only negative integers in the signed
  form and only finite doubles, and objects in key order, at every level.
\<close>

fun is_double :: "f64 \<Rightarrow> bool" where
  "is_double (Fin x) = (rnd x = Fin x)"
| "is_double x = False"

fun json_normal :: "json \<Rightarrow> bool" where
  "json_normal JNull = True"
| "json_normal (JBool b) = True"
| "json_normal (JU64 n) = (n < 2 ^ 64)"
| "json_normal (JI64 i) = (- (2 ^ 63) \<le> i \<and> i < 0)"
| "json_normal (JF64 x) = is_double x"
| "json_normal (JStr s) = True"
| "json_normal (JArr vs) = list_all json_normal vs"
| "json_normal (JObj m) = (bt_ok m \<and> list_all (\<lambda>kv. json_normal (snd kv)) m)"

text \<open>
  The values that a text carries exactly: no floats, whose parser in \<^verbatim>\<open>serde_json\<close> is only approximate
  without its feature \<^verbatim>\<open>float_roundtrip\<close>, and no more than \<open>d\<close> arrays and objects around one another;
  the parser gives up at 128.
\<close>

fun json_exact :: "nat \<Rightarrow> json \<Rightarrow> bool" where
  "json_exact d JNull = True"
| "json_exact d (JBool b) = True"
| "json_exact d (JU64 n) = (n < 2 ^ 64)"
| "json_exact d (JI64 i) = (- (2 ^ 63) \<le> i \<and> i < 0)"
| "json_exact d (JF64 x) = False"
| "json_exact d (JStr s) = True"
| "json_exact d (JArr vs) = (0 < d \<and> list_all (json_exact (d - 1)) vs)"
| "json_exact d (JObj m) = (0 < d \<and> bt_ok m \<and> list_all (\<lambda>kv. json_exact (d - 1) (snd kv)) m)"

definition exact_text :: "json \<Rightarrow> bool" where
  "exact_text v \<longleftrightarrow> json_exact 127 v"

subsection \<open>Parsing and displaying floats\<close>

fun digits_value :: "string \<Rightarrow> nat \<Rightarrow> nat" where
  "digits_value [] acc = acc"
| "digits_value (c # cs) acc = digits_value cs (acc * 10 + (code_of c - 48))"

fun split_sign :: "string \<Rightarrow> bool \<times> string" where
  "split_sign (c # cs) =
     (if c = CHR ''-'' then (True, cs) else if c = CHR ''+'' then (False, cs) else (False, c # cs))"
| "split_sign [] = (False, [])"

text \<open>The optional exponent part of a number: \<open>None\<close> where what is left is not one.\<close>

definition parse_exponent :: "string \<Rightarrow> int option" where
  "parse_exponent s =
     (case s of
        [] \<Rightarrow> Some 0
      | c # cs \<Rightarrow>
          if c = CHR ''e'' \<or> c = CHR ''E'' then
            (let (neg, ds) = split_sign cs
             in if ds \<noteq> [] \<and> list_all is_digit ds
                then Some (if neg then - int (digits_value ds 0) else int (digits_value ds 0))
                else None)
          else None)"

definition pow10 :: "int \<Rightarrow> rat" where
  "pow10 k = (if 0 \<le> k then 10 ^ nat k else 1 / 10 ^ nat (- k))"

text \<open>Digits, an optional fraction and an optional exponent, with a digit somewhere.\<close>

definition parse_number :: "string \<Rightarrow> rat option" where
  "parse_number s =
     (let ip = takeWhile is_digit s; r1 = dropWhile is_digit s;
          (fp, r2) = (case r1 of
              c # cs \<Rightarrow> if c = CHR ''.'' then (takeWhile is_digit cs, dropWhile is_digit cs) else ([], r1)
            | [] \<Rightarrow> ([], []))
      in if ip = [] \<and> fp = [] then None
         else (case parse_exponent r2 of
                 None \<Rightarrow> None
               | Some e \<Rightarrow> Some (of_nat (digits_value (ip @ fp) 0) * pow10 (e - int (length fp)))))"

text \<open>\<^verbatim>\<open>f64::from_str\<close>: correctly rounded; the words for the special values in any case.\<close>

definition parse_f64 :: "string \<Rightarrow> f64 option" where
  "parse_f64 s =
     (let (neg, r) = split_sign s; w = map char_lower r
      in if w = ''inf'' \<or> w = ''infinity'' then Some (Inf neg)
         else if w = ''nan'' then Some NaN
         else map_option (\<lambda>v. rnd (if neg then - v else v)) (parse_number r))"

text \<open>\<^verbatim>\<open>{:.N}\<close>: the exact value rounded half to even at the \<open>N\<close>th decimal.\<close>

definition pad_zeros :: "nat \<Rightarrow> string \<Rightarrow> string" where
  "pad_zeros n s = replicate (n - length s) (CHR ''0'') @ s"

fun fmt_fixed :: "nat \<Rightarrow> f64 \<Rightarrow> string" where
  "fmt_fixed d NaN = ''NaN''"
| "fmt_fixed d (Inf s) = (if s then ''-inf'' else ''inf'')"
| "fmt_fixed d (Fin x) =
     (let n = nat (round_half_even (\<bar>x\<bar> * 10 ^ d)); ds = pad_zeros (d + 1) (show_nat n)
      in (if x < 0 then ''-'' else []) @ take (length ds - d) ds @
         (if d = 0 then [] else ''.'' @ drop (length ds - d) ds))"

subsection \<open>Lemmas on objects\<close>

lemma bt_collect_ok: "bt_ok (bt_collect kvs)"
  unfolding bt_collect_def by (rule bt.invar_fold [OF bt.invar_emp])

lemma lookup_bt_collect: "map_of (bt_collect kvs) k = map_of (rev kvs) k"
  using bt.lookup_fold [OF bt.invar_emp, of kvs k]
  by (simp add: bt_collect_def case_prod_beta' split: option.splits)

lemma json_obj_ok [simp]: "json_ok (json_obj kvs)"
  by (simp add: json_obj_def bt_collect_ok)

lemma json_get_obj [simp]: "json_get (json_obj kvs) k = map_of (rev kvs) k"
  by (simp add: json_obj_def lookup_bt_collect)

lemma json_get_set: "json_get (json_set k v (JObj m)) k' = (if k' = k then Some v else map_of m k')"
  by (simp add: lookup_bt_insert)

lemma json_get_remove: "json_get (json_remove k j) k' = (if k' = k then None else json_get j k')"
  by (cases j) (simp_all add: lookup_bt_remove)

subsection \<open>Objects that a text carries exactly\<close>

lemma bt_insert_values: "set (map snd (bt_insert k v m)) \<subseteq> insert v (set (map snd m))"
  by (induction k v m rule: bt_insert.induct) auto

lemma bt_collect_values: "set (map snd (bt_collect kvs)) \<subseteq> set (map snd kvs)"
proof -
  have "set (map snd (fold (\<lambda>(k, v). bt_insert k v) kvs m)) \<subseteq> set (map snd kvs) \<union> set (map snd m)" for m
  proof (induction kvs arbitrary: m)
    case (Cons kv kvs)
    obtain k v where kv: "kv = (k, v)" by (cases kv)
    show ?case unfolding kv fold_simps prod.case list.map set_simps
      by (rule order_trans [OF Cons]) (use bt_insert_values [of k v m] in auto)
  qed simp
  from this [of "[]"] show ?thesis by (simp add: bt_collect_def)
qed

lemma json_exact_obj:
  "(\<And>v. v \<in> set (map snd kvs) \<Longrightarrow> json_exact d v) \<Longrightarrow> json_exact (Suc d) (json_obj kvs)"
  using bt_collect_ok [of kvs] bt_collect_values [of kvs] by (fastforce simp: json_obj_def list_all_iff)

lemma json_exact_mono: "json_exact d v \<Longrightarrow> d \<le> e \<Longrightarrow> json_exact e v"
  by (induction d v arbitrary: e rule: json_exact.induct) (auto simp: list_all_iff)

lemma exact_textI: "json_exact d v \<Longrightarrow> d \<le> 127 \<Longrightarrow> exact_text v"
  by (simp add: exact_text_def json_exact_mono)

end
