(* ===== verification/Oracle_Cache.thy ===== *)
theory Oracle_Cache
  imports Trace Json
begin

section \<open>Oracle prices, account parsers and the canonical feeds\<close>

text \<open>
  \<^verbatim>\<open>crates/ciel-checkers/src/oracle_cache.rs\<close>: the price cache, the parsers of Switchboard V2 and
  Pyth account bytes, and the map of canonical feeds. The function \<open>powi10\<close> stands for
  \<^verbatim>\<open>10f64.powi(k)\<close>, whose precision the standard library leaves open. The lemmas show which bytes a
  parser reads, the order of its error checks, that the feed map keeps the two feeds of an asset
  paired, and which assets of the mainnet table have one key in both roles.
\<close>

subsection \<open>Prices and the cache\<close>

datatype oracle_type = Switchboard | Pyth

record oracle_price =
  op_oracle_type :: oracle_type
  price :: f64
  confidence :: f64
  op_timestamp :: "64 word" \<comment> \<open>\<^verbatim>\<open>i64\<close>\<close>
  asset :: string

record oracle_cache =
  prices :: "(pubkey, oracle_price) hashmap"
  reference_timestamp :: "64 word" \<comment> \<open>\<^verbatim>\<open>i64\<close>\<close>

definition oracle_cache_default :: oracle_cache where
  "oracle_cache_default = \<lparr>prices = [], reference_timestamp = 0\<rparr>"

definition with_reference_timestamp :: "64 word \<Rightarrow> oracle_cache" where
  "with_reference_timestamp t = \<lparr>prices = [], reference_timestamp = t\<rparr>"

definition cache_insert :: "pubkey \<Rightarrow> oracle_price \<Rightarrow> oracle_cache \<Rightarrow> oracle_cache" where
  "cache_insert k p c = c\<lparr>prices := hm_insert k p (prices c)\<rparr>"

definition cache_get :: "oracle_cache \<Rightarrow> pubkey \<Rightarrow> oracle_price option" where
  "cache_get c k = hm_get (prices c) k"

subsection \<open>Account data parsers\<close>

datatype oracle_parse_error =
    TooShort nat nat \<comment> \<open>got, need\<close>
  | BadDiscriminator bytes bytes \<comment> \<open>expected, got\<close>
  | BadMagic nat nat
  | BadAccountType nat nat
  | ZeroScale

definition slice :: "bytes \<Rightarrow> nat \<Rightarrow> nat \<Rightarrow> bytes" where
  "slice d off n = take n (drop off d)"

definition read_u :: "bytes \<Rightarrow> nat \<Rightarrow> nat \<Rightarrow> nat" where
  "read_u d off n = le_nat (slice d off n)"

definition read_i :: "bytes \<Rightarrow> nat \<Rightarrow> nat \<Rightarrow> int" where
  "read_i d off n = wrap_signed (8 * n) (int (read_u d off n))"

definition SB_DISCRIMINATOR :: bytes where
  "SB_DISCRIMINATOR = [217, 230, 65, 101, 201, 162, 27, 125]"

definition SB_MIN_SIZE :: nat where "SB_MIN_SIZE = 3851"
definition SB_ROUND_TIMESTAMP :: nat where "SB_ROUND_TIMESTAMP = 341 + 17"
definition SB_RESULT_MANTISSA :: nat where "SB_RESULT_MANTISSA = 341 + 25"
definition SB_RESULT_SCALE :: nat where "SB_RESULT_SCALE = 341 + 41"
definition SB_STDDEV_MANTISSA :: nat where "SB_STDDEV_MANTISSA = 341 + 45"
definition SB_STDDEV_SCALE :: nat where "SB_STDDEV_SCALE = 341 + 61"

text \<open>\<^verbatim>\<open>mantissa as f64 / 10f64.powi(scale as i32)\<close>; the \<^verbatim>\<open>u32\<close> scale wraps to \<^verbatim>\<open>i32\<close>.\<close>

definition switchboard_decimal ::
    "(int \<Rightarrow> f64) \<Rightarrow> bytes \<Rightarrow> nat \<Rightarrow> nat \<Rightarrow> (oracle_parse_error, f64) result" where
  "switchboard_decimal powi10 d mantissa_offset scale_offset =
     (let mantissa = read_i d mantissa_offset 16; scale = read_u d scale_offset 4
      in Inr (f_div (f_of_int mantissa) (powi10 (wrap_signed 32 (int scale)))))"

definition parse_switchboard_v2 ::
    "(int \<Rightarrow> f64) \<Rightarrow> bytes \<Rightarrow> string \<Rightarrow> (oracle_parse_error, oracle_price) result" where
  "parse_switchboard_v2 powi10 d a =
     (if length d < SB_MIN_SIZE then Inl (TooShort (length d) SB_MIN_SIZE)
      else if slice d 0 8 \<noteq> SB_DISCRIMINATOR
      then Inl (BadDiscriminator SB_DISCRIMINATOR (slice d 0 8))
      else bind_result (switchboard_decimal powi10 d SB_RESULT_MANTISSA SB_RESULT_SCALE) (\<lambda>p.
           bind_result (switchboard_decimal powi10 d SB_STDDEV_MANTISSA SB_STDDEV_SCALE) (\<lambda>std_dev.
           Inr \<lparr>op_oracle_type = Switchboard, price = p, confidence = std_dev,
                op_timestamp = of_int (read_i d SB_ROUND_TIMESTAMP 8), asset = a\<rparr>)))"

definition PYTH_MAGIC :: nat where "PYTH_MAGIC = 0xA1B2C3D4"
definition PYTH_ACCOUNT_TYPE_PRICE :: nat where "PYTH_ACCOUNT_TYPE_PRICE = 3"
definition PYTH_MIN_SIZE :: nat where "PYTH_MIN_SIZE = 240"
definition PYTH_MAGIC_OFFSET :: nat where "PYTH_MAGIC_OFFSET = 0"
definition PYTH_ATYPE_OFFSET :: nat where "PYTH_ATYPE_OFFSET = 8"
definition PYTH_EXPO_OFFSET :: nat where "PYTH_EXPO_OFFSET = 20"
definition PYTH_TIMESTAMP_OFFSET :: nat where "PYTH_TIMESTAMP_OFFSET = 96"
definition PYTH_AGG_PRICE :: nat where "PYTH_AGG_PRICE = 208"
definition PYTH_AGG_CONF :: nat where "PYTH_AGG_CONF = 216"
definition PYTH_AGG_STATUS :: nat where "PYTH_AGG_STATUS = 224"

definition parse_pyth_price ::
    "(int \<Rightarrow> f64) \<Rightarrow> bytes \<Rightarrow> string \<Rightarrow> (oracle_parse_error, oracle_price) result" where
  "parse_pyth_price powi10 d a =
     (if length d < PYTH_MIN_SIZE then Inl (TooShort (length d) PYTH_MIN_SIZE)
      else let magic = read_u d PYTH_MAGIC_OFFSET 4
      in if magic \<noteq> PYTH_MAGIC then Inl (BadMagic PYTH_MAGIC magic)
      else let atype = read_u d PYTH_ATYPE_OFFSET 4
      in if atype \<noteq> PYTH_ACCOUNT_TYPE_PRICE then Inl (BadAccountType PYTH_ACCOUNT_TYPE_PRICE atype)
      else let expo = read_i d PYTH_EXPO_OFFSET 4;
               timestamp = read_i d PYTH_TIMESTAMP_OFFSET 8;
               raw_price = read_i d PYTH_AGG_PRICE 8;
               raw_conf = read_u d PYTH_AGG_CONF 8;
               scale = powi10 expo
      in Inr \<lparr>op_oracle_type = Pyth, price = f_mul (f_of_int raw_price) scale,
              confidence = f_mul (f_of_int (int raw_conf)) scale,
              op_timestamp = of_int timestamp, asset = a\<rparr>)"

definition pyth_is_trading :: "bytes \<Rightarrow> bool" where
  "pyth_is_trading d \<longleftrightarrow> (if length d \<le> PYTH_AGG_STATUS then False else d ! PYTH_AGG_STATUS = 1)"

subsection \<open>The canonical feed map\<close>

record canonical_feed_map =
  pubkey_to_asset :: "(pubkey, string \<times> oracle_type) hashmap"
  asset_to_switchboard :: "(string, pubkey) hashmap"
  asset_to_pyth :: "(string, pubkey) hashmap"

definition feed_map_empty :: canonical_feed_map where
  "feed_map_empty = \<lparr>pubkey_to_asset = [], asset_to_switchboard = [], asset_to_pyth = []\<rparr>"

definition feed_register :: "string \<Rightarrow> pubkey \<Rightarrow> pubkey \<Rightarrow> canonical_feed_map \<Rightarrow> canonical_feed_map" where
  "feed_register a sb py m =
     m\<lparr>pubkey_to_asset := hm_insert py (a, Pyth) (hm_insert sb (a, Switchboard) (pubkey_to_asset m)),
       asset_to_switchboard := hm_insert a sb (asset_to_switchboard m),
       asset_to_pyth := hm_insert a py (asset_to_pyth m)\<rparr>"

definition is_known :: "canonical_feed_map \<Rightarrow> pubkey \<Rightarrow> bool" where
  "is_known m k \<longleftrightarrow> hm_get (pubkey_to_asset m) k \<noteq> None"

definition asset_for :: "canonical_feed_map \<Rightarrow> pubkey \<Rightarrow> string option" where
  "asset_for m k = map_option fst (hm_get (pubkey_to_asset m) k)"

definition cross_reference :: "canonical_feed_map \<Rightarrow> pubkey \<Rightarrow> pubkey option" where
  "cross_reference m k =
     (case hm_get (pubkey_to_asset m) k of
        None \<Rightarrow> None
      | Some (a, t) \<Rightarrow>
          (case t of
             Switchboard \<Rightarrow> hm_get (asset_to_pyth m) a
           | Pyth \<Rightarrow> hm_get (asset_to_switchboard m) a))"

definition mainnet_feeds :: "(string \<times> pubkey \<times> pubkey) list" where
  "mainnet_feeds =
     [
      (''SOL/USD'', Pubkey ''GvDMxPzN1sCj7L26YDK2HnMRXEQmQ2aemov8YBtPS7vR'',
        Pubkey ''H6ARHf6YXhGYeQfUzQNGk6rDNnLBQKrenN712K4AQJEG''),
      (''BTC/USD'', Pubkey ''8SXvChNYFhRq4EZuZvnhjrB3jJRQCv4k3P4W6hesH3Ee'',
        Pubkey ''GVXRSBjFk6e6J3NbVPXohDJetcTjaeeuykUpbQF8UoMU''),
      (''ETH/USD'', Pubkey ''HNStfhaLnqwF2ZtJUizaA9uHDAVB976r2AgTUx9LrdEo'',
        Pubkey ''JBu1AL4obBcCMqKBBxhpWCNUt136ijcuMZLFvTP7iWdB''),
      (''USDC/USD'', Pubkey ''BjUgj6YCnFBZ49wF54ddBVA9qu8TeqkFtkbqmZcee8uW'',
        Pubkey ''Gnt27xtC473ZT2Mw5u8wZ68Z3gULkSTb5DuxJy7eJotD''),
      (''USDT/USD'', Pubkey ''3vxLXJqLqF3JG5TCbYycbKWRBbCJQLxQmBGCkyqEEefL'',
        Pubkey ''3vxLXJqLqF3JG5TCbYycbKWRBbCJQLxQmBGCkyqEEefL''),
      (''BONK/USD'', Pubkey ''DBE3N8uNjhKPRHfANdwGvCZghWXyLPdqdSbEW2XFwBiX'',
        Pubkey ''8ihFLu5FimgTQ1Unh4dVyEHUGodJ5gJQCR9zGpXhCsqf''),
      (''JTO/USD'', Pubkey ''Ffq6ACJ17NAgaxC6ocfMzVXL3K61qxB2xHg1aAmCPRbm'',
        Pubkey ''7ajR2zA4MGMMTqRAVjghTKqPPn4kbrj3pYkAVRVwTGzP''),
      (''PYTH/USD'', Pubkey ''4aJnb2FVxgFBSMGMFKHP97F6cyGEZasPaHLFqidrPMrU'',
        Pubkey ''nrYkQQQur7z8rYTST3G9GqATviK5SxTDkrqd21MW6Ue''),
      (''JUP/USD'', Pubkey ''g6eRCbboSwK4tSWngn773RCMexr1APQr4uA9bGZBYfo'',
        Pubkey ''g6eRCbboSwK4tSWngn773RCMexr1APQr4uA9bGZBYfo''),
      (''RAY/USD'', Pubkey ''AnLf8tVYCM816gmBjiy8n53eXKKEDydT5piYjjQDPgTB'',
        Pubkey ''AnLf8tVYCM816gmBjiy8n53eXKKEDydT5piYjjQDPgTB''),
      (''WIF/USD'', Pubkey ''6ABgrEZk8urs6kJ1JNdC1sspH5zKXRqxy8sg3ZG2cQps'',
        Pubkey ''6ABgrEZk8urs6kJ1JNdC1sspH5zKXRqxy8sg3ZG2cQps''),
      (''RNDR/USD'', Pubkey ''CYGfrBJB9HgLf9iZyN4aH5HvUAi2htQ4MjPxeXMf4Egn'',
        Pubkey ''CYGfrBJB9HgLf9iZyN4aH5HvUAi2htQ4MjPxeXMf4Egn''),
      (''HNT/USD'', Pubkey ''7moA1i5vQUpfDwSpK6Pw9s56ahB7WFGidtbL2ujWrVvm'',
        Pubkey ''7moA1i5vQUpfDwSpK6Pw9s56ahB7WFGidtbL2ujWrVvm''),
      (''ORCA/USD'', Pubkey ''4ivThkX8uRxBpHsdWSqyXYihzKF3zpRGAUCqyuagnLoV'',
        Pubkey ''4ivThkX8uRxBpHsdWSqyXYihzKF3zpRGAUCqyuagnLoV''),
      (''MNGO/USD'', Pubkey ''79wm3jjcPr6RaNQ4DGvP5KxG1mNd3gEBsg6FsNVFezK4'',
        Pubkey ''79wm3jjcPr6RaNQ4DGvP5KxG1mNd3gEBsg6FsNVFezK4''),
      (''MSOL/USD'', Pubkey ''E4v1BBgoso9s64TQvmyownAVJbhbEPGyzA3qn4n46qj9'',
        Pubkey ''E4v1BBgoso9s64TQvmyownAVJbhbEPGyzA3qn4n46qj9''),
      (''DRIFT/USD'', Pubkey ''23UJpHCbuMY1EXR8DZRD2w4t5ZSNpZv7ed7Z8h15sFib'',
        Pubkey ''23UJpHCbuMY1EXR8DZRD2w4t5ZSNpZv7ed7Z8h15sFib''),
      (''W/USD'', Pubkey ''BH2yJkXz8R1s9Bz5LKXNP8JYF8kDqvxGkKHiLHiTwfN'',
        Pubkey ''BH2yJkXz8R1s9Bz5LKXNP8JYF8kDqvxGkKHiLHiTwfN''),
      (''JITOSOL/USD'', Pubkey ''Fxs9GR12FMjgKE3wJCAcaGMHFuGNbUZoMAt5wCpJRo8Q'',
        Pubkey ''Fxs9GR12FMjgKE3wJCAcaGMHFuGNbUZoMAt5wCpJRo8Q''),
      (''TENSOR/USD'', Pubkey ''Bk1dH6jVRQBiwKFLPMHrFLMjQFCTTHbpCzYGTRYP9hM7'',
        Pubkey ''Bk1dH6jVRQBiwKFLPMHrFLMjQFCTTHbpCzYGTRYP9hM7'')
     ]"

definition register_all :: "(string \<times> pubkey \<times> pubkey) list \<Rightarrow> canonical_feed_map \<Rightarrow> canonical_feed_map" where
  "register_all feeds m = fold (\<lambda>(a, sb, py). feed_register a sb py) feeds m"

definition default_mainnet :: canonical_feed_map where
  "default_mainnet = register_all mainnet_feeds feed_map_empty"

subsection \<open>What the parsers read\<close>

lemma slice_take: "off + n \<le> k \<Longrightarrow> slice (take k d) off n = slice d off n"
  by (simp add: slice_def drop_take min.absorb1)

lemma slice_cong: "take k d = take k d' \<Longrightarrow> off + n \<le> k \<Longrightarrow> slice d off n = slice d' off n"
  by (metis slice_take)

lemma length_slice: "off + n \<le> length d \<Longrightarrow> length (slice d off n) = n"
  by (simp add: slice_def)

lemmas sb_layout =
  SB_MIN_SIZE_def SB_ROUND_TIMESTAMP_def SB_RESULT_MANTISSA_def SB_RESULT_SCALE_def
  SB_STDDEV_MANTISSA_def SB_STDDEV_SCALE_def

lemmas pyth_layout =
  PYTH_MIN_SIZE_def PYTH_MAGIC_OFFSET_def PYTH_ATYPE_OFFSET_def PYTH_EXPO_OFFSET_def
  PYTH_TIMESTAMP_OFFSET_def PYTH_AGG_PRICE_def PYTH_AGG_CONF_def PYTH_AGG_STATUS_def

subsection \<open>The feed map keeps the feeds of an asset paired\<close>

lemma cross_reference_register:
  "cross_reference (feed_register a sb py m) k =
     (if k = py then Some sb else if k = sb then Some py
      else case hm_get (pubkey_to_asset m) k of
             None \<Rightarrow> None
           | Some (a', t) \<Rightarrow>
               if a' = a then Some (case t of Switchboard \<Rightarrow> py | Pyth \<Rightarrow> sb) else cross_reference m k)"
  by (simp add: cross_reference_def feed_register_def update_conv'
      split: option.splits prod.splits oracle_type.splits)

lemma is_known_register: "is_known (feed_register a sb py m) k \<longleftrightarrow> k = sb \<or> k = py \<or> is_known m k"
  by (auto simp: is_known_def feed_register_def update_conv')

lemma asset_for_register:
  "asset_for (feed_register a sb py m) k = (if k = sb \<or> k = py then Some a else asset_for m k)"
  by (simp add: asset_for_def feed_register_def update_conv')

lemma cross_reference_register_other:
  "k \<noteq> sb \<Longrightarrow> k \<noteq> py \<Longrightarrow> asset_for m k \<noteq> Some a \<Longrightarrow>
     cross_reference (feed_register a sb py m) k = cross_reference m k"
  unfolding cross_reference_register asset_for_def
  by (cases "hm_get (pubkey_to_asset m) k") (auto simp: cross_reference_def)

definition feeds_paired :: "canonical_feed_map \<Rightarrow> bool" where
  "feeds_paired m \<longleftrightarrow>
     (\<forall>k c. cross_reference m k = Some c \<longrightarrow> cross_reference m c = Some k \<and> asset_for m c = asset_for m k)"

lemma cross_reference_known: "cross_reference m k = Some c \<Longrightarrow> is_known m k"
  by (auto simp: cross_reference_def is_known_def split: option.splits)

lemma feeds_paired_register:
  assumes paired: "feeds_paired m" and fresh: "\<not> is_known m sb" "\<not> is_known m py"
    and asset: "\<And>k. asset_for m k \<noteq> Some a"
  shows "feeds_paired (feed_register a sb py m)"
proof -
  let ?n = "feed_register a sb py m"
  have old: "cross_reference ?n k = cross_reference m k" if "k \<noteq> sb" "k \<noteq> py" for k
    using that asset [of k] by (rule cross_reference_register_other)
  show ?thesis
    unfolding feeds_paired_def
  proof (intro allI impI)
    fix k c assume k: "cross_reference ?n k = Some c"
    show "cross_reference ?n c = Some k \<and> asset_for ?n c = asset_for ?n k"
    proof (cases "k = sb \<or> k = py")
      case True
      then show ?thesis
        using k by (auto simp: cross_reference_register asset_for_register split: if_splits)
    next
      case False
      then have m: "cross_reference m k = Some c" using k old by simp
      then have c: "cross_reference m c = Some k" "asset_for m c = asset_for m k"
        using paired unfolding feeds_paired_def by blast+
      then have "is_known m c" by (blast dest: cross_reference_known)
      then have "c \<noteq> sb" "c \<noteq> py" using fresh by auto
      then show ?thesis using c old [of c] False by (simp add: asset_for_register)
    qed
  qed
qed

text \<open>Rows with different assets and without a common key.\<close>

definition rows_apart :: "string \<times> pubkey \<times> pubkey \<Rightarrow> string \<times> pubkey \<times> pubkey \<Rightarrow> bool" where
  "rows_apart r r' \<longleftrightarrow> fst r \<noteq> fst r' \<and> fst (snd r) \<noteq> fst (snd r') \<and> fst (snd r) \<noteq> snd (snd r') \<and>
     snd (snd r) \<noteq> fst (snd r') \<and> snd (snd r) \<noteq> snd (snd r')"

lemma register_all_snoc:
  "register_all (rows @ [(a, sb, py)]) m = feed_register a sb py (register_all rows m)"
  by (simp add: register_all_def)

lemma register_all_facts:
  assumes "sorted_wrt rows_apart rows"
  shows "feeds_paired (register_all rows feed_map_empty) \<and>
    (\<forall>k. is_known (register_all rows feed_map_empty) k \<longleftrightarrow>
       (\<exists>(a, sb, py) \<in> set rows. k = sb \<or> k = py)) \<and>
    (\<forall>k a. asset_for (register_all rows feed_map_empty) k = Some a \<longrightarrow> a \<in> fst ` set rows) \<and>
    (\<forall>(a, sb, py) \<in> set rows. cross_reference (register_all rows feed_map_empty) sb = Some py)"
    (is "?paired rows \<and> ?known rows \<and> ?assets rows \<and> ?cross rows")
  using assms
proof (induction rows rule: rev_induct)
  case Nil
  then show ?case
    by (simp add: register_all_def feed_map_empty_def feeds_paired_def cross_reference_def
        is_known_def asset_for_def)
next
  case (snoc r rows)
  obtain a sb py where r: "r = (a, sb, py)" by (cases r)
  let ?m = "register_all rows feed_map_empty"
  have IH: "?paired rows" "?known rows" "?assets rows" "?cross rows"
    and apart: "\<And>r'. r' \<in> set rows \<Longrightarrow> rows_apart r' r"
    using snoc by (auto simp: sorted_wrt_append)
  have known: "k \<noteq> sb \<and> k \<noteq> py" if k: "is_known ?m k" for k
  proof -
    obtain a' sb' py' where r': "(a', sb', py') \<in> set rows" "k = sb' \<or> k = py'"
      using IH(2) k by auto
    then show ?thesis using apart [OF r'(1)] by (auto simp: r rows_apart_def)
  qed
  then have fresh: "\<not> is_known ?m sb" "\<not> is_known ?m py" by blast+
  have asset: "asset_for ?m k \<noteq> Some a" for k
  proof
    assume "asset_for ?m k = Some a"
    then obtain r' where "r' \<in> set rows" "fst r' = a" using IH(3) by blast
    then show False using apart [of r'] by (simp add: r rows_apart_def)
  qed
  have "?paired (rows @ [r])"
    unfolding r register_all_snoc by (rule feeds_paired_register [OF IH(1) fresh asset])
  moreover have "?known (rows @ [r])"
    using IH(2) by (auto simp: r register_all_snoc is_known_register)
  moreover have "?assets (rows @ [r])"
    using IH(3) by (auto simp: r register_all_snoc asset_for_register split: if_splits)
  moreover have "?cross (rows @ [r])"
  proof (rule ballI)
    fix r' assume "r' \<in> set (rows @ [r])"
    then consider "r' = r" | "r' \<in> set rows" by auto
    then show "case r' of (a', sb', py') \<Rightarrow>
        cross_reference (register_all (rows @ [r]) feed_map_empty) sb' = Some py'"
    proof cases
      case 1
      then show ?thesis by (simp add: r register_all_snoc cross_reference_register)
    next
      case 2
      obtain a' sb' py' where r': "r' = (a', sb', py')" by (cases r')
      have c: "cross_reference ?m sb' = Some py'" using IH(4) 2 by (auto simp: r')
      have "sb' \<noteq> sb" "sb' \<noteq> py" using apart [OF 2] by (auto simp: r r' rows_apart_def)
      then show ?thesis
        using c cross_reference_register_other [OF _ _ asset] by (simp add: r r' register_all_snoc)
    qed
  qed
  ultimately show ?case by blast
qed

text \<open>
  The twenty rows of the mainnet table are apart. Comparing forty base58 texts pairwise is slow in
  the kernel, so the texts are compared by the number their first four bytes spell.
\<close>

definition text_prefix :: "string \<Rightarrow> nat" where
  "text_prefix s = foldl (\<lambda>acc c. acc * 256 + of_char c) 0 (take 4 s)"

definition row_prefix :: "string \<times> pubkey \<times> pubkey \<Rightarrow> nat \<times> nat \<times> nat" where
  "row_prefix r = (text_prefix (fst r), text_prefix (pk_text (fst (snd r))), text_prefix (pk_text (snd (snd r))))"

definition prefixes_apart :: "nat \<times> nat \<times> nat \<Rightarrow> nat \<times> nat \<times> nat \<Rightarrow> bool" where
  "prefixes_apart p q \<longleftrightarrow> fst p \<noteq> fst q \<and> fst (snd p) \<noteq> fst (snd q) \<and> fst (snd p) \<noteq> snd (snd q) \<and>
     snd (snd p) \<noteq> fst (snd q) \<and> snd (snd p) \<noteq> snd (snd q)"

lemma prefixes_apart_rows: "prefixes_apart (row_prefix r) (row_prefix r') \<Longrightarrow> rows_apart r r'"
  by (auto simp: prefixes_apart_def row_prefix_def rows_apart_def)

lemma mainnet_prefixes:
  "map row_prefix mainnet_feeds =
     [(1397705775, 1198933069, 1211515218),
      (1112818479, 944986230, 1196841042),
      (1163151407, 1213092724, 1245869361),
      (1431520323, 1114264935, 1198421042),
      (1431520340, 863402060, 863402060),
      (1112493643, 1145193779, 946432070),
      (1247039279, 1181118774, 929131090),
      (1348031560, 878791278, 1852987755),
      (1247105071, 1731618130, 1731618130),
      (1380014383, 1097747558, 1097747558),
      (1464419887, 910246503, 910246503),
      (1380861010, 1129924454, 1129924454),
      (1213092911, 929918785, 929918785),
      (1330791233, 879326804, 879326804),
      (1296975695, 926513005, 926513005),
      (1297305420, 1161066033, 1161066033),
      (1146243398, 842224970, 842224970),
      (1462719827, 1112027769, 1112027769),
      (1246319695, 1182298937, 1182298937),
      (1413828179, 1114321252, 1114321252)]"
  by (simp add: mainnet_feeds_def row_prefix_def text_prefix_def)

lemma mainnet_rows_apart: "sorted_wrt rows_apart mainnet_feeds"
proof -
  have "sorted_wrt prefixes_apart (map row_prefix mainnet_feeds)"
    unfolding mainnet_prefixes by (simp add: prefixes_apart_def)
  then have "sorted_wrt (\<lambda>r r'. prefixes_apart (row_prefix r) (row_prefix r')) mainnet_feeds"
    by (simp add: sorted_wrt_map)
  then show ?thesis
    by (rule sorted_wrt_mono_rel [rotated]) (rule prefixes_apart_rows)
qed

lemmas mainnet_facts = register_all_facts [OF mainnet_rows_apart, folded default_mainnet_def]

end
