(* ===== verification/Checker_Core.thy ===== *)
theory Checker_Core
  imports Program_Registry Oracle_Cache
begin

section \<open>The checker framework\<close>

text \<open>
  \<^verbatim>\<open>crates/ciel-checkers/src/\<close>: the types of \<^verbatim>\<open>traits.rs\<close>, the parallel runner of \<^verbatim>\<open>runner.rs\<close>, the
  placeholder checkers of \<^verbatim>\<open>stubs.rs\<close> and the output hash of \<^verbatim>\<open>hash.rs\<close>, with the Borsh wire form
  of a checker output (fields in declaration order, strings and vectors behind a little-endian
  \<^verbatim>\<open>u32\<close> length, an enum as its discriminant byte).

  The serializer of JSON values (\<open>to_vec\<close>) and SHA-256 (\<open>sha256\<close>) are parameters. The lemmas show
  that severities are ordered, that the wire form of an output determines it and what follows it,
  and that the runner reports every checker once.
\<close>

subsection \<open>Types\<close>

datatype severity = SevNone | Low | Medium | High | Critical

text \<open>The discriminant of a severity.\<close>

fun severity_u8 :: "severity \<Rightarrow> nat" where
  "severity_u8 SevNone = 0"
| "severity_u8 Low = 1"
| "severity_u8 Medium = 2"
| "severity_u8 High = 3"
| "severity_u8 Critical = 4"

lemma severity_u8_inject [simp]: "severity_u8 s = severity_u8 t \<longleftrightarrow> s = t"
  by (cases s; cases t) simp_all

text \<open>The derived order follows the declaration order.\<close>

instantiation severity :: linorder
begin

definition less_eq_severity :: "severity \<Rightarrow> severity \<Rightarrow> bool" where
  "s \<le> t \<longleftrightarrow> severity_u8 s \<le> severity_u8 t"

definition less_severity :: "severity \<Rightarrow> severity \<Rightarrow> bool" where
  "s < t \<longleftrightarrow> severity_u8 s < severity_u8 t"

instance
  by standard (auto simp: less_eq_severity_def less_severity_def)

end

record flag =
  flag_code :: string
  flag_message :: string
  flag_data :: json

record checker_output =
  checker_name :: string
  passed :: bool
  out_severity :: severity
  flags :: "flag list"
  details :: string

datatype checker_status = Completed checker_output | TimedOut

record checker_results =
  outputs :: "(string, checker_status) hashmap"
  total_duration_ms :: nat

datatype intent_spec =
    SpecSwap (amount_in: nat) (mint_in: pubkey) (mint_out: pubkey) (min_amount_out: "nat option")
  | SpecTransfer (transfer_amount: nat) (transfer_mint: pubkey) (recipient: pubkey)
  | SpecDeposit (deposit_amount: nat) (deposit_mint: pubkey) (protocol: pubkey)

record intent =
  description :: string
  constraints :: "string list"
  spec :: "intent_spec option"

record checker_context =
  ctx_trace :: simulation_trace
  original_tx :: transaction
  ctx_intent :: "intent option"
  ctx_slot :: u64
  ctx_oracle_cache :: oracle_cache
  known_programs :: program_registry

definition CHECKER_DEADLINE_MS :: nat where "CHECKER_DEADLINE_MS = 80"

text \<open>
  A checker: its name, its check, and how its future behaves. \<open>None\<close> is a future that completes
  when it is first polled; \<open>Some d\<close> is one that yields and is ready \<open>d\<close> after the start.
\<close>

record checker =
  name :: string
  check :: "checker_context \<Rightarrow> checker_output"
  ready_after :: "checker_context \<Rightarrow> time option"

subsection \<open>Results\<close>

fun status_completed :: "checker_status \<Rightarrow> checker_output option" where
  "status_completed (Completed out) = Some out"
| "status_completed TimedOut = None"

definition completed :: "checker_results \<Rightarrow> checker_output list" where
  "completed r = List.map_filter (\<lambda>(k, s). status_completed s) (outputs r)"

definition timed_out :: "checker_results \<Rightarrow> string list" where
  "timed_out r = List.map_filter (\<lambda>(k, s). if s = TimedOut then Some k else None) (outputs r)"

definition has_timeouts :: "checker_results \<Rightarrow> bool" where
  "has_timeouts r \<longleftrightarrow> (\<exists>(k, s) \<in> set (outputs r). s = TimedOut)"

subsection \<open>The runner\<close>

text \<open>
  \<^verbatim>\<open>timeout(deadline, fut)\<close> polls the future first: a future that is ready then, or no later than
  the deadline, gives its output.
\<close>

definition run_one :: "checker_context \<Rightarrow> checker \<Rightarrow> string \<times> checker_status" where
  "run_one ctx c =
     (name c,
      case ready_after c ctx of
        None \<Rightarrow> Completed (check c ctx)
      | Some d \<Rightarrow> if d \<le> from_millis CHECKER_DEADLINE_MS then Completed (check c ctx) else TimedOut)"

text \<open>
  \<open>elapsed_ms\<close> is the clock difference over the fan-out. The map keeps the results in the order the
  futures were given; its iteration order in the source is unspecified, so users of the results
  take a permutation (\<open>reorder\<close>).
\<close>

definition run_checkers :: "nat \<Rightarrow> checker_context \<Rightarrow> checker list \<Rightarrow> checker_results" where
  "run_checkers elapsed_ms ctx cs =
     \<lparr>outputs = hm_collect (map (run_one ctx) cs), total_duration_ms = elapsed_ms\<rparr>"

definition reorder :: "('a list \<Rightarrow> 'a list) \<Rightarrow> 'a list \<Rightarrow> 'a list" where
  "reorder shuffle xs = (if mset (shuffle xs) = mset xs then shuffle xs else xs)"

subsection \<open>Stub checkers\<close>

definition stub_checker :: "string \<Rightarrow> checker" where
  "stub_checker n =
     \<lparr>name = n,
      check = (\<lambda>ctx. \<lparr>checker_name = n, passed = True, out_severity = SevNone, flags = [],
                      details = ''stub''\<rparr>),
      ready_after = (\<lambda>ctx. None)\<rparr>"

definition all_stub_checkers :: "checker list" where
  "all_stub_checkers =
     map stub_checker
       [''oracle_sanity'', ''authority_diff'', ''intent_diff'', ''contagion_map'',
        ''mev_sandwich'', ''approval_abuse'', ''sim_spoof'']"

subsection \<open>Borsh\<close>

datatype borsh_error = BorshTooLong | BorshOther string

text \<open>A byte vector or string of at least \<open>2\<^sup>3\<^sup>2\<close> bytes cannot be serialized.\<close>

definition borsh_vec :: "bytes \<Rightarrow> (borsh_error, bytes) result" where
  "borsh_vec bs = (if length bs < 2 ^ 32 then Inr (le_bytes 4 (length bs) @ bs) else Inl BorshTooLong)"

definition borsh_string :: "string \<Rightarrow> (borsh_error, bytes) result" where
  "borsh_string s = borsh_vec (str_bytes s)"

definition borsh_bool :: "bool \<Rightarrow> bytes" where
  "borsh_bool b = [if b then 1 else 0]"

definition borsh_severity :: "severity \<Rightarrow> bytes" where
  "borsh_severity s = [of_nat (severity_u8 s)]"

definition borsh_serialize_json_value ::
    "(json \<Rightarrow> (string, bytes) result) \<Rightarrow> json \<Rightarrow> (borsh_error, bytes) result" where
  "borsh_serialize_json_value to_vec v = bind_result (map_err BorshOther (to_vec v)) borsh_vec"

definition borsh_flag :: "(json \<Rightarrow> (string, bytes) result) \<Rightarrow> flag \<Rightarrow> (borsh_error, bytes) result" where
  "borsh_flag to_vec f =
     bind_result (borsh_string (flag_code f)) (\<lambda>c.
     bind_result (borsh_string (flag_message f)) (\<lambda>m.
     bind_result (borsh_serialize_json_value to_vec (flag_data f)) (\<lambda>d.
     Inr (c @ m @ d))))"

fun borsh_flags ::
    "(json \<Rightarrow> (string, bytes) result) \<Rightarrow> flag list \<Rightarrow> (borsh_error, bytes) result" where
  "borsh_flags to_vec [] = Inr []"
| "borsh_flags to_vec (f # fs) =
     bind_result (borsh_flag to_vec f) (\<lambda>b. bind_result (borsh_flags to_vec fs) (\<lambda>bs. Inr (b @ bs)))"

definition borsh_flag_vec ::
    "(json \<Rightarrow> (string, bytes) result) \<Rightarrow> flag list \<Rightarrow> (borsh_error, bytes) result" where
  "borsh_flag_vec to_vec fs =
     (if length fs < 2 ^ 32
      then bind_result (borsh_flags to_vec fs) (\<lambda>bs. Inr (le_bytes 4 (length fs) @ bs))
      else Inl BorshTooLong)"

definition borsh_output ::
    "(json \<Rightarrow> (string, bytes) result) \<Rightarrow> checker_output \<Rightarrow> (borsh_error, bytes) result" where
  "borsh_output to_vec out =
     bind_result (borsh_string (checker_name out)) (\<lambda>n.
     bind_result (borsh_flag_vec to_vec (flags out)) (\<lambda>fs.
     bind_result (borsh_string (details out)) (\<lambda>d.
     Inr (n @ borsh_bool (passed out) @ borsh_severity (out_severity out) @ fs @ d))))"

subsection \<open>The output hash\<close>

text \<open>
  \<open>None\<close> is the panic of \<^verbatim>\<open>expect\<close> when an output cannot be serialized. The sort is stable, as
  \<^verbatim>\<open>sort_by\<close> is.
\<close>

fun serialize_outputs ::
    "(json \<Rightarrow> (string, bytes) result) \<Rightarrow> checker_output list \<Rightarrow> bytes option" where
  "serialize_outputs to_vec [] = Some []"
| "serialize_outputs to_vec (out # outs) =
     (case borsh_output to_vec out of
        Inl e \<Rightarrow> None
      | Inr b \<Rightarrow> map_option (\<lambda>bs. b @ bs) (serialize_outputs to_vec outs))"

definition checker_outputs_hash ::
    "(json \<Rightarrow> (string, bytes) result) \<Rightarrow> (bytes \<Rightarrow> bytes) \<Rightarrow> checker_results \<Rightarrow> bytes option" where
  "checker_outputs_hash to_vec sha256 r =
     map_option sha256 (serialize_outputs to_vec (sort_key checker_name (completed r)))"

text \<open>What the wire form relies on: the JSON serializer is injective on proper values where it returns.\<close>

definition injective_json :: "(json \<Rightarrow> (string, bytes) result) \<Rightarrow> bool" where
  "injective_json to_vec \<longleftrightarrow>
     (\<forall>v w b. json_normal v \<longrightarrow> json_normal w \<longrightarrow> to_vec v = Inr b \<longrightarrow> to_vec w = Inr b \<longrightarrow> v = w)"

definition flag_normal :: "flag \<Rightarrow> bool" where
  "flag_normal f \<longleftrightarrow> json_normal (flag_data f)"

definition output_normal :: "checker_output \<Rightarrow> bool" where
  "output_normal out \<longleftrightarrow> list_all flag_normal (flags out)"

subsection \<open>Severities\<close>

lemma severity_le_Critical [simp]: "s \<le> Critical"
  and severity_ge_SevNone [simp]: "SevNone \<le> s"
  by (cases s; simp add: less_eq_severity_def)+

lemma Critical_le [simp]: "Critical \<le> s \<longleftrightarrow> s = Critical"
  by (cases s) (simp_all add: less_eq_severity_def)

lemma severity_le_simps [simp]:
  "High \<le> s \<longleftrightarrow> s = High \<or> s = Critical"
  "s \<le> SevNone \<longleftrightarrow> s = SevNone"
  by (cases s; simp add: less_eq_severity_def)+

subsection \<open>The wire form determines the output\<close>

text \<open>
  A serializer is prefix free on the values that satisfy \<open>ok\<close> when equal concatenations with any rests have equal
  values and equal rests: what makes a sequence of such fields uniquely readable.
\<close>

locale prefix_code =
  fixes ok :: "'a \<Rightarrow> bool"
    and enc :: "'a \<Rightarrow> ('e, bytes) result"
  assumes unique: "ok x \<Longrightarrow> ok y \<Longrightarrow> enc x = Inr a \<Longrightarrow> enc y = Inr b \<Longrightarrow> a @ r = b @ s \<Longrightarrow> x = y \<and> r = s"
begin

lemma inject: "ok x \<Longrightarrow> ok y \<Longrightarrow> enc x = Inr a \<Longrightarrow> enc y = Inr a \<Longrightarrow> x = y"
  using unique [of x y a a "[]" "[]"] by simp

end

lemma code_of_inject [simp]: "code_of c = code_of d \<longleftrightarrow> c = d"
  by (simp add: code_of_def)

lemma code_of_less: "code_of c < 256"
  by (simp add: code_of_def)

lemma str_bytes_inject: "str_bytes s = str_bytes t \<longleftrightarrow> s = t"
proof -
  have "inj (\<lambda>c. of_nat (code_of c) :: u8)"
  proof (rule injI)
    fix c d assume "(of_nat (code_of c) :: u8) = of_nat (code_of d)"
    then have "unat (of_nat (code_of c) :: u8) = unat (of_nat (code_of d) :: u8)" by simp
    then show "c = d" using code_of_less [of c] code_of_less [of d] by (simp add: unat_of_nat)
  qed
  then show ?thesis unfolding str_bytes_def by (simp add: inj_map_eq_map)
qed

lemma length_u32_inject:
  assumes "le_bytes 4 m @ r = le_bytes 4 n @ s" "m < 2 ^ 32" "n < 2 ^ 32"
  shows "m = n \<and> r = s"
proof -
  have eq: "le_bytes 4 m = le_bytes 4 n" "r = s" using assms(1) by (simp_all add: append_eq_append_conv)
  have "m mod 256 ^ 4 = n mod 256 ^ 4"
    using arg_cong [OF eq(1), of le_nat] by (simp only: le_nat_le_bytes)
  then show ?thesis using eq(2) assms(2,3) by simp
qed

interpretation wire_vec: prefix_code "\<lambda>bs. True" borsh_vec
proof
  fix x y a b r s
  assume "borsh_vec x = Inr a" "borsh_vec y = Inr b" "a @ r = b @ s"
  then have l: "length x < 2 ^ 32" "length y < 2 ^ 32"
    and "le_bytes 4 (length x) @ x @ r = le_bytes 4 (length y) @ y @ s"
    by (auto simp: borsh_vec_def split: if_splits)
  then have "length x = length y" "x @ r = y @ s" using length_u32_inject by blast+
  then show "x = y \<and> r = s" by simp
qed

interpretation wire_string: prefix_code "\<lambda>s. True" borsh_string
  by unfold_locales (metis borsh_string_def str_bytes_inject wire_vec.unique)

lemma prefix_code_json:
  assumes "injective_json to_vec"
  shows "prefix_code json_normal (borsh_serialize_json_value to_vec)"
proof
  fix v w a b r s
  assume ok: "json_normal v" "json_normal w"
  assume "borsh_serialize_json_value to_vec v = Inr a" "borsh_serialize_json_value to_vec w = Inr b"
    and eq: "a @ r = b @ s"
  then obtain x y where xy: "to_vec v = Inr x" "to_vec w = Inr y" "borsh_vec x = Inr a" "borsh_vec y = Inr b"
    by (auto simp: borsh_serialize_json_value_def bind_result_Inr)
  then have "x = y \<and> r = s" using wire_vec.unique eq by blast
  then show "v = w \<and> r = s" using xy ok assms by (auto simp: injective_json_def)
qed

lemma prefix_code_flag:
  assumes "injective_json to_vec"
  shows "prefix_code flag_normal (borsh_flag to_vec)"
proof
  fix f g a b r s
  assume ok: "flag_normal f" "flag_normal g"
  assume "borsh_flag to_vec f = Inr a" "borsh_flag to_vec g = Inr b" and eq: "a @ r = b @ s"
  then obtain c m d c' m' d' where
    f: "borsh_string (flag_code f) = Inr c" "borsh_string (flag_message f) = Inr m"
       "borsh_serialize_json_value to_vec (flag_data f) = Inr d" "a = c @ m @ d" and
    g: "borsh_string (flag_code g) = Inr c'" "borsh_string (flag_message g) = Inr m'"
       "borsh_serialize_json_value to_vec (flag_data g) = Inr d'" "b = c' @ m' @ d'"
    unfolding borsh_flag_def bind_result_Inr by auto
  have "c @ m @ d @ r = c' @ m' @ d' @ s" using eq f(4) g(4) by simp
  then have 1: "flag_code f = flag_code g" "m @ d @ r = m' @ d' @ s"
    using wire_string.unique f(1) g(1) by blast+
  then have 2: "flag_message f = flag_message g" "d @ r = d' @ s"
    using wire_string.unique f(2) g(2) by blast+
  then have "flag_data f = flag_data g" "r = s"
    using prefix_code.unique [OF prefix_code_json [OF assms] _ _ f(3) g(3)] ok
    by (auto simp: flag_normal_def)
  then show "f = g \<and> r = s" using 1 2 by simp
qed

lemma borsh_flags_unique:
  assumes "injective_json to_vec"
  shows "length fs = length gs \<Longrightarrow> list_all flag_normal fs \<Longrightarrow> list_all flag_normal gs \<Longrightarrow>
    borsh_flags to_vec fs = Inr a \<Longrightarrow> borsh_flags to_vec gs = Inr b \<Longrightarrow>
    a @ r = b @ s \<Longrightarrow> fs = gs \<and> r = s"
proof (induction fs gs arbitrary: a b rule: list_induct2)
  case Nil
  then show ?case by simp
next
  case (Cons f fs g gs)
  then obtain x xs y ys where
    f: "borsh_flag to_vec f = Inr x" "borsh_flags to_vec fs = Inr xs" "a = x @ xs" and
    g: "borsh_flag to_vec g = Inr y" "borsh_flags to_vec gs = Inr ys" "b = y @ ys"
    by (auto simp: bind_result_Inr)
  then have "x @ xs @ r = y @ ys @ s" using Cons.prems(5) by simp
  then have "f = g" "xs @ r = ys @ s"
    using prefix_code.unique [OF prefix_code_flag [OF assms] _ _ f(1) g(1)] Cons.prems(1,2) by auto
  then show ?case using Cons.IH [OF _ _ f(2) g(2)] Cons.prems(1,2) by auto
qed

lemma prefix_code_flag_vec:
  assumes "injective_json to_vec"
  shows "prefix_code (list_all flag_normal) (borsh_flag_vec to_vec)"
proof
  fix fs gs a b r s
  assume ok: "list_all flag_normal fs" "list_all flag_normal gs"
  assume "borsh_flag_vec to_vec fs = Inr a" "borsh_flag_vec to_vec gs = Inr b" and eq: "a @ r = b @ s"
  then obtain x y where
    f: "length fs < 2 ^ 32" "borsh_flags to_vec fs = Inr x" "a = le_bytes 4 (length fs) @ x" and
    g: "length gs < 2 ^ 32" "borsh_flags to_vec gs = Inr y" "b = le_bytes 4 (length gs) @ y"
    unfolding borsh_flag_vec_def by (auto simp: bind_result_Inr split: if_splits)
  have "le_bytes 4 (length fs) @ (x @ r) = le_bytes 4 (length gs) @ (y @ s)"
    using eq f(3) g(3) by simp
  then have "length fs = length gs" "x @ r = y @ s" using length_u32_inject f(1) g(1) by blast+
  then show "fs = gs \<and> r = s" using borsh_flags_unique [OF assms _ ok f(2) g(2)] by blast
qed

lemma borsh_bool_inject: "borsh_bool p @ r = borsh_bool q @ s \<longleftrightarrow> p = q \<and> r = s"
  by (simp add: borsh_bool_def)

lemma borsh_severity_inject: "borsh_severity p @ r = borsh_severity q @ s \<longleftrightarrow> p = q \<and> r = s"
  by (cases p; cases q) (simp_all add: borsh_severity_def)

lemma prefix_code_output:
  assumes "injective_json to_vec"
  shows "prefix_code output_normal (borsh_output to_vec)"
proof
  fix p q a b r s
  assume ok: "output_normal p" "output_normal q"
  assume "borsh_output to_vec p = Inr a" "borsh_output to_vec q = Inr b" and eq: "a @ r = b @ s"
  then obtain n fs d n' fs' d' where
    p: "borsh_string (checker_name p) = Inr n" "borsh_flag_vec to_vec (flags p) = Inr fs"
       "borsh_string (details p) = Inr d"
       "a = n @ borsh_bool (passed p) @ borsh_severity (out_severity p) @ fs @ d" and
    q: "borsh_string (checker_name q) = Inr n'" "borsh_flag_vec to_vec (flags q) = Inr fs'"
       "borsh_string (details q) = Inr d'"
       "b = n' @ borsh_bool (passed q) @ borsh_severity (out_severity q) @ fs' @ d'"
    unfolding borsh_output_def bind_result_Inr by auto
  have "n @ (borsh_bool (passed p) @ borsh_severity (out_severity p) @ fs @ d @ r) =
        n' @ (borsh_bool (passed q) @ borsh_severity (out_severity q) @ fs' @ d' @ s)"
    using eq p(4) q(4) by simp
  then have 1: "checker_name p = checker_name q"
    "borsh_bool (passed p) @ borsh_severity (out_severity p) @ fs @ d @ r =
     borsh_bool (passed q) @ borsh_severity (out_severity q) @ fs' @ d' @ s"
    using wire_string.unique p(1) q(1) by blast+
  then have 2: "passed p = passed q" "out_severity p = out_severity q" "fs @ d @ r = fs' @ d' @ s"
    by (simp_all add: borsh_bool_inject borsh_severity_inject)
  then have 3: "flags p = flags q" "d @ r = d' @ s"
    using prefix_code.unique [OF prefix_code_flag_vec [OF assms] _ _ p(2) q(2)] ok
    by (auto simp: output_normal_def)
  then have "details p = details q" "r = s" using wire_string.unique p(3) q(3) by blast+
  then show "p = q \<and> r = s" using 1 2 3 by simp
qed

lemma borsh_output_nonempty: "borsh_output to_vec p = Inr a \<Longrightarrow> a \<noteq> []"
  unfolding borsh_output_def bind_result_Inr by (auto simp: borsh_bool_def)

lemma serialize_outputs_inject:
  assumes "injective_json to_vec"
  shows "list_all output_normal ps \<Longrightarrow> list_all output_normal qs \<Longrightarrow>
    serialize_outputs to_vec ps = Some a \<Longrightarrow> serialize_outputs to_vec qs = Some a \<Longrightarrow> ps = qs"
proof (induction ps arbitrary: qs a)
  case Nil
  then show ?case
    by (cases qs) (auto split: sum.splits dest: borsh_output_nonempty)
next
  case (Cons p ps)
  then obtain x xs where p: "borsh_output to_vec p = Inr x" "serialize_outputs to_vec ps = Some xs" "a = x @ xs"
    by (auto split: sum.splits)
  show ?case
  proof (cases qs)
    case Nil
    then show ?thesis using Cons.prems(4) p borsh_output_nonempty by fastforce
  next
    case (Cons q qs')
    then obtain y ys where q: "borsh_output to_vec q = Inr y" "serialize_outputs to_vec qs' = Some ys" "a = y @ ys"
      using Cons.prems(4) by (auto split: sum.splits)
    have "x @ xs = y @ ys" using p(3) q(3) by simp
    then have "p = q" "xs = ys"
      using prefix_code.unique [OF prefix_code_output [OF assms] _ _ p(1) q(1)] Cons.prems(1,2) Cons
      by auto
    then show ?thesis using Cons.IH [OF _ _ p(2)] q(2) Cons.prems(1,2) Cons by auto
  qed
qed

subsection \<open>The order of the results\<close>

lemma completed_append: "completed (r\<lparr>outputs := xs @ ys\<rparr>) = completed (r\<lparr>outputs := xs\<rparr>) @ completed (r\<lparr>outputs := ys\<rparr>)"
  by (simp add: completed_def map_filter_def)

lemma completed_conv: "completed r = map (the \<circ> status_completed \<circ> snd) (filter (\<lambda>(k, s). status_completed s \<noteq> None) (outputs r))"
  by (simp add: completed_def map_filter_def case_prod_beta' comp_def)

lemma mset_completed: "mset (outputs r) = mset (outputs r') \<Longrightarrow> mset (completed r) = mset (completed r')"
  by (simp add: completed_conv)

lemma set_completed: "out \<in> set (completed r) \<longleftrightarrow> (\<exists>k. (k, Completed out) \<in> set (outputs r))"
proof -
  have *: "status_completed s = Some q \<longleftrightarrow> s = Completed q" for s q by (cases s) auto
  show ?thesis by (force simp: completed_conv *)
qed

text \<open>Sorting by distinct names leaves one order.\<close>

lemma sort_key_unique:
  assumes "mset xs = mset ys" "distinct (map f xs)"
  shows "sort_key f xs = sort_key f ys"
proof -
  have "inj_on f (set xs)" using assms(2) by (simp add: distinct_map)
  then show ?thesis
    using assms(1) by (intro sort_key_inj_key_eq) (auto dest: mset_eq_setD)
qed

lemma set_reorder [simp]: "set (reorder sh xs) = set xs"
  and mset_reorder [simp]: "mset (reorder sh xs) = mset xs"
  by (auto simp: reorder_def dest: mset_eq_setD)

lemma length_reorder: "length (reorder sh xs) = length xs"
  by (metis mset_eq_length reorder_def)

subsection \<open>The runner\<close>

lemma run_one_fst [simp]: "fst (run_one ctx c) = name c"
  by (simp add: run_one_def)

lemma run_checkers_lookup:
  assumes "distinct (map name cs)" "c \<in> set cs"
  shows "hm_get (outputs (run_checkers t ctx cs)) (name c) = Some (snd (run_one ctx c))"
proof -
  have "map_of (rev (map (run_one ctx) cs)) (name c) = Some (snd (run_one ctx c))"
    using assms by (intro map_of_is_SomeI) (auto simp: rev_map comp_def run_one_def simp flip: rev_map)
  then show ?thesis by (simp add: run_checkers_def lookup_hm_collect)
qed

subsection \<open>The hash\<close>

lemma completed_normal_sorted:
  "list_all output_normal (completed r) \<Longrightarrow> list_all output_normal (sort_key checker_name (completed r))"
  by (simp add: list_all_iff)

text \<open>A serializer of the JSON literals, enough to run the hash on an output with a flag.\<close>

fun literal_to_vec :: "json \<Rightarrow> (string, bytes) result" where
  "literal_to_vec JNull = Inr (str_bytes ''null'')"
| "literal_to_vec (JBool b) = Inr (str_bytes (if b then ''true'' else ''false''))"
| "literal_to_vec v = Inl ''unsupported''"

definition sample_output :: "string \<Rightarrow> checker_output" where
  "sample_output n =
     \<lparr>checker_name = n, passed = False, out_severity = High,
      flags = [\<lparr>flag_code = ''A'', flag_message = ''m'', flag_data = JBool True\<rparr>], details = ''d''\<rparr>"

definition sample_results :: "string list \<Rightarrow> checker_results" where
  "sample_results ns = \<lparr>outputs = map (\<lambda>n. (n, Completed (sample_output n))) ns, total_duration_ms = 3\<rparr>"

lemma injective_literal: "injective_json literal_to_vec"
  unfolding injective_json_def
proof (intro allI impI)
  fix v w b
  assume "literal_to_vec v = Inr b" "literal_to_vec w = Inr b"
  then show "v = w" by (cases v; cases w) (auto simp: str_bytes_inject split: if_splits)
qed

lemmas sample_simps = sample_results_def sample_output_def output_normal_def flag_normal_def
  completed_def List.map_filter_def

definition first_32 :: "bytes \<Rightarrow> bytes" where
  "first_32 bs = take 32 (bs @ replicate 32 0)"

lemma sample_hash_32:
  "\<exists>h. checker_outputs_hash literal_to_vec first_32 (sample_results [''x'', ''y'']) = Some h \<and>
     checker_outputs_hash literal_to_vec first_32 (sample_results [''y'', ''x'']) = Some h \<and>
     checker_outputs_hash literal_to_vec first_32 (sample_results [''x'', ''z'']) = Some h \<and> length h = 32"
  by (simp add: checker_outputs_hash_def sample_simps borsh_output_def borsh_string_def first_32_def
      borsh_vec_def borsh_flag_vec_def borsh_flag_def borsh_serialize_json_value_def str_bytes_def borsh_bool_def borsh_severity_def)

text \<open>C21: The output hash that is signed binds the checker outputs. If two result sets have the same
  hash, then their serialized outputs are two byte strings with this SHA-256 value, and these two are the
  same string exactly when the completed outputs, sorted by name, are equal field by field. So result
  sets that differ in any output have the same hash only if their own serializations collide.\<close>

theorem hash_binds_outputs:
  assumes "injective_json to_vec"
    and "list_all output_normal (completed r)" "list_all output_normal (completed r')"
    and "checker_outputs_hash to_vec sha256 r = Some h" "checker_outputs_hash to_vec sha256 r' = Some h"
  shows "\<exists>a b. serialize_outputs to_vec (sort_key checker_name (completed r)) = Some a \<and>
    serialize_outputs to_vec (sort_key checker_name (completed r')) = Some b \<and> sha256 a = h \<and> sha256 b = h \<and>
    (a = b \<longleftrightarrow> sort_key checker_name (completed r) = sort_key checker_name (completed r'))"
proof -
  obtain a b where ab: "serialize_outputs to_vec (sort_key checker_name (completed r)) = Some a"
      "serialize_outputs to_vec (sort_key checker_name (completed r')) = Some b" "sha256 a = h" "sha256 b = h"
    using assms(4,5) by (auto simp: checker_outputs_hash_def)
  have "a = b \<Longrightarrow> sort_key checker_name (completed r) = sort_key checker_name (completed r')"
    using serialize_outputs_inject [OF assms(1) assms(2,3) [THEN completed_normal_sorted]] ab by blast
  then show ?thesis using ab by fastforce
qed

text \<open>
  A run with the first 32 bytes as the hash: the result sets \<open>x, y\<close> and \<open>y, x\<close> have one serialization; those of \<open>x, y\<close> and
  \<open>x, z\<close> have two, which this hash does not tell apart.
\<close>

theorem hash_binds_outputs_witness:
  "\<exists>h a b c. length h = 32 \<and>
     checker_outputs_hash literal_to_vec first_32 (sample_results [''x'', ''y'']) = Some h \<and>
     serialize_outputs literal_to_vec (sort_key checker_name (completed (sample_results [''x'', ''y'']))) = Some a \<and>
     serialize_outputs literal_to_vec (sort_key checker_name (completed (sample_results [''y'', ''x'']))) = Some b \<and>
     serialize_outputs literal_to_vec (sort_key checker_name (completed (sample_results [''x'', ''z'']))) = Some c \<and>
     a = b \<and> a \<noteq> c \<and> first_32 a = first_32 c"
proof -
  let ?s = "\<lambda>ns. serialize_outputs literal_to_vec (sort_key checker_name (completed (sample_results ns)))"
  obtain h where h: "checker_outputs_hash literal_to_vec first_32 (sample_results [''x'', ''y'']) = Some h"
      "checker_outputs_hash literal_to_vec first_32 (sample_results [''y'', ''x'']) = Some h"
      "checker_outputs_hash literal_to_vec first_32 (sample_results [''x'', ''z'']) = Some h" "length h = 32"
    using sample_hash_32 by blast
  have n: "list_all output_normal (completed (sample_results [n, m]))" for n m by (simp add: sample_simps)
  obtain a b where "?s [''x'', ''y''] = Some a" "?s [''y'', ''x''] = Some b" "first_32 a = h" "a = b"
    using hash_binds_outputs [OF injective_literal n n h(1,2)] by (auto simp: sample_simps)
  moreover obtain a' c where "?s [''x'', ''y''] = Some a'" "?s [''x'', ''z''] = Some c" "first_32 c = h" "a' \<noteq> c"
    using hash_binds_outputs [OF injective_literal n n h(1,3)] by (auto simp: sample_simps)
  ultimately show ?thesis using h(1,4) by auto
qed

text \<open>C22: The hash does not depend on the iteration order of the result map when the completed outputs
  have distinct names, and checkers that timed out do not enter it.\<close>

theorem hash_order_independent:
  assumes "mset (completed r) = mset (completed r')" "distinct (map checker_name (completed r))"
  shows "checker_outputs_hash to_vec sha256 r = checker_outputs_hash to_vec sha256 r' \<and>
    checker_outputs_hash to_vec sha256 (r\<lparr>outputs := outputs r @ [(k, TimedOut)]\<rparr>) =
    checker_outputs_hash to_vec sha256 r"
proof -
  have "completed (r\<lparr>outputs := outputs r @ [(k, TimedOut)]\<rparr>) = completed r"
    by (simp add: completed_def map_filter_def)
  then show ?thesis using sort_key_unique [OF assms] by (simp add: checker_outputs_hash_def)
qed

theorem hash_order_independent_witness:
  "distinct (map checker_name (completed (sample_results [''x'', ''y'']))) \<and>
   checker_outputs_hash literal_to_vec id (sample_results [''x'', ''y'']) =
     checker_outputs_hash literal_to_vec id (sample_results [''y'', ''x''])"
  using hash_order_independent [of "sample_results [''x'', ''y'']" "sample_results [''y'', ''x'']" literal_to_vec id]
  by (simp add: sample_simps)

text \<open>C24: The runner reports every checker of a set with distinct names under its own name: with its
  own output when the future completes on its first poll or within 80 ms, and as timed out
  otherwise; nothing else is in the map.\<close>

theorem run_checkers_reports:
  assumes "distinct (map name cs)" "c \<in> set cs"
  shows "hm_get (outputs (run_checkers t ctx cs)) (name c) =
      Some (if ready_after c ctx = None \<or> the (ready_after c ctx) \<le> from_millis 80
            then Completed (check c ctx) else TimedOut) \<and>
    dom (hm_get (outputs (run_checkers t ctx cs))) = name ` set cs"
proof
  show "hm_get (outputs (run_checkers t ctx cs)) (name c) =
      Some (if ready_after c ctx = None \<or> the (ready_after c ctx) \<le> from_millis 80
            then Completed (check c ctx) else TimedOut)"
    using run_checkers_lookup [OF assms]
    by (auto simp: run_one_def CHECKER_DEADLINE_MS_def split: option.splits)
  show "dom (hm_get (outputs (run_checkers t ctx cs))) = name ` set cs"
    by (force simp: run_checkers_def lookup_hm_collect dom_map_of_conv_image_fst image_iff
        fun_eq_iff cong: image_cong)
qed

theorem run_checkers_reports_witness:
  "stub_checker ''oracle_sanity'' \<in> set all_stub_checkers \<and> distinct (map name all_stub_checkers) \<and>
   (\<forall>ctx. hm_get (outputs (run_checkers 1 ctx all_stub_checkers)) ''oracle_sanity'' =
      Some (Completed (check (stub_checker ''oracle_sanity'') ctx)))"
proof -
  have 1: "stub_checker ''oracle_sanity'' \<in> set all_stub_checkers" "distinct (map name all_stub_checkers)"
    by (simp_all add: all_stub_checkers_def stub_checker_def)
  have "hm_get (outputs (run_checkers 1 ctx all_stub_checkers)) ''oracle_sanity'' =
      Some (Completed (check (stub_checker ''oracle_sanity'') ctx))" for ctx
    using run_checkers_reports [OF 1(2,1), of 1 ctx] by (simp add: stub_checker_def)
  with 1 show ?thesis by blast
qed

end
