(* ===== verification/Attestation.thy ===== *)
theory Attestation
  imports Ciel_Prelude
begin

section \<open>Attestations and their signatures\<close>

text \<open>
  \<^verbatim>\<open>crates/ciel-signer/src/attestation.rs\<close>, \<^verbatim>\<open>signer.rs\<close> and \<^verbatim>\<open>instruction.rs\<close>: the three signed
  payloads, their constructors, the Borsh wire form with its reader, and the signer. A byte array
  \<^verbatim>\<open>[u8; n]\<close> is a byte list; the well-formedness predicates state its length.

  Ed25519 is a parameter (\<open>ed25519\<close>): deriving the public key, reading a key pair, signing, and
  strict verification. The locale \<open>codec\<close> states what a wire format promises; it is interpreted on
  each field format and on the three payloads, so that a payload is read back from its bytes, no
  other bytes are read as it, and the three formats never share a byte string.
\<close>

subsection \<open>Constants and types\<close>

definition CIEL_ATTESTATION_MAGIC :: bytes where "CIEL_ATTESTATION_MAGIC = [0x43, 0x49, 0x45, 0x4C]"
definition POLICY_ATTESTATION_MAGIC :: bytes where "POLICY_ATTESTATION_MAGIC = [0x43, 0x49, 0x4C, 0x50]"
definition OVERRIDE_ATTESTATION_MAGIC :: bytes where "OVERRIDE_ATTESTATION_MAGIC = [0x43, 0x4C, 0x4F, 0x56]"
definition ATTESTATION_VERSION :: u8 where "ATTESTATION_VERSION = 1"
definition TIMEOUT_SENTINEL :: u16 where "TIMEOUT_SENTINEL = 0xFFFF"
definition EXPIRY_SLOTS :: u64 where "EXPIRY_SLOTS = 2"

datatype verdict = Approve | Warn | Block | Timeout

fun verdict_u8 :: "verdict \<Rightarrow> u8" where
  "verdict_u8 Approve = 0"
| "verdict_u8 Warn = 1"
| "verdict_u8 Block = 2"
| "verdict_u8 Timeout = 3"

record ciel_attestation =
  magic :: bytes
  version :: u8
  tx_hash :: bytes
  att_verdict :: u8
  safety_score :: u16
  optimality_score :: u16
  checker_outputs_hash_field :: bytes
  slot :: u64
  expiry_slot :: u64
  signer :: bytes
  timestamp :: u64 \<comment> \<open>\<^verbatim>\<open>i64\<close>\<close>
  timeout_at_ms :: u16

record policy_attestation =
  pol_magic :: bytes
  pol_version :: u8
  policy_hash :: bytes
  pol_signer :: bytes
  issued_slot :: u64
  expires_at :: u64 \<comment> \<open>\<^verbatim>\<open>i64\<close>\<close>
  revoked :: bool

record override_attestation =
  ovr_magic :: bytes
  ovr_version :: u8
  original_attestation_hash :: bytes
  override_type :: u8
  overrider :: bytes
  ovr_slot :: u64
  ovr_timestamp :: u64 \<comment> \<open>\<^verbatim>\<open>i64\<close>\<close>

subsection \<open>Constructors\<close>

text \<open>The slot addition wraps, as \<^verbatim>\<open>u64\<close> addition does in a release build.\<close>

definition attestation_new ::
    "bytes \<Rightarrow> verdict \<Rightarrow> u16 \<Rightarrow> u16 \<Rightarrow> bytes \<Rightarrow> u64 \<Rightarrow> bytes \<Rightarrow> u64 \<Rightarrow> u16 \<Rightarrow> ciel_attestation" where
  "attestation_new txh v safety optimality oh sl sk ts tms =
     \<lparr>magic = CIEL_ATTESTATION_MAGIC, version = ATTESTATION_VERSION, tx_hash = txh,
      att_verdict = verdict_u8 v, safety_score = safety, optimality_score = optimality,
      checker_outputs_hash_field = oh, slot = sl, expiry_slot = sl + EXPIRY_SLOTS,
      signer = sk, timestamp = ts, timeout_at_ms = tms\<rparr>"

definition new_timeout ::
    "bytes \<Rightarrow> bytes \<Rightarrow> u64 \<Rightarrow> bytes \<Rightarrow> u64 \<Rightarrow> u16 \<Rightarrow> ciel_attestation" where
  "new_timeout txh oh sl sk ts tms =
     attestation_new txh Timeout TIMEOUT_SENTINEL TIMEOUT_SENTINEL oh sl sk ts tms"

definition policy_new :: "bytes \<Rightarrow> bytes \<Rightarrow> u64 \<Rightarrow> u64 \<Rightarrow> policy_attestation" where
  "policy_new ph sk sl ex =
     \<lparr>pol_magic = POLICY_ATTESTATION_MAGIC, pol_version = ATTESTATION_VERSION, policy_hash = ph,
      pol_signer = sk, issued_slot = sl, expires_at = ex, revoked = False\<rparr>"

definition override_new :: "bytes \<Rightarrow> u8 \<Rightarrow> bytes \<Rightarrow> u64 \<Rightarrow> u64 \<Rightarrow> override_attestation" where
  "override_new h t who sl ts =
     \<lparr>ovr_magic = OVERRIDE_ATTESTATION_MAGIC, ovr_version = ATTESTATION_VERSION,
      original_attestation_hash = h, override_type = t, overrider = who, ovr_slot = sl,
      ovr_timestamp = ts\<rparr>"

subsection \<open>The wire form\<close>

definition enc_u8 :: "u8 \<Rightarrow> bytes" where "enc_u8 b = [b]"
definition enc_u16 :: "u16 \<Rightarrow> bytes" where "enc_u16 w = le_bytes 2 (unat w)"
definition enc_u64 :: "u64 \<Rightarrow> bytes" where "enc_u64 w = le_bytes 8 (unat w)"
definition enc_bool :: "bool \<Rightarrow> bytes" where "enc_bool b = [if b then 1 else 0]"
definition enc_array :: "bytes \<Rightarrow> bytes" where "enc_array bs = bs"

definition encode_attestation :: "ciel_attestation \<Rightarrow> bytes" where
  "encode_attestation a =
     enc_array (magic a) @ enc_u8 (version a) @ enc_array (tx_hash a) @ enc_u8 (att_verdict a) @
     enc_u16 (safety_score a) @ enc_u16 (optimality_score a) @
     enc_array (checker_outputs_hash_field a) @ enc_u64 (slot a) @ enc_u64 (expiry_slot a) @
     enc_array (signer a) @ enc_u64 (timestamp a) @ enc_u16 (timeout_at_ms a)"

definition encode_policy :: "policy_attestation \<Rightarrow> bytes" where
  "encode_policy p =
     enc_array (pol_magic p) @ enc_u8 (pol_version p) @ enc_array (policy_hash p) @
     enc_array (pol_signer p) @ enc_u64 (issued_slot p) @ enc_u64 (expires_at p) @ enc_bool (revoked p)"

definition encode_override :: "override_attestation \<Rightarrow> bytes" where
  "encode_override v =
     enc_array (ovr_magic v) @ enc_u8 (ovr_version v) @ enc_array (original_attestation_hash v) @
     enc_u8 (override_type v) @ enc_array (overrider v) @ enc_u64 (ovr_slot v) @ enc_u64 (ovr_timestamp v)"

subsection \<open>The reader\<close>

datatype decode_error = UnexpectedEof | InvalidBool | NotAllBytesRead

type_synonym 'a reader = "bytes \<Rightarrow> (decode_error, 'a \<times> bytes) result"

definition dec_array :: "nat \<Rightarrow> bytes reader" where
  "dec_array n bs = (if length bs < n then Inl UnexpectedEof else Inr (take n bs, drop n bs))"

definition dec_u8 :: "u8 reader" where
  "dec_u8 bs = bind_result (dec_array 1 bs) (\<lambda>(x, r). Inr (of_nat (le_nat x), r))"

definition dec_u16 :: "u16 reader" where
  "dec_u16 bs = bind_result (dec_array 2 bs) (\<lambda>(x, r). Inr (of_nat (le_nat x), r))"

definition dec_u64 :: "u64 reader" where
  "dec_u64 bs = bind_result (dec_array 8 bs) (\<lambda>(x, r). Inr (of_nat (le_nat x), r))"

definition dec_bool :: "bool reader" where
  "dec_bool bs =
     bind_result (dec_u8 bs) (\<lambda>(b, r).
       if b = 0 then Inr (False, r) else if b = 1 then Inr (True, r) else Inl InvalidBool)"

definition decode_attestation :: "ciel_attestation reader" where
  "decode_attestation b0 =
     bind_result (dec_array 4 b0) (\<lambda>(mg, b1).
     bind_result (dec_u8 b1) (\<lambda>(ver, b2).
     bind_result (dec_array 32 b2) (\<lambda>(txh, b3).
     bind_result (dec_u8 b3) (\<lambda>(v, b4).
     bind_result (dec_u16 b4) (\<lambda>(ss, b5).
     bind_result (dec_u16 b5) (\<lambda>(os, b6).
     bind_result (dec_array 32 b6) (\<lambda>(oh, b7).
     bind_result (dec_u64 b7) (\<lambda>(sl, b8).
     bind_result (dec_u64 b8) (\<lambda>(es, b9).
     bind_result (dec_array 32 b9) (\<lambda>(sk, b10).
     bind_result (dec_u64 b10) (\<lambda>(ts, b11).
     bind_result (dec_u16 b11) (\<lambda>(tms, b12).
     Inr (\<lparr>magic = mg, version = ver, tx_hash = txh, att_verdict = v, safety_score = ss,
           optimality_score = os, checker_outputs_hash_field = oh, slot = sl, expiry_slot = es,
           signer = sk, timestamp = ts, timeout_at_ms = tms\<rparr>, b12)))))))))))))"

definition decode_policy :: "policy_attestation reader" where
  "decode_policy b0 =
     bind_result (dec_array 4 b0) (\<lambda>(mg, b1).
     bind_result (dec_u8 b1) (\<lambda>(ver, b2).
     bind_result (dec_array 32 b2) (\<lambda>(ph, b3).
     bind_result (dec_array 32 b3) (\<lambda>(sk, b4).
     bind_result (dec_u64 b4) (\<lambda>(sl, b5).
     bind_result (dec_u64 b5) (\<lambda>(ex, b6).
     bind_result (dec_bool b6) (\<lambda>(rv, b7).
     Inr (\<lparr>pol_magic = mg, pol_version = ver, policy_hash = ph, pol_signer = sk,
           issued_slot = sl, expires_at = ex, revoked = rv\<rparr>, b7))))))))"

definition decode_override :: "override_attestation reader" where
  "decode_override b0 =
     bind_result (dec_array 4 b0) (\<lambda>(mg, b1).
     bind_result (dec_u8 b1) (\<lambda>(ver, b2).
     bind_result (dec_array 32 b2) (\<lambda>(h, b3).
     bind_result (dec_u8 b3) (\<lambda>(t, b4).
     bind_result (dec_array 32 b4) (\<lambda>(who, b5).
     bind_result (dec_u64 b5) (\<lambda>(sl, b6).
     bind_result (dec_u64 b6) (\<lambda>(ts, b7).
     Inr (\<lparr>ovr_magic = mg, ovr_version = ver, original_attestation_hash = h, override_type = t,
           overrider = who, ovr_slot = sl, ovr_timestamp = ts\<rparr>, b7))))))))"

text \<open>\<^verbatim>\<open>try_from_slice\<close>: read, and refuse bytes left over.\<close>

definition try_from_slice :: "'a reader \<Rightarrow> bytes \<Rightarrow> (decode_error, 'a) result" where
  "try_from_slice dec bs =
     bind_result (dec bs) (\<lambda>(x, r). if r = [] then Inr x else Inl NotAllBytesRead)"

subsection \<open>The signer\<close>

record ed25519 =
  ed_public :: "bytes \<Rightarrow> bytes"
  ed_from_keypair :: "bytes \<Rightarrow> (string, bytes) result"
  ed_sign :: "bytes \<Rightarrow> bytes \<Rightarrow> bytes"
  ed_is_key :: "bytes \<Rightarrow> bool"
  ed_verify_strict :: "bytes \<Rightarrow> bytes \<Rightarrow> bytes \<Rightarrow> bool"

datatype signer_error = SerializationErr string | InvalidKey string | VerificationFailed

text \<open>How an error is displayed.\<close>

fun signer_error_text :: "signer_error \<Rightarrow> string" where
  "signer_error_text (SerializationErr m) = ''Borsh serialization failed: '' @ m"
| "signer_error_text (InvalidKey m) = ''invalid signing key: '' @ m"
| "signer_error_text VerificationFailed = ''signature verification failed''"

record ciel_signer =
  signing_key :: bytes

definition from_bytes :: "bytes \<Rightarrow> ciel_signer" where
  "from_bytes secret = \<lparr>signing_key = secret\<rparr>"

definition from_keypair_bytes :: "ed25519 \<Rightarrow> bytes \<Rightarrow> (signer_error, ciel_signer) result" where
  "from_keypair_bytes E bs =
     bind_result (map_err InvalidKey (ed_from_keypair E bs)) (\<lambda>k. Inr \<lparr>signing_key = k\<rparr>)"

definition pubkey_bytes :: "ed25519 \<Rightarrow> ciel_signer \<Rightarrow> bytes" where
  "pubkey_bytes E s = ed_public E (signing_key s)"

text \<open>Writing fixed-size fields to a vector cannot fail, so neither can signing.\<close>

definition sign_attestation ::
    "ed25519 \<Rightarrow> ciel_signer \<Rightarrow> ciel_attestation \<Rightarrow> (signer_error, bytes \<times> bytes) result" where
  "sign_attestation E s a =
     (let bs = encode_attestation a in Inr (bs, ed_sign E (signing_key s) bs))"

definition sign_policy_attestation ::
    "ed25519 \<Rightarrow> ciel_signer \<Rightarrow> policy_attestation \<Rightarrow> (signer_error, bytes \<times> bytes) result" where
  "sign_policy_attestation E s p =
     (let bs = encode_policy p in Inr (bs, ed_sign E (signing_key s) bs))"

definition sign_override_attestation ::
    "ed25519 \<Rightarrow> ciel_signer \<Rightarrow> override_attestation \<Rightarrow> (signer_error, bytes \<times> bytes) result" where
  "sign_override_attestation E s v =
     (let bs = encode_override v in Inr (bs, ed_sign E (signing_key s) bs))"

definition verify_attestation :: "ed25519 \<Rightarrow> bytes \<Rightarrow> bytes \<Rightarrow> bytes \<Rightarrow> bool" where
  "verify_attestation E pk msg sig \<longleftrightarrow> (if \<not> ed_is_key E pk then False else ed_verify_strict E pk msg sig)"

text \<open>The instruction builder of the Solana SDK is a parameter.\<close>

definition build_ed25519_verify_instruction ::
    "(bytes \<Rightarrow> bytes \<Rightarrow> bytes \<Rightarrow> 'ix) \<Rightarrow> bytes \<Rightarrow> bytes \<Rightarrow> bytes \<Rightarrow> 'ix" where
  "build_ed25519_verify_instruction new_with_signature pk msg sig = new_with_signature msg sig pk"

subsection \<open>Well-formed payloads, and what a signature scheme promises\<close>

definition attestation_wf :: "ciel_attestation \<Rightarrow> bool" where
  "attestation_wf a \<longleftrightarrow> length (magic a) = 4 \<and> length (tx_hash a) = 32 \<and>
     length (checker_outputs_hash_field a) = 32 \<and> length (signer a) = 32"

definition policy_wf :: "policy_attestation \<Rightarrow> bool" where
  "policy_wf p \<longleftrightarrow> length (pol_magic p) = 4 \<and> length (policy_hash p) = 32 \<and> length (pol_signer p) = 32"

definition override_wf :: "override_attestation \<Rightarrow> bool" where
  "override_wf v \<longleftrightarrow> length (ovr_magic v) = 4 \<and> length (original_attestation_hash v) = 32 \<and>
     length (overrider v) = 32"

definition ed25519_correct :: "ed25519 \<Rightarrow> bool" where
  "ed25519_correct E \<longleftrightarrow>
     (\<forall>k. length k = 32 \<longrightarrow> length (ed_public E k) = 32 \<and> ed_is_key E (ed_public E k) \<and>
       (\<forall>m. ed_verify_strict E (ed_public E k) m (ed_sign E k m)))"

subsection \<open>Codecs\<close>

text \<open>
  A codec reads a value back from its bytes, whatever follows them, and reads nothing from other
  bytes.
\<close>

locale codec =
  fixes ok :: "'a \<Rightarrow> bool" and enc :: "'a \<Rightarrow> bytes" and dec :: "'a reader"
  assumes dec_enc: "ok x \<Longrightarrow> dec (enc x @ r) = Inr (x, r)"
    and enc_dec: "dec bs = Inr (x, r) \<Longrightarrow> ok x \<and> bs = enc x @ r"
begin

lemma from_slice_iff: "try_from_slice dec bs = Inr x \<longleftrightarrow> ok x \<and> bs = enc x"
proof
  assume "try_from_slice dec bs = Inr x"
  then have "dec bs = Inr (x, [])"
    by (auto simp: try_from_slice_def bind_result_Inr split: if_splits)
  then show "ok x \<and> bs = enc x" using enc_dec by fastforce
next
  assume "ok x \<and> bs = enc x"
  then show "try_from_slice dec bs = Inr x"
    using dec_enc [of x "[]"] by (simp add: try_from_slice_def)
qed

lemma enc_inject: "ok x \<Longrightarrow> ok y \<Longrightarrow> enc x = enc y \<Longrightarrow> x = y"
  using from_slice_iff by (metis sum.inject(2))

end

lemma dec_array_Inr: "dec_array n bs = Inr (x, r) \<longleftrightarrow> length x = n \<and> bs = x @ r"
  by (auto simp: dec_array_def min_def not_less)

interpretation arr: codec "\<lambda>bs. length bs = n" enc_array "dec_array n" for n
  by unfold_locales (simp_all add: enc_array_def dec_array_Inr)

lemma le_nat_length_1: "length bs = 1 \<Longrightarrow> [of_nat (le_nat bs)] = bs"
  by (cases bs) auto

interpretation u8: codec "\<lambda>b. True" enc_u8 dec_u8
proof
  fix x r show "dec_u8 (enc_u8 x @ r) = Inr (x, r)"
    by (simp add: dec_u8_def enc_u8_def dec_array_def)
next
  fix bs x r assume "dec_u8 bs = Inr (x, r)"
  then show "True \<and> bs = enc_u8 x @ r"
    by (auto simp: dec_u8_def bind_result_Inr dec_array_Inr enc_u8_def le_nat_length_1)
qed

text \<open>A word of \<open>n\<close> bytes, at the two widths of the payloads.\<close>

lemma le_word_array:
  assumes "length x = n" "8 * n = LENGTH('a::len)"
  shows "le_bytes n (unat (of_nat (le_nat x) :: 'a word)) = x"
proof -
  have "le_nat x < 256 ^ n" using le_nat_bound [of x] assms(1) by simp
  also have "(256::nat) ^ n = 2 ^ LENGTH('a)"
    using power_mult [of "2::nat" 8 n] assms(2) by simp
  finally have "unat (of_nat (le_nat x) :: 'a word) = le_nat x" by (simp add: unat_of_nat)
  then show ?thesis using le_bytes_le_nat [of x] assms(1) by simp
qed

interpretation u16: codec "\<lambda>w. True" enc_u16 dec_u16
  by unfold_locales
    (auto simp: enc_u16_def dec_u16_def dec_array_def le_word16 bind_result_Inr min_def
      le_word_array split: if_splits)

interpretation u64: codec "\<lambda>w. True" enc_u64 dec_u64
  by unfold_locales
    (auto simp: enc_u64_def dec_u64_def dec_array_def le_word64 bind_result_Inr min_def
      le_word_array split: if_splits)

interpretation flg: codec "\<lambda>b. True" enc_bool dec_bool
proof
  fix x r show "dec_bool (enc_bool x @ r) = Inr (x, r)"
    using u8.dec_enc [of "if x then 1 else 0" r] by (simp add: dec_bool_def enc_bool_def enc_u8_def split: if_splits)
next
  fix bs x r assume "dec_bool bs = Inr (x, r)"
  then show "True \<and> bs = enc_bool x @ r"
    by (auto simp: dec_bool_def bind_result_Inr enc_bool_def enc_u8_def dest!: u8.enc_dec split: if_splits)
qed

lemmas field_dec_enc = arr.dec_enc u8.dec_enc u16.dec_enc u64.dec_enc flg.dec_enc

interpretation att: codec attestation_wf encode_attestation decode_attestation
proof
  fix x r assume "attestation_wf x"
  then show "decode_attestation (encode_attestation x @ r) = Inr (x, r)"
    by (simp add: decode_attestation_def encode_attestation_def attestation_wf_def field_dec_enc)
next
  fix bs x r assume "decode_attestation bs = Inr (x, r)"
  then show "attestation_wf x \<and> bs = encode_attestation x @ r"
    by (auto simp: decode_attestation_def encode_attestation_def attestation_wf_def bind_result_Inr
        dest!: arr.enc_dec u8.enc_dec u16.enc_dec u64.enc_dec)
qed

interpretation pol: codec policy_wf encode_policy decode_policy
proof
  fix x r assume "policy_wf x"
  then show "decode_policy (encode_policy x @ r) = Inr (x, r)"
    by (simp add: decode_policy_def encode_policy_def policy_wf_def field_dec_enc)
next
  fix bs x r assume "decode_policy bs = Inr (x, r)"
  then show "policy_wf x \<and> bs = encode_policy x @ r"
    by (auto simp: decode_policy_def encode_policy_def policy_wf_def bind_result_Inr
        dest!: arr.enc_dec u8.enc_dec u64.enc_dec flg.enc_dec)
qed

interpretation ovr: codec override_wf encode_override decode_override
proof
  fix x r assume "override_wf x"
  then show "decode_override (encode_override x @ r) = Inr (x, r)"
    by (simp add: decode_override_def encode_override_def override_wf_def field_dec_enc)
next
  fix bs x r assume "decode_override bs = Inr (x, r)"
  then show "override_wf x \<and> bs = encode_override x @ r"
    by (auto simp: decode_override_def encode_override_def override_wf_def bind_result_Inr
        dest!: arr.enc_dec u8.enc_dec u64.enc_dec)
qed

subsection \<open>Lengths, separation, expiry\<close>

lemmas encode_defs = encode_attestation_def encode_policy_def encode_override_def
  enc_array_def enc_u8_def enc_u16_def enc_u64_def enc_bool_def

lemma length_encode [wire_simps]:
  "attestation_wf a \<Longrightarrow> length (encode_attestation a) = 132"
  "policy_wf p \<Longrightarrow> length (encode_policy p) = 86"
  "override_wf v \<Longrightarrow> length (encode_override v) = 86"
  by (simp_all add: encode_defs attestation_wf_def policy_wf_def override_wf_def)

lemma attestation_wf_new:
  "attestation_wf (attestation_new txh v ss os oh sl sk ts tms) \<longleftrightarrow>
     length txh = 32 \<and> length oh = 32 \<and> length sk = 32"
  by (simp add: attestation_wf_def attestation_new_def CIEL_ATTESTATION_MAGIC_def)

lemma expiry_slot_new:
  "expiry_slot (attestation_new txh v ss os oh sl sk ts tms) = sl + 2"
  by (simp add: attestation_new_def EXPIRY_SLOTS_def)

text \<open>The window of two slots is lost only where the addition wraps, at the last two slots.\<close>

lemma expiry_after_slot:
  assumes "a = attestation_new txh v ss os oh sl sk ts tms"
  shows "slot a \<le> expiry_slot a \<longleftrightarrow> unat sl < 2 ^ 64 - 2"
proof -
  have "unat (sl + 2) = (unat sl + 2) mod 2 ^ 64" by (simp add: unat_word_ariths)
  moreover have "unat sl < 2 ^ 64" using unat_u64_less [of sl] by simp
  ultimately show ?thesis
    using assms expiry_slot_new [of txh v ss os oh sl sk ts tms]
    by (auto simp: attestation_new_def word_le_nat_alt mod_if)
qed

text \<open>C18: Each of the three payloads is read back from its own bytes and from no others, and its wire
  size is fixed: reading succeeds with a value exactly on the encoding of that value (132, 86 and 86
  bytes), so a truncated, extended or non-canonical byte string is an error.\<close>

theorem payload_roundtrip:
  "(try_from_slice decode_attestation bs = Inr a \<longleftrightarrow>
      attestation_wf a \<and> bs = encode_attestation a \<and> length bs = 132) \<and>
   (try_from_slice decode_policy bs = Inr p \<longleftrightarrow> policy_wf p \<and> bs = encode_policy p \<and> length bs = 86) \<and>
   (try_from_slice decode_override bs = Inr v \<longleftrightarrow>
      override_wf v \<and> bs = encode_override v \<and> length bs = 86)"
  unfolding att.from_slice_iff pol.from_slice_iff ovr.from_slice_iff
  using length_encode(1) [of a] length_encode(2) [of p] length_encode(3) [of v]
  by (intro conjI) (clarify | blast)+

text \<open>C19: The three kinds of signed payload are separated: no byte string that a constructor's payload
  serializes to is one of another kind, so a signature over a policy or an override is never a
  signature over a transaction attestation.\<close>

theorem signed_payloads_separated:
  "encode_attestation (attestation_new txh vd ss os oh sl sk ts tms) \<noteq> encode_policy (policy_new ph sk' sl' ex) \<and>
   encode_attestation (attestation_new txh vd ss os oh sl sk ts tms) \<noteq>
     encode_override (override_new h t who sl'' ts'') \<and>
   encode_policy (policy_new ph sk' sl' ex) \<noteq> encode_override (override_new h t who sl'' ts'')"
  by (simp add: encode_defs attestation_new_def policy_new_def override_new_def
      CIEL_ATTESTATION_MAGIC_def POLICY_ATTESTATION_MAGIC_def OVERRIDE_ATTESTATION_MAGIC_def)

text \<open>Signing never fails, and what it returns verifies under the signer's own public key and reads
  back as the payload, for each of the three payload kinds.\<close>

theorem signed_payload_verifies:
  assumes "ed25519_correct E" "length (signing_key s) = 32"
    and "attestation_wf a" "policy_wf p" "override_wf v"
  shows "(\<exists>bs sig. sign_attestation E s a = Inr (bs, sig) \<and>
            verify_attestation E (pubkey_bytes E s) bs sig \<and> try_from_slice decode_attestation bs = Inr a) \<and>
    (\<exists>bs sig. sign_policy_attestation E s p = Inr (bs, sig) \<and>
            verify_attestation E (pubkey_bytes E s) bs sig \<and> try_from_slice decode_policy bs = Inr p) \<and>
    (\<exists>bs sig. sign_override_attestation E s v = Inr (bs, sig) \<and>
            verify_attestation E (pubkey_bytes E s) bs sig \<and> try_from_slice decode_override bs = Inr v)"
  using assms
  by (simp add: sign_attestation_def sign_policy_attestation_def sign_override_attestation_def Let_def
      verify_attestation_def pubkey_bytes_def ed25519_correct_def
      att.from_slice_iff pol.from_slice_iff ovr.from_slice_iff)

text \<open>A signature scheme in the form of the parameter: the signature is the key with the message.\<close>

definition tag_scheme :: ed25519 where
  "tag_scheme = \<lparr>ed_public = (\<lambda>k. k), ed_from_keypair = (\<lambda>bs. Inr (take 32 bs)), ed_sign = (\<lambda>k m. k @ m),
     ed_is_key = (\<lambda>k. length k = 32), ed_verify_strict = (\<lambda>k m s. s = k @ m)\<rparr>"

lemma tag_scheme_correct: "ed25519_correct tag_scheme"
  by (simp add: tag_scheme_def ed25519_correct_def)

theorem signed_payload_verifies_witness:
  "ed25519_correct tag_scheme \<and>
   (\<exists>bs sig. sign_attestation tag_scheme (from_bytes (replicate 32 7))
       (new_timeout (replicate 32 1) (replicate 32 0) 9 (replicate 32 7) 5 200) = Inr (bs, sig) \<and>
     verify_attestation tag_scheme (replicate 32 7) bs sig)"
proof -
  have "attestation_wf (new_timeout (replicate 32 1) (replicate 32 0) 9 (replicate 32 7) 5 200)"
    "policy_wf (policy_new (replicate 32 1) (replicate 32 7) 9 5)"
    "override_wf (override_new (replicate 32 1) 0 (replicate 32 7) 9 5)"
    by (simp_all add: new_timeout_def attestation_wf_new policy_wf_def policy_new_def override_wf_def
        override_new_def POLICY_ATTESTATION_MAGIC_def OVERRIDE_ATTESTATION_MAGIC_def)
  from signed_payload_verifies [OF tag_scheme_correct _ this, of "from_bytes (replicate 32 7)"]
  show ?thesis
    using tag_scheme_correct by (auto simp: from_bytes_def pubkey_bytes_def tag_scheme_def)
qed

end
