(* ===== verification/Pea.thy ===== *)
theory Pea
  imports Attestation Json
begin

section \<open>The JSON envelope of an attestation\<close>

text \<open>
  \<^verbatim>\<open>crates/ciel-signer/src/pea.rs\<close>: the conversion of a signed attestation into the PEA envelope and
  back. The hexadecimal and base64 codecs and the error texts of the Borsh reader are parameters
  (\<open>text_codecs\<close>); \<^verbatim>\<open>std::str::from_utf8\<close> is modelled. The lemmas show that an envelope is read back
  as what was written, what an accepted envelope guarantees, and which part of it is not read.
\<close>

definition PEA_FIXTURE_VERSION :: string where "PEA_FIXTURE_VERSION = ''ciel_attestation_v1''"
definition PEA_SPEC_VERSION :: string where "PEA_SPEC_VERSION = ''ciel-pea/1.0''"

datatype pea_flag_severity = PeaInfo | PeaWarn | PeaBlock

record pea_flag =
  pf_code :: string
  pf_severity :: pea_flag_severity
  pf_detail :: "string option"

record pea_intent =
  intent_nl :: "string option"
  intent_fingerprint :: "string option"
  intent_satisfied :: "bool option"

record text_codecs =
  hex_encode :: "bytes \<Rightarrow> string"
  hex_decode :: "string \<Rightarrow> (string, bytes) result"
  b64_encode :: "bytes \<Rightarrow> string"
  b64_decode :: "string \<Rightarrow> (string, bytes) result"
  borsh_error_text :: "decode_error \<Rightarrow> string"

text \<open>\<^verbatim>\<open>std::str::from_utf8\<close>: the well-formed byte sequences of the Unicode standard.\<close>

definition cont_byte :: "u8 \<Rightarrow> bool" where "cont_byte b \<longleftrightarrow> 0x80 \<le> b \<and> b \<le> 0xBF"

definition second_ok :: "u8 \<Rightarrow> u8 \<Rightarrow> bool" where
  "second_ok lead b \<longleftrightarrow>
     (if lead = 0xE0 then 0xA0 \<le> b \<and> b \<le> 0xBF
      else if lead = 0xED then 0x80 \<le> b \<and> b \<le> 0x9F
      else if lead = 0xF0 then 0x90 \<le> b \<and> b \<le> 0xBF
      else if lead = 0xF4 then 0x80 \<le> b \<and> b \<le> 0x8F
      else cont_byte b)"

fun utf8_valid :: "bytes \<Rightarrow> bool" where
  "utf8_valid [] = True"
| "utf8_valid (b # bs) =
     (if b < 0x80 then utf8_valid bs
      else if 0xC2 \<le> b \<and> b \<le> 0xDF then
        (case bs of c1 # r \<Rightarrow> cont_byte c1 \<and> utf8_valid r | _ \<Rightarrow> False)
      else if 0xE0 \<le> b \<and> b \<le> 0xEF then
        (case bs of c1 # c2 # r \<Rightarrow> second_ok b c1 \<and> cont_byte c2 \<and> utf8_valid r | _ \<Rightarrow> False)
      else if 0xF0 \<le> b \<and> b \<le> 0xF4 then
        (case bs of c1 # c2 # c3 # r \<Rightarrow> second_ok b c1 \<and> cont_byte c2 \<and> cont_byte c3 \<and> utf8_valid r | _ \<Rightarrow> False)
      else False)"

definition str_from_utf8 :: "bytes \<Rightarrow> string option" where
  "str_from_utf8 bs = (if utf8_valid bs then Some (bytes_str bs) else None)"

subsection \<open>Writing the envelope\<close>

fun pea_severity_json :: "pea_flag_severity \<Rightarrow> json" where
  "pea_severity_json PeaInfo = JStr ''INFO''"
| "pea_severity_json PeaWarn = JStr ''WARN''"
| "pea_severity_json PeaBlock = JStr ''BLOCK''"

definition opt_field :: "string \<Rightarrow> ('a \<Rightarrow> json) \<Rightarrow> 'a option \<Rightarrow> (string \<times> json) list" where
  "opt_field k f v = (case v of None \<Rightarrow> [] | Some x \<Rightarrow> [(k, f x)])"

definition pea_flag_json :: "pea_flag \<Rightarrow> json" where
  "pea_flag_json f =
     json_obj ([(''code'', JStr (pf_code f)), (''severity'', pea_severity_json (pf_severity f))] @
       opt_field ''detail'' JStr (pf_detail f))"

definition pea_intent_json :: "pea_intent \<Rightarrow> json" where
  "pea_intent_json i =
     json_obj (opt_field ''intent_nl'' JStr (intent_nl i) @
       opt_field ''intent_fingerprint'' JStr (intent_fingerprint i) @
       opt_field ''intent_satisfied'' JBool (intent_satisfied i))"

definition attestation_json :: "text_codecs \<Rightarrow> ciel_attestation \<Rightarrow> json" where
  "attestation_json C a =
     json_obj
       [(''magic'', JStr (case str_from_utf8 (magic a) of None \<Rightarrow> ''????'' | Some s \<Rightarrow> s)),
        (''version'', JU64 (unat (version a))),
        (''tx_hash'', JStr (hex_encode C (tx_hash a))),
        (''verdict'', JU64 (unat (att_verdict a))),
        (''safety_score'', JU64 (unat (safety_score a))),
        (''optimality_score'', JU64 (unat (optimality_score a))),
        (''checker_outputs_hash'', JStr (hex_encode C (checker_outputs_hash_field a))),
        (''slot'', JU64 (unat (slot a))),
        (''expiry_slot'', JU64 (unat (expiry_slot a))),
        (''signer'', JStr (hex_encode C (signer a))),
        (''timestamp'', json_int (sint (timestamp a))),
        (''timeout_at_ms'', JU64 (unat (timeout_at_ms a)))]"

definition to_pea_json ::
    "text_codecs \<Rightarrow> ciel_attestation \<Rightarrow> bytes \<Rightarrow> pea_flag list \<Rightarrow> pea_intent option \<Rightarrow> (signer_error, json) result" where
  "to_pea_json C a sig fs i =
     (let wire_bytes = encode_attestation a;
          env0 = json_obj
            [(''spec_version'', JStr PEA_SPEC_VERSION), (''attestation'', attestation_json C a),
             (''signature'', JStr (hex_encode C sig)),
             (''wire'', json_obj [(''borsh_b64'', JStr (b64_encode C wire_bytes)),
                                  (''fixture_version'', JStr PEA_FIXTURE_VERSION)])];
          env1 = (if fs = [] then env0 else json_set ''flags'' (JArr (map pea_flag_json fs)) env0);
          env2 = (case i of None \<Rightarrow> env1 | Some x \<Rightarrow> json_set ''intent'' (pea_intent_json x) env1)
      in Inr env2)"

subsection \<open>Reading it back\<close>

definition str_field :: "json \<Rightarrow> string \<Rightarrow> string \<Rightarrow> (signer_error, string) result" where
  "str_field v k msg = ok_or (SerializationErr msg) (Option.bind (json_get v k) json_as_str)"

definition from_pea_json :: "text_codecs \<Rightarrow> json \<Rightarrow> (signer_error, ciel_attestation \<times> bytes) result" where
  "from_pea_json C env =
     bind_result (str_field env ''spec_version'' ''missing spec_version'') (\<lambda>spec_version.
     if spec_version \<noteq> PEA_SPEC_VERSION
     then Inl (SerializationErr (''unsupported spec_version: '' @ spec_version))
     else bind_result (ok_or (SerializationErr ''missing wire'') (json_get env ''wire'')) (\<lambda>wire.
     bind_result (str_field wire ''fixture_version'' ''missing wire.fixture_version'') (\<lambda>fixture_version.
     if fixture_version \<noteq> PEA_FIXTURE_VERSION
     then Inl (SerializationErr (''unsupported fixture_version: '' @ fixture_version))
     else bind_result (str_field wire ''borsh_b64'' ''missing wire.borsh_b64'') (\<lambda>b64.
     bind_result (map_err (\<lambda>e. SerializationErr (''base64: '' @ e)) (b64_decode C b64)) (\<lambda>wire_bytes.
     if length wire_bytes \<noteq> 132
     then Inl (SerializationErr (''wire length '' @ show_nat (length wire_bytes) @ '' != 132''))
     else bind_result (map_err (\<lambda>e. SerializationErr (borsh_error_text C e)) (try_from_slice decode_attestation wire_bytes)) (\<lambda>a.
     if encode_attestation a \<noteq> wire_bytes
     then Inl (SerializationErr (''wire bytes did not roundtrip '' @ [CHR 0xE2, CHR 0x80, CHR 0x94] @ '' tamper or encoder drift''))
     else bind_result (str_field env ''signature'' ''missing signature'') (\<lambda>signature_hex.
     bind_result (map_err (\<lambda>e. SerializationErr (''signature hex: '' @ e)) (hex_decode C signature_hex)) (\<lambda>signature_bytes.
     if length signature_bytes = 64 then Inr (a, signature_bytes)
     else Inl (SerializationErr ''signature not 64 bytes'')))))))))"

definition timeout_score_sentinel :: u16 where "timeout_score_sentinel = TIMEOUT_SENTINEL"

definition verdict_label :: "u8 \<Rightarrow> string" where
  "verdict_label v =
     (if v = 0 then ''APPROVE'' else if v = 1 then ''WARN'' else if v = 2 then ''BLOCK''
      else if v = 3 then ''TIMEOUT'' else ''UNKNOWN'')"

subsection \<open>What is written and what is read\<close>

text \<open>What the codec crates document: decoding undoes encoding.\<close>

definition codecs_roundtrip :: "text_codecs \<Rightarrow> bool" where
  "codecs_roundtrip C \<longleftrightarrow>
     (\<forall>bs. hex_decode C (hex_encode C bs) = Inr bs) \<and> (\<forall>bs. b64_decode C (b64_encode C bs) = Inr bs)"

lemma json_get_set_obj [simp]: "json_get (json_set k v (json_obj kvs)) k' = (if k' = k then Some v else json_get (json_obj kvs) k')"
  by (simp add: json_obj_def lookup_bt_insert)

lemma json_get_set2 [simp]:
  "json_get (json_set a v (json_set b w (json_obj kvs))) k =
     (if k = a then Some v else if k = b then Some w else json_get (json_obj kvs) k)"
  by (simp add: json_obj_def lookup_bt_insert)

lemma envelope_fields:
  assumes "to_pea_json C a sig fs i = Inr env"
  shows "json_get env ''spec_version'' = Some (JStr PEA_SPEC_VERSION)"
    "json_get env ''wire'' = Some (json_obj [(''borsh_b64'', JStr (b64_encode C (encode_attestation a))),
       (''fixture_version'', JStr PEA_FIXTURE_VERSION)])"
    "json_get env ''signature'' = Some (JStr (hex_encode C sig))"
  using assms by (cases i; cases "fs = []"; auto simp: to_pea_json_def Let_def)+

lemma from_pea_json_Inr:
  "from_pea_json C env = Inr (a, sig) \<longleftrightarrow>
     json_get env ''spec_version'' = Some (JStr PEA_SPEC_VERSION) \<and>
     (\<exists>wire b64 sh. json_get env ''wire'' = Some wire \<and>
        json_get wire ''fixture_version'' = Some (JStr PEA_FIXTURE_VERSION) \<and>
        json_get wire ''borsh_b64'' = Some (JStr b64) \<and> b64_decode C b64 = Inr (encode_attestation a) \<and>
        attestation_wf a \<and> json_get env ''signature'' = Some (JStr sh) \<and> hex_decode C sh = Inr sig \<and> length sig = 64)"
proof -
  have str: "json_as_str v = Some s \<longleftrightarrow> v = JStr s" for v s by (cases v) auto
  show ?thesis (is "?L \<longleftrightarrow> ?R")
  proof
    show "?L \<Longrightarrow> ?R"
      unfolding from_pea_json_def str_field_def
      by (auto simp: bind_result_Inr bind_eq_Some_conv str att.from_slice_iff split: if_splits)
  next
    assume ?R
    then obtain wire b64 sh where f: "json_get env ''spec_version'' = Some (JStr PEA_SPEC_VERSION)"
      "json_get env ''wire'' = Some wire" "json_get wire ''fixture_version'' = Some (JStr PEA_FIXTURE_VERSION)"
      "json_get wire ''borsh_b64'' = Some (JStr b64)" "b64_decode C b64 = Inr (encode_attestation a)"
      "attestation_wf a" "json_get env ''signature'' = Some (JStr sh)" "hex_decode C sh = Inr sig" "length sig = 64"
      by blast
    have "try_from_slice decode_attestation (encode_attestation a) = Inr a" using f(6) by (simp add: att.from_slice_iff)
    then show ?L using f by (simp add: from_pea_json_def str_field_def length_encode)
  qed
qed

text \<open>C31: An envelope is read back as what was written: for a well-formed attestation and a 64-byte
  signature the envelope that is written, with whatever flags and intent, is accepted and gives the
  same attestation and signature. Conversely an accepted envelope carries, in base64, exactly the
  132 bytes of the attestation it is read as, so the signature can be checked over those bytes.\<close>

theorem envelope_roundtrip:
  assumes "codecs_roundtrip C" "attestation_wf a" "length sig = 64"
  shows "(\<exists>env. to_pea_json C a sig fs i = Inr env \<and> from_pea_json C env = Inr (a, sig)) \<and>
    (\<forall>env b s. from_pea_json C env = Inr (b, s) \<longrightarrow>
       attestation_wf b \<and> length (encode_attestation b) = 132 \<and> length s = 64 \<and>
       (\<exists>wire b64. json_get env ''wire'' = Some wire \<and> json_get wire ''borsh_b64'' = Some (JStr b64) \<and>
          b64_decode C b64 = Inr (encode_attestation b)))"
proof (intro conjI allI impI)
  obtain env where env: "to_pea_json C a sig fs i = Inr env" by (simp add: to_pea_json_def Let_def)
  have "from_pea_json C env = Inr (a, sig)"
    using envelope_fields [OF env] assms by (auto simp: from_pea_json_Inr codecs_roundtrip_def)
  then show "\<exists>env. to_pea_json C a sig fs i = Inr env \<and> from_pea_json C env = Inr (a, sig)" using env by blast
qed (auto simp: from_pea_json_Inr length_encode)

lemma from_pea_json_cong:
  assumes "json_get env ''spec_version'' = json_get env' ''spec_version''" "json_get env ''wire'' = json_get env' ''wire''"
    and "json_get env ''signature'' = json_get env' ''signature''"
  shows "from_pea_json C env = from_pea_json C env'"
  unfolding from_pea_json_def str_field_def assms by (rule refl)

text \<open>The human-readable attestation of an envelope is never compared with the signed bytes. Replacing
  the attestation object of any envelope by any other value changes nothing in how it is read, so an
  accepted envelope can show one verdict and carry the signature over another.\<close>

theorem attestation_object_not_read:
  "from_pea_json C (json_set ''attestation'' v (JObj m)) = from_pea_json C (JObj m)"
  by (rule from_pea_json_cong) (simp_all add: lookup_bt_insert)

text \<open>A run of the round trip, with byte texts as codecs.\<close>

definition plain_codecs :: text_codecs where
  "plain_codecs = \<lparr>hex_encode = bytes_str, hex_decode = (\<lambda>s. Inr (str_bytes s)), b64_encode = bytes_str,
     b64_decode = (\<lambda>s. Inr (str_bytes s)), borsh_error_text = (\<lambda>e. [])\<rparr>"

lemma str_bytes_bytes_str: "str_bytes (bytes_str bs) = bs"
proof -
  have "of_nat (code_of (char_of (unat b))) = b" for b :: u8 
    using unat_u8_less [of b] by (simp add: code_of_def)
  then show ?thesis by (simp add: str_bytes_def bytes_str_def comp_def)
qed

theorem envelope_roundtrip_witness:
  "\<exists>env. to_pea_json plain_codecs (new_timeout (replicate 32 1) (replicate 32 2) 7 (replicate 32 3) 0 5) (replicate 64 9) [] None = Inr env \<and>
     from_pea_json plain_codecs env =
       Inr (new_timeout (replicate 32 1) (replicate 32 2) 7 (replicate 32 3) 0 5, replicate 64 9)"
proof -
  have "codecs_roundtrip plain_codecs" by (simp add: codecs_roundtrip_def plain_codecs_def str_bytes_bytes_str)
  moreover have "attestation_wf (new_timeout (replicate 32 1) (replicate 32 2) 7 (replicate 32 3) 0 5)"
    by (simp add: new_timeout_def attestation_wf_new)
  ultimately show ?thesis using envelope_roundtrip [of plain_codecs _ "replicate 64 9"] by simp
qed

end
