(* ===== verification/Checker_Wire.thy ===== *)
theory Checker_Wire
  imports Checker_Core Pea
begin

section \<open>Reading checker outputs from their wire form\<close>

text \<open>
  The derived \<^verbatim>\<open>BorshDeserialize\<close> of \<^verbatim>\<open>Severity\<close>, \<^verbatim>\<open>Flag\<close> and \<^verbatim>\<open>CheckerOutput\<close> in
  \<^verbatim>\<open>crates/ciel-checkers/src/traits.rs\<close>, with the field reader \<^verbatim>\<open>borsh_deserialize_json_value\<close>. A reader
  returns the value and the bytes left over. The JSON reader is a parameter. The lemmas show, reader
  by reader, that what \<open>Checker_Core\<close> writes is read back, whatever follows it; the locale \<open>wire_pair\<close>
  states this contract for the fields that do not depend on JSON.
\<close>

subsection \<open>Readers\<close>

datatype read_error = ReadEof | ReadInvalid string

type_synonym 'a wire_reader = "bytes \<Rightarrow> (read_error, 'a \<times> bytes) result"

definition read_bytes :: "nat \<Rightarrow> bytes wire_reader" where
  "read_bytes n bs = (if length bs < n then Inl ReadEof else Inr (take n bs, drop n bs))"

definition read_len :: "nat wire_reader" where
  "read_len bs = bind_result (read_bytes 4 bs) (\<lambda>(x, r). Inr (le_nat x, r))"

definition read_u8 :: "u8 wire_reader" where
  "read_u8 bs = bind_result (read_bytes 1 bs) (\<lambda>(x, r). Inr (hd x, r))"

definition read_vec :: "bytes wire_reader" where
  "read_vec bs = bind_result (read_len bs) (\<lambda>(n, r). read_bytes n r)"

definition read_string :: "string wire_reader" where
  "read_string bs =
     bind_result (read_vec bs) (\<lambda>(x, r).
       case str_from_utf8 x of Some s \<Rightarrow> Inr (s, r) | None \<Rightarrow> Inl (ReadInvalid ''invalid utf-8 sequence''))"

definition read_bool :: "bool wire_reader" where
  "read_bool bs =
     bind_result (read_u8 bs) (\<lambda>(b, r).
       if b = 0 then Inr (False, r) else if b = 1 then Inr (True, r)
       else Inl (ReadInvalid ''Invalid bool representation''))"

definition read_severity :: "severity wire_reader" where
  "read_severity bs =
     bind_result (read_u8 bs) (\<lambda>(b, r).
       if b = 0 then Inr (SevNone, r) else if b = 1 then Inr (Low, r) else if b = 2 then Inr (Medium, r)
       else if b = 3 then Inr (High, r) else if b = 4 then Inr (Critical, r)
       else Inl (ReadInvalid ''Unexpected variant tag''))"

definition borsh_deserialize_json_value :: "(bytes \<Rightarrow> (string, json) result) \<Rightarrow> json wire_reader" where
  "borsh_deserialize_json_value from_slice bs =
     bind_result (read_vec bs) (\<lambda>(x, r). bind_result (map_err ReadInvalid (from_slice x)) (\<lambda>v. Inr (v, r)))"

definition read_flag :: "(bytes \<Rightarrow> (string, json) result) \<Rightarrow> flag wire_reader" where
  "read_flag from_slice b0 =
     bind_result (read_string b0) (\<lambda>(c, b1).
     bind_result (read_string b1) (\<lambda>(m, b2).
     bind_result (borsh_deserialize_json_value from_slice b2) (\<lambda>(d, b3).
     Inr (\<lparr>flag_code = c, flag_message = m, flag_data = d\<rparr>, b3))))"

fun read_flags :: "(bytes \<Rightarrow> (string, json) result) \<Rightarrow> nat \<Rightarrow> flag list wire_reader" where
  "read_flags from_slice 0 bs = Inr ([], bs)"
| "read_flags from_slice (Suc n) bs =
     bind_result (read_flag from_slice bs) (\<lambda>(f, r).
     bind_result (read_flags from_slice n r) (\<lambda>(fs, r'). Inr (f # fs, r')))"

definition read_flag_vec :: "(bytes \<Rightarrow> (string, json) result) \<Rightarrow> flag list wire_reader" where
  "read_flag_vec from_slice bs = bind_result (read_len bs) (\<lambda>(n, r). read_flags from_slice n r)"

definition read_output :: "(bytes \<Rightarrow> (string, json) result) \<Rightarrow> checker_output wire_reader" where
  "read_output from_slice b0 =
     bind_result (read_string b0) (\<lambda>(n, b1).
     bind_result (read_bool b1) (\<lambda>(p, b2).
     bind_result (read_severity b2) (\<lambda>(s, b3).
     bind_result (read_flag_vec from_slice b3) (\<lambda>(fs, b4).
     bind_result (read_string b4) (\<lambda>(d, b5).
     Inr (\<lparr>checker_name = n, passed = p, out_severity = s, flags = fs, details = d\<rparr>, b5))))))"

text \<open>\<^verbatim>\<open>borsh::from_slice\<close> refuses bytes left over.\<close>

definition output_from_slice :: "(bytes \<Rightarrow> (string, json) result) \<Rightarrow> bytes \<Rightarrow> (read_error, checker_output) result" where
  "output_from_slice from_slice bs =
     bind_result (read_output from_slice bs) (\<lambda>(out, r).
       if r = [] then Inr out else Inl (ReadInvalid ''Not all bytes read''))"

subsection \<open>What a writer and its reader promise\<close>

text \<open>A value that is written is read back, and the reader stops where the writer stopped.\<close>

locale wire_pair =
  fixes ok :: "'a \<Rightarrow> bool" and wr :: "'a \<Rightarrow> (borsh_error, bytes) result" and rd :: "'a wire_reader"
  assumes read_written: "ok x \<Longrightarrow> wr x = Inr b \<Longrightarrow> rd (b @ r) = Inr (x, r)"
begin

lemma written_unique:
  assumes "ok x" "ok y" "wr x = Inr a" "wr y = Inr b" "a @ r = b @ s"
  shows "x = y \<and> r = s"
  using read_written [OF assms(1,3), of r] read_written [OF assms(2,4), of s] assms(5) by simp

end

lemma read_bytes_append: "length x = n \<Longrightarrow> read_bytes n (x @ r) = Inr (x, r)"
  by (simp add: read_bytes_def)

lemma read_len_append: "n < 2 ^ 32 \<Longrightarrow> read_len (le_bytes 4 n @ r) = Inr (n, r)"
  by (simp add: read_len_def read_bytes_append le_nat_le_bytes)

interpretation vec_pair: wire_pair "\<lambda>bs. True" borsh_vec read_vec
  by unfold_locales (auto simp: borsh_vec_def read_vec_def read_len_append read_bytes_append split: if_splits)

definition text_ok :: "string \<Rightarrow> bool" where
  "text_ok s \<longleftrightarrow> utf8_valid (str_bytes s)"

lemma bytes_str_str_bytes: "bytes_str (str_bytes s) = s"
  by (induction s) (simp_all add: bytes_str_def str_bytes_def code_of_def unat_of_nat)

interpretation string_pair: wire_pair text_ok borsh_string read_string
proof
  fix x b r assume "text_ok x" "borsh_string x = Inr b"
  then show "read_string (b @ r) = Inr (x, r)"
    using vec_pair.read_written [of "str_bytes x" b r]
    by (simp add: borsh_string_def read_string_def str_from_utf8_def text_ok_def bytes_str_str_bytes)
qed

subsection \<open>Outputs\<close>

text \<open>
  The JSON text of a flag's data is the one field whose reading is not the program's own: the flag that
  is read back carries what the JSON reader makes of the text that was written.
\<close>

definition reread_flag ::
    "(json \<Rightarrow> (string, bytes) result) \<Rightarrow> (bytes \<Rightarrow> (string, json) result) \<Rightarrow> flag \<Rightarrow> (read_error, flag) result" where
  "reread_flag to_vec from_slice f =
     bind_result (map_err ReadInvalid (bind_result (to_vec (flag_data f)) from_slice)) (\<lambda>v. Inr (f\<lparr>flag_data := v\<rparr>))"

fun reread_flags ::
    "(json \<Rightarrow> (string, bytes) result) \<Rightarrow> (bytes \<Rightarrow> (string, json) result) \<Rightarrow> flag list \<Rightarrow> (read_error, flag list) result" where
  "reread_flags to_vec from_slice [] = Inr []"
| "reread_flags to_vec from_slice (f # fs) =
     bind_result (reread_flag to_vec from_slice f) (\<lambda>g.
     bind_result (reread_flags to_vec from_slice fs) (\<lambda>gs. Inr (g # gs)))"

text \<open>What \<^verbatim>\<open>serde_json\<close> documents: its reader undoes its writer on values without floats that are not nested too deep.\<close>

definition json_reads_back :: "(json \<Rightarrow> (string, bytes) result) \<Rightarrow> (bytes \<Rightarrow> (string, json) result) \<Rightarrow> bool" where
  "json_reads_back to_vec from_slice \<longleftrightarrow>
     (\<forall>v b. exact_text v \<longrightarrow> to_vec v = Inr b \<longrightarrow> from_slice b = Inr v)"

definition flag_texts_ok :: "flag \<Rightarrow> bool" where
  "flag_texts_ok f \<longleftrightarrow> text_ok (flag_code f) \<and> text_ok (flag_message f)"

definition output_texts_ok :: "checker_output \<Rightarrow> bool" where
  "output_texts_ok out \<longleftrightarrow> text_ok (checker_name out) \<and> list_all flag_texts_ok (flags out) \<and> text_ok (details out)"

lemma flag_read:
  assumes "flag_texts_ok f" "borsh_flag to_vec f = Inr b"
  shows "read_flag from_slice (b @ r) = bind_result (reread_flag to_vec from_slice f) (\<lambda>g. Inr (g, r))"
proof -
  obtain c m d x where w: "borsh_string (flag_code f) = Inr c" "borsh_string (flag_message f) = Inr m"
    "to_vec (flag_data f) = Inr x" "borsh_vec x = Inr d" "b = c @ m @ d"
    using assms(2) by (auto simp: borsh_flag_def borsh_serialize_json_value_def bind_result_Inr)
  have "borsh_deserialize_json_value from_slice (d @ r) = bind_result (map_err ReadInvalid (from_slice x)) (\<lambda>v. Inr (v, r))"
    using vec_pair.read_written [OF TrueI w(4)] by (simp add: borsh_deserialize_json_value_def)
  then show ?thesis
    using assms(1) string_pair.read_written [OF _ w(1)] string_pair.read_written [OF _ w(2)]
    by (cases "from_slice x") (simp_all add: read_flag_def reread_flag_def flag_texts_ok_def w(3,5))
qed

lemma flags_read:
  assumes "list_all flag_texts_ok fs" "borsh_flags to_vec fs = Inr b"
  shows "read_flags from_slice (length fs) (b @ r) = bind_result (reread_flags to_vec from_slice fs) (\<lambda>gs. Inr (gs, r))"
  using assms
proof (induction fs arbitrary: b)
  case (Cons f fs)
  then obtain y z where w: "borsh_flag to_vec f = Inr y" "borsh_flags to_vec fs = Inr z" "b = y @ z"
    by (auto simp: bind_result_Inr)
  then show ?case
    using Cons.prems(1) Cons.IH [OF _ w(2)] flag_read [OF _ w(1), of from_slice "z @ r"]
    by (cases "reread_flag to_vec from_slice f"; cases "reread_flags to_vec from_slice fs") simp_all
qed simp

lemma flag_vec_read:
  assumes "list_all flag_texts_ok fs" "borsh_flag_vec to_vec fs = Inr b"
  shows "read_flag_vec from_slice (b @ r) = bind_result (reread_flags to_vec from_slice fs) (\<lambda>gs. Inr (gs, r))"
  using assms(2) flags_read [OF assms(1)]
  by (auto simp: borsh_flag_vec_def read_flag_vec_def bind_result_Inr read_len_append split: if_splits)

lemma output_read:
  assumes "output_texts_ok out" "borsh_output to_vec out = Inr b"
  shows "read_output from_slice (b @ r) =
    bind_result (reread_flags to_vec from_slice (flags out)) (\<lambda>fs. Inr (out\<lparr>flags := fs\<rparr>, r))"
proof -
  obtain n fs d where w: "borsh_string (checker_name out) = Inr n" "borsh_flag_vec to_vec (flags out) = Inr fs"
    "borsh_string (details out) = Inr d"
    "b = n @ borsh_bool (passed out) @ borsh_severity (out_severity out) @ fs @ d"
    using assms(2) by (auto simp: borsh_output_def bind_result_Inr)
  have "read_bool (borsh_bool p @ r') = Inr (p, r')" for p r'
    by (simp add: read_bool_def borsh_bool_def read_u8_def read_bytes_def)
  moreover have "read_severity (borsh_severity s @ r') = Inr (s, r')" for s r'
    by (cases s) (simp_all add: read_severity_def borsh_severity_def read_u8_def read_bytes_def)
  ultimately show ?thesis
    using assms(1) string_pair.read_written [OF _ w(1)] string_pair.read_written [OF _ w(3)] flag_vec_read [OF _ w(2), of from_slice]
    by (cases "reread_flags to_vec from_slice (flags out)") (simp_all add: read_output_def output_texts_ok_def w(4))
qed

lemma exact_flags_reread:
  assumes "json_reads_back to_vec from_slice" "list_all (\<lambda>f. exact_text (flag_data f)) fs" "borsh_flags to_vec fs = Inr b"
  shows "reread_flags to_vec from_slice fs = Inr fs"
  using assms(2,3)
proof (induction fs arbitrary: b)
  case (Cons f fs)
  then obtain x z where "to_vec (flag_data f) = Inr x" "borsh_flags to_vec fs = Inr z"
    by (auto simp: bind_result_Inr borsh_flag_def borsh_serialize_json_value_def)
  moreover from this have "from_slice x = Inr (flag_data f)" using assms(1) Cons.prems(1) by (simp add: json_reads_back_def)
  ultimately show ?case using Cons by (simp add: reread_flag_def)
qed simp

text \<open>C23: A checker output is read back from its wire form. If its texts are UTF-8, reading the bytes that
  enter the signed hash gives the same name, verdict, severity, codes, messages and details, and for
  the data of each flag, floats included, what the JSON reader makes of its written text; it fails only
  where that reader fails, and it stops where the output ends. When no flag carries a float or data
  nested deeper than the JSON reader follows, the output that is read is the one that was written,
  field by field, and the strict reader refuses it with anything appended.\<close>

theorem output_roundtrip:
  assumes "json_reads_back to_vec from_slice" "output_texts_ok out" "borsh_output to_vec out = Inr b"
  shows "read_output from_slice (b @ r) =
      bind_result (reread_flags to_vec from_slice (flags out)) (\<lambda>fs. Inr (out\<lparr>flags := fs\<rparr>, r)) \<and>
    (list_all (\<lambda>f. exact_text (flag_data f)) (flags out) \<longrightarrow>
      read_output from_slice (b @ r) = Inr (out, r) \<and> output_from_slice from_slice b = Inr out \<and>
      (r \<noteq> [] \<longrightarrow> output_from_slice from_slice (b @ r) = Inl (ReadInvalid ''Not all bytes read'')))"
proof -
  note rd = output_read [OF assms(2,3), of from_slice]
  have "reread_flags to_vec from_slice (flags out) = Inr (flags out)" if "list_all (\<lambda>f. exact_text (flag_data f)) (flags out)"
    using exact_flags_reread [OF assms(1) that] assms(3)
    by (auto simp: borsh_output_def borsh_flag_vec_def bind_result_Inr split: if_splits)
  then show ?thesis using rd [of r] rd [of "[]"] by (simp add: output_from_slice_def)
qed

subsection \<open>A run\<close>

text \<open>
  The JSON texts of two values, an object as the oracle checker reports it and the double after one, with a
  reader that misses the double by one unit in the last place.
\<close>

definition oracle_value :: json where
  "oracle_value = JObj [(''oracle_pubkey'', JStr ''Feed''), (''oracle_type'', JStr ''pyth'')]"

definition after_one :: f64 where "after_one = Fin (1 + pow2 (- 52))"

definition table_to_vec :: "json \<Rightarrow> (string, bytes) result" where
  "table_to_vec v =
     (if v = oracle_value then Inr (str_bytes ''{\"oracle_pubkey\":\"Feed\",\"oracle_type\":\"pyth\"}'')
      else if v = JF64 after_one then Inr (str_bytes ''1.0000000000000002'') else Inl ''unsupported'')"

definition table_from_slice :: "bytes \<Rightarrow> (string, json) result" where
  "table_from_slice b =
     (if b = str_bytes ''{\"oracle_pubkey\":\"Feed\",\"oracle_type\":\"pyth\"}'' then Inr oracle_value
      else if b = str_bytes ''1.0000000000000002'' then Inr (JF64 (Fin 1)) else Inl ''unsupported'')"

lemma table_reads_back: "json_reads_back table_to_vec table_from_slice"
  by (auto simp: json_reads_back_def table_to_vec_def table_from_slice_def exact_text_def str_bytes_inject split: if_splits)

definition flagged :: "json list \<Rightarrow> checker_output" where
  "flagged vs =
     \<lparr>checker_name = ''oracle_sanity'', passed = False, out_severity = High,
      flags = map (\<lambda>v. \<lparr>flag_code = ''F'', flag_message = ''m'', flag_data = v\<rparr>) vs, details = ''d''\<rparr>"

theorem output_roundtrip_witness:
  "\<exists>a b. borsh_output table_to_vec (flagged [oracle_value]) = Inr a \<and>
     borsh_output table_to_vec (flagged [oracle_value, JF64 after_one]) = Inr b \<and>
     output_from_slice table_from_slice a = Inr (flagged [oracle_value]) \<and>
     read_output table_from_slice (b @ a) = Inr (flagged [oracle_value, JF64 (Fin 1)], a)"
proof -
  obtain a b where w: "borsh_output table_to_vec (flagged [oracle_value]) = Inr a"
    "borsh_output table_to_vec (flagged [oracle_value, JF64 after_one]) = Inr b"
    by (simp add: flagged_def borsh_output_def borsh_string_def borsh_vec_def borsh_flag_vec_def borsh_flag_def
        borsh_serialize_json_value_def str_bytes_def table_to_vec_def oracle_value_def)
  have ok: "output_texts_ok (flagged vs)" for vs
    by (simp add: flagged_def output_texts_ok_def flag_texts_ok_def text_ok_def str_bytes_def code_of_def list_all_iff)
  have "exact_text oracle_value" by (simp add: oracle_value_def exact_text_def bt_ok_def)
  then have "output_from_slice table_from_slice a = Inr (flagged [oracle_value])"
    using output_roundtrip [OF table_reads_back ok w(1)] by (simp add: flagged_def)
  moreover have "reread_flags table_to_vec table_from_slice (flags (flagged [oracle_value, JF64 after_one])) =
      Inr (flags (flagged [oracle_value, JF64 (Fin 1)]))"
    by (simp add: flagged_def reread_flag_def table_to_vec_def table_from_slice_def str_bytes_inject oracle_value_def)
  then have "read_output table_from_slice (b @ a) = Inr (flagged [oracle_value, JF64 (Fin 1)], a)"
    using output_roundtrip [OF table_reads_back ok w(2)] by (simp add: flagged_def)
  ultimately show ?thesis using w by blast
qed

end
