(* ===== verification/Account_Cache.thy ===== *)
theory Account_Cache
  imports Trace
begin

section \<open>The account cache and the staleness tracker\<close>

text \<open>
  \<^verbatim>\<open>crates/ciel-fork/src/cache.rs\<close> and \<^verbatim>\<open>staleness.rs\<close>. Both read the clock: an operation takes the
  current instant \<open>now\<close> as an argument. The concurrent map behind the cache is an association list;
  each of its operations is atomic, so a read of an expired entry is two steps, the look and the
  removal (\<open>cache_look\<close>, \<open>cache_drop\<close>), which another thread may come between.

  The lemmas show that the cache keeps the map contract for fresh entries, that eager eviction
  never changes what a later read returns, and how the staleness states partition time.
\<close>

subsection \<open>The cache\<close>

record timestamped_account =
  account_of :: account
  inserted_at :: time
  is_monitored :: bool

record account_cache =
  entries :: "(pubkey, timestamped_account) hashmap"
  ttl :: time
  monitored_ttl :: time

definition DEFAULT_TTL_SECS :: nat where "DEFAULT_TTL_SECS = 300"
definition DEFAULT_MONITORED_TTL_SECS :: nat where "DEFAULT_MONITORED_TTL_SECS = 600"

definition account_cache_new :: account_cache where
  "account_cache_new =
     \<lparr>entries = [], ttl = from_secs DEFAULT_TTL_SECS, monitored_ttl = from_secs DEFAULT_MONITORED_TTL_SECS\<rparr>"

definition with_ttl :: "nat \<Rightarrow> nat \<Rightarrow> account_cache" where
  "with_ttl ttl_secs monitored_ttl_secs =
     \<lparr>entries = [], ttl = from_secs ttl_secs, monitored_ttl = from_secs monitored_ttl_secs\<rparr>"

definition effective_ttl :: "account_cache \<Rightarrow> timestamped_account \<Rightarrow> time" where
  "effective_ttl c e = (if is_monitored e then monitored_ttl c else ttl c)"

definition expired :: "time \<Rightarrow> account_cache \<Rightarrow> timestamped_account \<Rightarrow> bool" where
  "expired now c e \<longleftrightarrow> effective_ttl c e < elapsed now (inserted_at e)"

text \<open>What a read sees before it acts: no entry, an expired entry, or the account.\<close>

datatype look = Missing | Stale | Hit account

definition cache_look :: "time \<Rightarrow> pubkey \<Rightarrow> account_cache \<Rightarrow> look" where
  "cache_look now k c =
     (case hm_get (entries c) k of
        None \<Rightarrow> Missing
      | Some e \<Rightarrow> if expired now c e then Stale else Hit (account_of e))"

definition cache_drop :: "pubkey \<Rightarrow> account_cache \<Rightarrow> account_cache" where
  "cache_drop k c = c\<lparr>entries := hm_remove k (entries c)\<rparr>"

definition acache_get :: "time \<Rightarrow> pubkey \<Rightarrow> account_cache \<Rightarrow> account_cache \<times> account option" where
  "acache_get now k c =
     (case cache_look now k c of
        Missing \<Rightarrow> (c, None)
      | Stale \<Rightarrow> (cache_drop k c, None)
      | Hit a \<Rightarrow> (c, Some a))"

definition acache_insert :: "time \<Rightarrow> pubkey \<Rightarrow> account \<Rightarrow> bool \<Rightarrow> account_cache \<Rightarrow> account_cache" where
  "acache_insert now k a monitored c =
     c\<lparr>entries := hm_insert k \<lparr>account_of = a, inserted_at = now, is_monitored = monitored\<rparr> (entries c)\<rparr>"

definition mark_monitored :: "pubkey \<Rightarrow> account_cache \<Rightarrow> account_cache" where
  "mark_monitored k c =
     (case hm_get (entries c) k of
        None \<Rightarrow> c
      | Some e \<Rightarrow> c\<lparr>entries := hm_insert k (e\<lparr>is_monitored := True\<rparr>) (entries c)\<rparr>)"

definition evict_stale :: "time \<Rightarrow> account_cache \<Rightarrow> account_cache \<times> nat" where
  "evict_stale now c =
     (let kept = filter (\<lambda>(k, e). \<not> expired now c e) (entries c)
      in (c\<lparr>entries := kept\<rparr>, length (entries c) - length kept))"

definition acache_len :: "account_cache \<Rightarrow> nat" where
  "acache_len c = length (entries c)"

definition acache_is_empty :: "account_cache \<Rightarrow> bool" where
  "acache_is_empty c \<longleftrightarrow> entries c = []"

definition monitored_keys :: "account_cache \<Rightarrow> pubkey list" where
  "monitored_keys c = map fst (filter (\<lambda>(k, e). is_monitored e) (entries c))"

subsection \<open>The staleness tracker\<close>

datatype staleness_state = Fresh | StaleWarn | StaleTimeout

record staleness_config =
  warn_threshold :: time
  timeout_threshold :: time

definition staleness_config_default :: staleness_config where
  "staleness_config_default = \<lparr>warn_threshold = from_secs 3, timeout_threshold = from_secs 10\<rparr>"

record staleness_tracker =
  last_update :: time
  last_slot :: u64
  staleness_cfg :: staleness_config

definition tracker_new :: "time \<Rightarrow> staleness_config \<Rightarrow> staleness_tracker" where
  "tracker_new now cfg = \<lparr>last_update = now, last_slot = 0, staleness_cfg = cfg\<rparr>"

definition record_update :: "time \<Rightarrow> u64 \<Rightarrow> staleness_tracker \<Rightarrow> staleness_tracker" where
  "record_update now sl t = t\<lparr>last_update := now, last_slot := sl\<rparr>"

definition time_since_last_update :: "time \<Rightarrow> staleness_tracker \<Rightarrow> time" where
  "time_since_last_update now t = elapsed now (last_update t)"

definition staleness_state_at :: "time \<Rightarrow> staleness_tracker \<Rightarrow> staleness_state" where
  "staleness_state_at now t =
     (let el = time_since_last_update now t
      in if timeout_threshold (staleness_cfg t) < el then StaleTimeout
         else if warn_threshold (staleness_cfg t) < el then StaleWarn
         else Fresh)"

subsection \<open>The cache as a map of fresh entries\<close>

text \<open>Keys are distinct, and no entry comes from the future.\<close>

definition cache_ok :: "time \<Rightarrow> account_cache \<Rightarrow> bool" where
  "cache_ok now c \<longleftrightarrow> hm_ok (entries c) \<and> (\<forall>(k, e) \<in> set (entries c). inserted_at e \<le> now)"

definition fresh_entry :: "time \<Rightarrow> account_cache \<Rightarrow> pubkey \<Rightarrow> timestamped_account option" where
  "fresh_entry now c k =
     (case hm_get (entries c) k of None \<Rightarrow> None | Some e \<Rightarrow> if expired now c e then None else Some e)"

lemma acache_get_snd: "snd (acache_get now k c) = map_option account_of (fresh_entry now c k)"
  by (simp add: acache_get_def cache_look_def fresh_entry_def split: option.splits)

lemma expired_entries [simp]: "expired now (c\<lparr>entries := m\<rparr>) e = expired now c e"
  by (simp add: expired_def effective_ttl_def)

lemma fresh_entry_insert:
  "fresh_entry now' (acache_insert now k a mon c) k' =
     (if k' = k
      then (if (if mon then monitored_ttl c else ttl c) < now' - now then None
            else Some \<lparr>account_of = a, inserted_at = now, is_monitored = mon\<rparr>)
      else fresh_entry now' c k')"
  by (auto simp: fresh_entry_def acache_insert_def update_conv' expired_def effective_ttl_def elapsed_def
      split: option.splits)

lemma map_of_filter_snd:
  "distinct (map fst m) \<Longrightarrow>
    map_of (filter (\<lambda>(k, e). P e) m) k = (case map_of m k of None \<Rightarrow> None | Some e \<Rightarrow> if P e then Some e else None)"
  by (induction m) (auto simp: map_of_eq_None_iff image_iff split: option.splits)

lemma expired_mono: "expired now c e \<Longrightarrow> now \<le> now' \<Longrightarrow> expired now' c e"
  by (auto simp: expired_def elapsed_def)

lemma fresh_entry_evict:
  "hm_ok (entries c) \<Longrightarrow> now \<le> now' \<Longrightarrow> fresh_entry now' (fst (evict_stale now c)) k = fresh_entry now' c k"
  by (auto simp: fresh_entry_def evict_stale_def Let_def hm_ok_def map_of_filter_snd
      dest: expired_mono split: option.splits)

lemma fresh_entry_get:
  "hm_ok (entries c) \<Longrightarrow> now \<le> now' \<Longrightarrow> fresh_entry now' (fst (acache_get now k c)) k' = fresh_entry now' c k'"
  by (auto simp: fresh_entry_def acache_get_def cache_look_def cache_drop_def delete_conv'
      dest: expired_mono split: option.splits)

lemma hm_ok_ops:
  assumes "hm_ok (entries c)"
  shows "hm_ok (entries (acache_insert now k a mon c))" "hm_ok (entries (mark_monitored k c))"
    "hm_ok (entries (fst (acache_get now k c)))" "hm_ok (entries (fst (evict_stale now c)))"
  using assms
  by (auto simp: acache_insert_def mark_monitored_def acache_get_def cache_drop_def cache_look_def
      evict_stale_def Let_def hm.invar_put hm.invar_del hm_ok_def distinct_map_filter
      distinct_update distinct_delete split: option.splits)

text \<open>A cached account lives exactly its time to live. After an insertion at \<open>now\<close>, a read of the
  key at a later instant returns the account if and only if no more than its time to live has
  passed (the longer one for a monitored account), and reads of other keys are unaffected.\<close>

theorem cache_read_after_insert:
  "snd (acache_get (now + d) k' (acache_insert now k a mon c)) =
     (if k' = k then (if d \<le> (if mon then monitored_ttl c else ttl c) then Some a else None)
      else snd (acache_get (now + d) k' c))"
  by (simp add: acache_get_snd fresh_entry_insert)

text \<open>Evicting expired entries, and the eviction a read performs, change no later read of any key;
  the eviction reports the number of entries it removed.\<close>

theorem cache_eviction_transparent:
  assumes "hm_ok (entries c)" "now \<le> now'"
  shows "snd (acache_get now' k (fst (evict_stale now c))) = snd (acache_get now' k c) \<and>
    snd (acache_get now' k (fst (acache_get now j c))) = snd (acache_get now' k c) \<and>
    acache_len (fst (evict_stale now c)) + snd (evict_stale now c) = acache_len c"
proof -
  have "length (filter (\<lambda>(k, e). \<not> expired now c e) (entries c)) \<le> length (entries c)"
    by (rule length_filter_le)
  then show ?thesis
    using fresh_entry_evict [OF assms] fresh_entry_get [OF assms]
    by (simp add: acache_get_snd acache_len_def evict_stale_def Let_def)
qed

text \<open>The read of an expired entry is not atomic: an account inserted by another thread between the
  look and the removal is removed with it, so the next read misses although the account was
  inserted just before.\<close>

theorem cache_read_drops_concurrent_insert:
  assumes "cache_look now k c = Stale"
  shows "acache_get now k c = (cache_drop k c, None) \<and>
    snd (acache_get now k (cache_drop k (acache_insert now k a mon c))) = None \<and>
    snd (acache_get now k (acache_insert now k a mon (cache_drop k c))) = Some a"
proof -
  have "acache_get now k c = (cache_drop k c, None)" using assms by (simp add: acache_get_def)
  then show ?thesis
    by (simp add: acache_get_snd fresh_entry_def cache_drop_def acache_insert_def delete_conv'
        update_conv' expired_def effective_ttl_def elapsed_def)
qed

definition sample_account :: account where
  "sample_account = \<lparr>lamports = 5, acct_data = [], acct_owner = pubkey_default, executable = False, rent_epoch = 0\<rparr>"

theorem cache_eviction_transparent_witness:
  "hm_ok (entries (acache_insert 0 pubkey_default sample_account False (with_ttl 1 2))) \<and>
   snd (acache_get 7 pubkey_default
     (fst (evict_stale 5 (acache_insert 0 pubkey_default sample_account False (with_ttl 1 2))))) =
   snd (acache_get 7 pubkey_default (acache_insert 0 pubkey_default sample_account False (with_ttl 1 2)))"
proof -
  have "hm_ok (entries (acache_insert 0 pubkey_default sample_account False (with_ttl 1 2)))"
    by (simp add: acache_insert_def with_ttl_def hm_ok_def)
  then show ?thesis using cache_eviction_transparent [of _ 5 7] by simp
qed

theorem cache_read_drops_concurrent_insert_witness:
  "cache_look (from_secs 2) pubkey_default
     (acache_insert 0 pubkey_default sample_account False (with_ttl 1 2)) = Stale \<and>
   snd (acache_get (from_secs 2) pubkey_default (cache_drop pubkey_default
     (acache_insert (from_secs 2) pubkey_default sample_account False
       (acache_insert 0 pubkey_default sample_account False (with_ttl 1 2))))) = None"
proof -
  have "cache_look (from_secs 2) pubkey_default
     (acache_insert 0 pubkey_default sample_account False (with_ttl 1 2)) = Stale"
    by (simp add: cache_look_def acache_insert_def with_ttl_def expired_def effective_ttl_def
        elapsed_def from_secs_def)
  then show ?thesis using cache_read_drops_concurrent_insert by blast
qed

subsection \<open>Staleness over time\<close>

lemma staleness_after_update:
  "staleness_state_at (now + d) (record_update now sl t) =
     (if timeout_threshold (staleness_cfg t) < d then StaleTimeout
      else if warn_threshold (staleness_cfg t) < d then StaleWarn else Fresh)"
  by (simp add: staleness_state_at_def time_since_last_update_def record_update_def elapsed_def)

end
