(* ===== verification/Rpc.thy ===== *)
theory Rpc
  imports Trace
begin

section \<open>RPC failover and the circuit breaker\<close>

text \<open>
  \<^verbatim>\<open>crates/ciel-fork/src/rpc.rs\<close> with the error type of \<^verbatim>\<open>lib.rs\<close>. The breaker is a state machine over
  timed operations; the manager's calls consult it, try the primary provider within 100 ms and
  then the fallback. The lock of the breaker is held for one operation at a time, so between the
  two operations of one call others may run: each call takes their effect (\<open>others\<close>) as an argument.
  A provider is a parameter: what it replies and after how long.

  The step relation \<open>cb_step\<close> has one rule per operation and one for the passing of time; the lemmas
  are an invariant of all reachable breakers by rule induction and, from it, when the breaker
  opens, stays open and recovers.
\<close>

subsection \<open>Errors\<close>

datatype fork_error =
    RpcError string
  | AccountNotFound string
  | LiteSvmError string
  | CircuitOpen
  | ConfigError string
  | ForkTimeout
  | AllProvidersDown
  | GeyserError string

subsection \<open>The circuit breaker\<close>

definition FAILURE_THRESHOLD :: nat where "FAILURE_THRESHOLD = 5"
definition FAILURE_WINDOW :: time where "FAILURE_WINDOW = from_secs 10"
definition OPEN_DURATION :: time where "OPEN_DURATION = from_secs 30"
definition FAILOVER_TIMEOUT :: time where "FAILOVER_TIMEOUT = from_millis 100"

datatype circuit_state = Closed | Open | HalfOpen

record circuit_breaker =
  cb_state :: circuit_state
  failures :: "time list"
  failure_threshold :: nat
  failure_window :: time
  open_duration :: time
  opened_at :: "time option"

definition circuit_breaker_new :: circuit_breaker where
  "circuit_breaker_new =
     \<lparr>cb_state = Closed, failures = [], failure_threshold = FAILURE_THRESHOLD,
      failure_window = FAILURE_WINDOW, open_duration = OPEN_DURATION, opened_at = None\<rparr>"

definition is_available :: "time \<Rightarrow> circuit_breaker \<Rightarrow> circuit_breaker \<times> bool" where
  "is_available now cb =
     (case cb_state cb of
        Closed \<Rightarrow> (cb, True)
      | HalfOpen \<Rightarrow> (cb, True)
      | Open \<Rightarrow>
          (case opened_at cb of
             Some t \<Rightarrow>
               if open_duration cb \<le> elapsed now t then (cb\<lparr>cb_state := HalfOpen\<rparr>, True) else (cb, False)
           | None \<Rightarrow> (cb, False)))"

definition record_success :: "circuit_breaker \<Rightarrow> circuit_breaker" where
  "record_success cb = cb\<lparr>cb_state := Closed, failures := [], opened_at := None\<rparr>"

text \<open>The ages of the recorded failures are taken at the one instant at which the new one is recorded.\<close>

definition record_failure :: "time \<Rightarrow> circuit_breaker \<Rightarrow> circuit_breaker" where
  "record_failure now cb =
     (case cb_state cb of
        HalfOpen \<Rightarrow> cb\<lparr>cb_state := Open, opened_at := Some now\<rparr>
      | Closed \<Rightarrow>
          (let fs = dropWhile (\<lambda>t. failure_window cb < elapsed now t) (failures cb) @ [now]
           in if failure_threshold cb \<le> length fs
              then cb\<lparr>failures := fs, cb_state := Open, opened_at := Some now\<rparr>
              else cb\<lparr>failures := fs\<rparr>)
      | Open \<Rightarrow> cb\<lparr>opened_at := Some now\<rparr>)"

subsection \<open>The manager\<close>

text \<open>A reply of a provider: how long it takes, and the response or the error.\<close>

type_synonym 'a reply = "time \<times> (string, 'a) result"

text \<open>
  The part all four calls share: ask the breaker, call the primary under the failover timeout,
  record the outcome. \<open>None\<close> means that the fallback is next. \<open>t0\<close> and \<open>t1\<close> are the instants of
  the two uses of the lock.
\<close>

definition try_primary ::
    "time \<Rightarrow> time \<Rightarrow> (circuit_breaker \<Rightarrow> circuit_breaker) \<Rightarrow> 'a reply \<Rightarrow> circuit_breaker \<Rightarrow>
     circuit_breaker \<times> 'a option" where
  "try_primary t0 t1 others reply cb =
     (let (cb1, available) = is_available t0 cb; cb2 = others cb1
      in if \<not> available then (cb1, None)
         else if FAILOVER_TIMEOUT < fst reply then (record_failure t1 cb2, None)
         else (case snd reply of
                 Inr x \<Rightarrow> (record_success cb2, Some x)
               | Inl e \<Rightarrow> (record_failure t1 cb2, None)))"

definition fetch_account ::
    "time \<Rightarrow> time \<Rightarrow> (circuit_breaker \<Rightarrow> circuit_breaker) \<Rightarrow>
     (pubkey \<Rightarrow> account option reply) \<Rightarrow> (pubkey \<Rightarrow> (string, account option) result) \<Rightarrow>
     pubkey \<Rightarrow> circuit_breaker \<Rightarrow> circuit_breaker \<times> (fork_error, account) result" where
  "fetch_account t0 t1 others primary fallback k cb =
     (case try_primary t0 t1 others (primary k) cb of
        (cb', Some (Some a)) \<Rightarrow> (cb', Inr a)
      | (cb', Some None) \<Rightarrow> (cb', Inl (AccountNotFound (pk_text k)))
      | (cb', None) \<Rightarrow>
          (cb', case fallback k of
                  Inr (Some a) \<Rightarrow> Inr a
                | Inr None \<Rightarrow> Inl (AccountNotFound (pk_text k))
                | Inl e \<Rightarrow> Inl AllProvidersDown))"

definition fetch_multiple_accounts ::
    "time \<Rightarrow> time \<Rightarrow> (circuit_breaker \<Rightarrow> circuit_breaker) \<Rightarrow>
     (pubkey list \<Rightarrow> account option list reply) \<Rightarrow> (pubkey list \<Rightarrow> (string, account option list) result) \<Rightarrow>
     pubkey list \<Rightarrow> circuit_breaker \<Rightarrow> circuit_breaker \<times> (fork_error, account option list) result" where
  "fetch_multiple_accounts t0 t1 others primary fallback ks cb =
     (case try_primary t0 t1 others (primary ks) cb of
        (cb', Some v) \<Rightarrow> (cb', Inr v)
      | (cb', None) \<Rightarrow> (cb', map_err (\<lambda>e. AllProvidersDown) (fallback ks)))"

definition get_slot ::
    "time \<Rightarrow> time \<Rightarrow> (circuit_breaker \<Rightarrow> circuit_breaker) \<Rightarrow> u64 reply \<Rightarrow> (string, u64) result \<Rightarrow>
     circuit_breaker \<Rightarrow> circuit_breaker \<times> (fork_error, u64) result" where
  "get_slot t0 t1 others primary fallback cb =
     (case try_primary t0 t1 others primary cb of
        (cb', Some s) \<Rightarrow> (cb', Inr s)
      | (cb', None) \<Rightarrow> (cb', map_err RpcError fallback))"

definition get_latest_blockhash ::
    "time \<Rightarrow> time \<Rightarrow> (circuit_breaker \<Rightarrow> circuit_breaker) \<Rightarrow> (bytes \<times> u64) reply \<Rightarrow>
     (string, bytes \<times> u64) result \<Rightarrow> circuit_breaker \<Rightarrow> circuit_breaker \<times> (fork_error, bytes) result" where
  "get_latest_blockhash t0 t1 others primary fallback cb =
     (case try_primary t0 t1 others primary cb of
        (cb', Some (h, last_valid)) \<Rightarrow> (cb', Inr h)
      | (cb', None) \<Rightarrow> (cb', bind_result (map_err RpcError fallback) (\<lambda>(h, last_valid). Inr h)))"

text \<open>\<^verbatim>\<open>from_env\<close>: the two provider URLs from the environment.\<close>

definition rpc_urls_from_env :: "(string \<Rightarrow> string option) \<Rightarrow> (fork_error, string \<times> string) result" where
  "rpc_urls_from_env env =
     bind_result (ok_or (ConfigError ''HELIUS_API_KEY not set'') (env ''HELIUS_API_KEY'')) (\<lambda>helius_key.
     Inr (''https://mainnet.helius-rpc.com/?api-key='' @ helius_key,
          case env ''TRITON_API_KEY'' of
            Some triton_key \<Rightarrow> ''https://api.triton.one/'' @ triton_key
          | None \<Rightarrow> ''https://api.mainnet-beta.solana.com''))"

subsection \<open>The breaker as a state machine\<close>

inductive cb_step :: "time \<times> circuit_breaker \<Rightarrow> time \<times> circuit_breaker \<Rightarrow> bool" where
  tick: "now \<le> now' \<Longrightarrow> cb_step (now, cb) (now', cb)"
| ask: "cb_step (now, cb) (now, fst (is_available now cb))"
| succeed: "cb_step (now, cb) (now, record_success cb)"
| fail: "cb_step (now, cb) (now, record_failure now cb)"

inductive cb_reachable :: "time \<times> circuit_breaker \<Rightarrow> bool" where
  start: "cb_reachable (now, circuit_breaker_new)"
| step: "cb_reachable s \<Longrightarrow> cb_step s s' \<Longrightarrow> cb_reachable s'"

inductive_cases cb_stepE: "cb_step (now, cb) s'"

text \<open>
  The failures are in time order and not in the future; a closed breaker has fewer than five of
  them and no opening time, an open or half-open one has the time of its last opening, and a
  half-open one was opened at least 30 s ago.
\<close>

definition cb_inv :: "time \<Rightarrow> circuit_breaker \<Rightarrow> bool" where
  "cb_inv now cb \<longleftrightarrow>
     failure_threshold cb = 5 \<and> failure_window cb = from_secs 10 \<and> open_duration cb = from_secs 30 \<and>
     sorted (failures cb) \<and> (\<forall>t \<in> set (failures cb). t \<le> now) \<and> length (failures cb) \<le> 5 \<and>
     (case cb_state cb of
        Closed \<Rightarrow> length (failures cb) < 5 \<and> opened_at cb = None
      | Open \<Rightarrow> (\<exists>t. opened_at cb = Some t \<and> t \<le> now)
      | HalfOpen \<Rightarrow> (\<exists>t. opened_at cb = Some t \<and> t + from_secs 30 \<le> now))"

lemmas cb_defaults = FAILURE_THRESHOLD_def FAILURE_WINDOW_def OPEN_DURATION_def

lemma cb_inv_new: "cb_inv now circuit_breaker_new"
  by (simp add: cb_inv_def circuit_breaker_new_def cb_defaults)

lemma cb_inv_tick: "cb_inv now cb \<Longrightarrow> now \<le> now' \<Longrightarrow> cb_inv now' cb"
  by (auto simp: cb_inv_def split: circuit_state.splits)

lemma cb_inv_ask: "cb_inv now cb \<Longrightarrow> cb_inv now (fst (is_available now cb))"
  by (cases "cb_state cb") (auto simp: cb_inv_def is_available_def elapsed_def split: option.splits)

lemma cb_inv_success: "cb_inv now cb \<Longrightarrow> cb_inv now (record_success cb)"
  by (simp add: cb_inv_def record_success_def)

lemma sorted_dropWhile_snoc:
  assumes "sorted ts" "\<forall>t \<in> set ts. t \<le> now"
  shows "sorted (dropWhile P ts @ [now])" "\<forall>t \<in> set (dropWhile P ts @ [now]). t \<le> now"
  using assms sorted_wrt_drop [of "(\<le>)" ts] dropWhile_eq_drop [of P ts]
  by (auto simp: sorted_append dest: set_dropWhileD in_set_dropD)

lemma cb_inv_failure: 
  assumes "cb_inv now cb"
  shows "cb_inv now (record_failure now cb)"
proof (cases "cb_state cb")
  case Closed
  have "length (dropWhile (\<lambda>t. failure_window cb < elapsed now t) (failures cb)) \<le> length (failures cb)"
    by (rule length_dropWhile_le)
  moreover have "sorted (failures cb)" "\<forall>t \<in> set (failures cb). t \<le> now"
    using assms by (simp_all add: cb_inv_def)
  note sorted_dropWhile_snoc [OF this]
  ultimately show ?thesis
    using assms Closed by (simp add: cb_inv_def record_failure_def Let_def)
qed (use assms in \<open>auto simp: cb_inv_def record_failure_def\<close>)

lemma cb_inv_reachable: "cb_reachable s \<Longrightarrow> cb_inv (fst s) (snd s)"
proof (induction rule: cb_reachable.induct)
  case (start now)
  then show ?case by (simp add: cb_inv_new)
next
  case (step s s')
  then show ?case
    by (cases s) (auto elim!: cb_stepE simp: cb_inv_tick cb_inv_ask cb_inv_success cb_inv_failure)
qed

text \<open>On a list in time order the pruning keeps exactly the failures inside the window.\<close>

lemma prune_filter:
  "sorted ts \<Longrightarrow> dropWhile (\<lambda>t. w < elapsed now t) ts = filter (\<lambda>t. elapsed now t \<le> w) ts"
proof (induction ts)
  case (Cons t ts)
  then show ?case
    by (cases "w < elapsed now t") (auto simp: elapsed_def not_less intro!: filter_True [symmetric])
qed simp

subsection \<open>The abstract breaker\<close>

text \<open>
  The specification keeps every failure since the last recovery and opens when five of them lie
  within the last ten seconds; it never prunes.
\<close>

record breaker_spec =
  sp_state :: circuit_state
  sp_history :: "time list"
  sp_opened :: time

definition spec_new :: breaker_spec where
  "spec_new = \<lparr>sp_state = Closed, sp_history = [], sp_opened = 0\<rparr>"

definition spec_ask :: "time \<Rightarrow> breaker_spec \<Rightarrow> breaker_spec \<times> bool" where
  "spec_ask now sp =
     (if sp_state sp = Open \<and> sp_opened sp + from_secs 30 \<le> now then (sp\<lparr>sp_state := HalfOpen\<rparr>, True)
      else (sp, sp_state sp \<noteq> Open))"

definition spec_success :: "breaker_spec \<Rightarrow> breaker_spec" where
  "spec_success sp = sp\<lparr>sp_state := Closed, sp_history := []\<rparr>"

definition spec_failure :: "time \<Rightarrow> breaker_spec \<Rightarrow> breaker_spec" where
  "spec_failure now sp =
     (let h = sp_history sp @ [now]
      in if sp_state sp = Closed \<and> length (filter (\<lambda>t. now \<le> t + from_secs 10) h) < 5
         then sp\<lparr>sp_history := h\<rparr>
         else sp\<lparr>sp_history := h, sp_state := Open, sp_opened := now\<rparr>)"

datatype cb_event = Ask | Succeed | Fail

fun cb_run :: "(time \<times> cb_event) list \<Rightarrow> circuit_breaker \<Rightarrow> circuit_breaker \<times> bool list" where
  "cb_run [] cb = (cb, [])"
| "cb_run ((now, Ask) # evs) cb =
     (let (cb1, b) = is_available now cb; (cb2, bs) = cb_run evs cb1 in (cb2, b # bs))"
| "cb_run ((now, Succeed) # evs) cb = cb_run evs (record_success cb)"
| "cb_run ((now, Fail) # evs) cb = cb_run evs (record_failure now cb)"

fun spec_run :: "(time \<times> cb_event) list \<Rightarrow> breaker_spec \<Rightarrow> breaker_spec \<times> bool list" where
  "spec_run [] sp = (sp, [])"
| "spec_run ((now, Ask) # evs) sp =
     (let (sp1, b) = spec_ask now sp; (sp2, bs) = spec_run evs sp1 in (sp2, b # bs))"
| "spec_run ((now, Succeed) # evs) sp = spec_run evs (spec_success sp)"
| "spec_run ((now, Fail) # evs) sp = spec_run evs (spec_failure now sp)"

text \<open>
  The simulation: the same state, the opening time when not closed, and when closed the recorded
  failures are those of the history that were inside the window at some instant \<open>u\<close> up to now.
\<close>

definition simulates :: "time \<Rightarrow> breaker_spec \<Rightarrow> circuit_breaker \<Rightarrow> bool" where
  "simulates now sp cb \<longleftrightarrow>
     cb_inv now cb \<and> sp_state sp = cb_state cb \<and>
     (cb_state cb \<noteq> Closed \<longrightarrow> opened_at cb = Some (sp_opened sp)) \<and>
     (cb_state cb = Closed \<longrightarrow>
        (\<exists>u \<le> now. failures cb = filter (\<lambda>t. u \<le> t + from_secs 10) (sp_history sp)))"

lemma simulates_new: "simulates now spec_new circuit_breaker_new"
  using cb_inv_new [of now] by (auto simp: simulates_def spec_new_def circuit_breaker_new_def)

lemma simulates_tick: "simulates now sp cb \<Longrightarrow> now \<le> now' \<Longrightarrow> simulates now' sp cb"
  by (auto simp: simulates_def cb_inv_tick dest: order_trans)

lemma simulates_ask:
  assumes "simulates now sp cb"
  shows "snd (spec_ask now sp) = snd (is_available now cb) \<and>
    simulates now (fst (spec_ask now sp)) (fst (is_available now cb))"
proof -
  have i: "cb_inv now cb" "cb_inv now (fst (is_available now cb))"
    using assms cb_inv_ask by (auto simp: simulates_def)
  then show ?thesis
    using assms by (cases "cb_state cb") (auto simp: simulates_def spec_ask_def is_available_def elapsed_def cb_inv_def)
qed

lemma simulates_success: "simulates now sp cb \<Longrightarrow> simulates now (spec_success sp) (record_success cb)"
  using cb_inv_success [of now cb] by (auto simp: simulates_def spec_success_def record_success_def)

lemma simulates_failure:
  assumes "simulates now sp cb"
  shows "simulates now (spec_failure now sp) (record_failure now cb)"
proof -
  have i: "cb_inv now cb" "cb_inv now (record_failure now cb)"
    using assms cb_inv_failure by (auto simp: simulates_def)
  show ?thesis
  proof (cases "cb_state cb")
    case Closed
    obtain u where u: "u \<le> now" "failures cb = filter (\<lambda>t. u \<le> t + from_secs 10) (sp_history sp)"
      using assms Closed by (auto simp: simulates_def)
    have w: "sorted (failures cb)" "failure_window cb = from_secs 10"
      using i(1) by (simp_all add: cb_inv_def)
    have "dropWhile (\<lambda>t. failure_window cb < elapsed now t) (failures cb) =
        filter (\<lambda>t. now \<le> t + from_secs 10) (failures cb)"
      unfolding prune_filter [OF w(1)] w(2) by (intro filter_cong) (auto simp: elapsed_def)
    also have "\<dots> = filter (\<lambda>t. now \<le> t + from_secs 10) (sp_history sp)"
      using u(1) unfolding u(2) filter_filter by (intro filter_cong) auto
    finally have "dropWhile (\<lambda>t. failure_window cb < elapsed now t) (failures cb) @ [now] =
        filter (\<lambda>t. now \<le> t + from_secs 10) (sp_history sp @ [now])" by simp
    then show ?thesis
      using assms i Closed
      by (auto simp: simulates_def spec_failure_def record_failure_def Let_def cb_inv_def not_less)
  qed (use assms i in \<open>auto simp: simulates_def spec_failure_def record_failure_def Let_def\<close>)
qed

lemma run_refines:
  "simulates now sp cb \<Longrightarrow> sorted (now # map fst evs) \<Longrightarrow>
    snd (spec_run evs sp) = snd (cb_run evs cb) \<and> sp_state (fst (spec_run evs sp)) = cb_state (fst (cb_run evs cb))"
proof (induction evs arbitrary: now sp cb)
  case Nil
  then show ?case by (simp add: simulates_def)
next
  case (Cons ev evs)
  obtain t e where ev: "ev = (t, e)" by (cases ev)
  have t: "simulates t sp cb" "sorted (t # map fst evs)"
    using Cons.prems simulates_tick by (auto simp: ev)
  then show ?case
    using Cons.IH [OF simulates_success [OF t(1)] t(2)] Cons.IH [OF simulates_failure [OF t(1)] t(2)]
      Cons.IH [OF simulates_ask [OF t(1), THEN conjunct2] t(2)] simulates_ask [OF t(1)]
    by (cases e) (simp_all add: ev Let_def case_prod_beta')
qed

subsection \<open>Properties\<close>

text \<open>In every state the breaker can reach by any interleaving of availability checks, successes,
  failures and the passing of time, its failures are in order and at most five, a closed breaker
  holds fewer than five, and a breaker that is open or half-open knows when it was opened, at
  least 30 s ago when it is half-open.\<close>

theorem breaker_invariant:
  assumes "cb_reachable (now, cb)"
  shows "cb_inv now cb"
  using cb_inv_reachable [OF assms] by simp

text \<open>C39: The breaker with its pruned window implements the breaker that remembers every failure. For
  any operations at instants in order, each availability check gives the same answer as the
  abstract breaker, which opens exactly when five failures since the last recovery lie within ten
  seconds, and both end in the same state.\<close>

theorem breaker_refines_spec:
  assumes "sorted (map fst evs)"
  shows "snd (cb_run evs circuit_breaker_new) = snd (spec_run evs spec_new) \<and>
    cb_state (fst (cb_run evs circuit_breaker_new)) = sp_state (fst (spec_run evs spec_new))"
  using run_refines [OF simulates_new, of 0 evs] assms by simp

text \<open>An open breaker recovers. From any reachable open state the primary is refused before 30 s have
  passed since the opening and tried after; a success of the probe then closes the breaker with no
  failure remembered, and a failed probe opens it for another 30 s.\<close>

theorem breaker_recovers:
  assumes "cb_reachable (now, cb)" "cb_state cb = Open" "now \<le> now'"
  shows "\<exists>t \<le> now. opened_at cb = Some t \<and>
    (now' < t + from_secs 30 \<longrightarrow> is_available now' cb = (cb, False)) \<and>
    (t + from_secs 30 \<le> now' \<longrightarrow>
       (let cb' = fst (is_available now' cb)
        in snd (is_available now' cb) \<and> cb_state cb' = HalfOpen \<and>
           cb_state (record_success cb') = Closed \<and> failures (record_success cb') = [] \<and>
           cb_state (record_failure now' cb') = Open \<and>
           (\<forall>d < from_secs 30. \<not> snd (is_available (now' + d) (record_failure now' cb')))))"
proof -
  have "cb_inv now cb" using cb_inv_reachable [OF assms(1)] by simp
  then obtain t where "opened_at cb = Some t" "t \<le> now" "open_duration cb = from_secs 30"
    using assms(2) by (auto simp: cb_inv_def)
  then show ?thesis
    using assms(2,3)
    by (auto simp: is_available_def elapsed_def record_success_def record_failure_def Let_def)
qed

text \<open>A half-open breaker does not limit the probes: once the 30 s are over, any number of concurrent
  callers is sent to the primary, not one.\<close>

theorem half_open_admits_every_caller:
  assumes "cb_reachable (now, cb)" "cb_state cb = Open" "opened_at cb = Some t" "t + from_secs 30 \<le> now"
  shows "snd (cb_run (replicate n (now, Ask)) cb) = replicate n True"
proof -
  have half: "snd (cb_run (replicate n (now, Ask)) c) = replicate n True" if "cb_state c = HalfOpen" for c n
    using that by (induction n) (simp_all add: is_available_def case_prod_beta')
  have "cb_inv now cb" using cb_inv_reachable [OF assms(1)] by simp
  then have "is_available now cb = (cb\<lparr>cb_state := HalfOpen\<rparr>, True)"
    using assms(2-4) by (auto simp: is_available_def elapsed_def cb_inv_def)
  then show ?thesis
    by (cases n) (simp_all add: half case_prod_beta')
qed

text \<open>A fetch fails in two ways only: the account does not exist according to the provider that
  answered, or both providers are down. It returns \<^verbatim>\<open>AllProvidersDown\<close> exactly when the primary was
  not tried or did not answer within 100 ms, and the fallback failed; a refused primary has no
  influence on the result.\<close>

theorem fetch_account_outcomes:
  "(snd (fetch_account t0 t1 others primary fallback k cb) = Inl e \<longrightarrow>
      e = AccountNotFound (pk_text k) \<or> e = AllProvidersDown) \<and>
   (snd (fetch_account t0 t1 others primary fallback k cb) = Inl AllProvidersDown \<longleftrightarrow>
      (\<not> snd (is_available t0 cb) \<or> FAILOVER_TIMEOUT < fst (primary k) \<or> isl (snd (primary k))) \<and>
      isl (fallback k)) \<and>
   (\<not> snd (is_available t0 cb) \<longrightarrow>
      fetch_account t0 t1 others primary fallback k cb = fetch_account t0 t1 others primary' fallback k cb)"
  by (auto simp: fetch_account_def try_primary_def Let_def split: prod.splits sum.splits option.splits)

subsection \<open>A breaker that trips\<close>

definition tripped :: circuit_breaker where
  "tripped = fst (cb_run (replicate 5 (0, Fail)) circuit_breaker_new)"

lemma tripped_eq:
  "tripped = circuit_breaker_new\<lparr>failures := [0, 0, 0, 0, 0], cb_state := Open, opened_at := Some 0\<rparr>"
  by (simp add: tripped_def circuit_breaker_new_def cb_defaults record_failure_def elapsed_def
      numeral_eq_Suc)

lemma tripped_reachable: "cb_reachable (now, tripped)"
proof -
  have fail: "cb_reachable (0, record_failure 0 cb)" if "cb_reachable (0, cb)" for cb
    using that cb_reachable.step cb_step.fail by blast
  have "cb_reachable (0, tripped)"
    unfolding tripped_def by (simp add: numeral_eq_Suc) (intro fail cb_reachable.start)
  then show ?thesis using cb_reachable.step cb_step.tick by blast
qed

lemmas tripped_simps = tripped_eq circuit_breaker_new_def

theorem breaker_invariant_witness: "cb_reachable (3, tripped) \<and> cb_inv 3 tripped"
  using breaker_invariant [OF tripped_reachable] tripped_reachable by blast

theorem breaker_refines_spec_witness:
  "sorted (map fst [(1 :: time, Fail), (2, Ask), (3, Succeed), (4, Ask)]) \<and>
   snd (cb_run [(1, Fail), (2, Ask), (3, Succeed), (4, Ask)] circuit_breaker_new) =
   snd (spec_run [(1, Fail), (2, Ask), (3, Succeed), (4, Ask)] spec_new)"
  using breaker_refines_spec [of "[(1, Fail), (2, Ask), (3, Succeed), (4, Ask)]"] by simp

theorem breaker_recovers_witness:
  "cb_reachable (0, tripped) \<and> cb_state tripped = Open \<and> snd (is_available (from_secs 31) tripped)"
proof -
  have 1: "cb_state tripped = Open" "opened_at tripped = Some 0" by (simp_all add: tripped_simps)
  show ?thesis
    using breaker_recovers [OF tripped_reachable 1(1), of 0 "from_secs 31"] 1 tripped_reachable
    by (auto simp: Let_def from_secs_def)
qed

theorem half_open_admits_every_caller_witness:
  "cb_reachable (from_secs 31, tripped) \<and>
   snd (cb_run (replicate 3 (from_secs 31, Ask)) tripped) = replicate 3 True"
proof -
  have 1: "cb_state tripped = Open" "opened_at tripped = Some 0" by (simp_all add: tripped_simps)
  show ?thesis
    using half_open_admits_every_caller [OF tripped_reachable 1, of "from_secs 31" 3] tripped_reachable
    by (simp add: from_secs_def)
qed

theorem fetch_account_outcomes_witness:
  "\<not> snd (is_available 0 tripped) \<and>
   fetch_account 0 0 id (\<lambda>k. (0, Inl ''down'')) (\<lambda>k. Inl ''down'') pubkey_default tripped =
   fetch_account 0 0 id (\<lambda>k. (0, Inr None)) (\<lambda>k. Inl ''down'') pubkey_default tripped"
proof -
  have "\<not> snd (is_available 0 tripped)"
    by (simp add: tripped_simps is_available_def elapsed_def cb_defaults from_secs_def)
  then show ?thesis using fetch_account_outcomes by blast
qed

end
