(* ===== verification/Executor.thy ===== *)
theory Executor
  imports Account_Cache Rpc
begin

section \<open>The fork simulator and the executor\<close>

text \<open>
  \<^verbatim>\<open>crates/ciel-fork/src/simulator.rs\<close> and \<^verbatim>\<open>executor.rs\<close>: loading accounts into the fork through the
  cache and the RPC manager, and running a transaction to a trace. LiteSVM is a parameter
  (\<open>svm_ops\<close>): setting and reading an account, simulating a transaction, and the two halves of the
  bincode conversion of the transaction. The network (\<open>network\<close>) gives the replies to each RPC call.

  A panic of the source is \<open>None\<close>. The lemmas show what of a trace depends on the transaction alone,
  which accounts become oracle reads, when recorded changes are complete, and when a batch load
  returns.
\<close>

subsection \<open>LiteSVM\<close>

text \<open>An inner instruction is a compiled instruction with its stack height.\<close>

record sim_meta =
  inner_instructions :: "(compiled_instruction \<times> u8) list list"
  meta_logs :: "string list"
  meta_compute_units :: u64
  meta_fee :: u64

datatype sim_result = SimOk sim_meta "(pubkey \<times> account) list" | SimFailed string sim_meta

record ('svm, 'vtx) svm_ops =
  svm_set_account :: "pubkey \<Rightarrow> account \<Rightarrow> 'svm \<Rightarrow> (string, 'svm) result"
  svm_get_account :: "'svm \<Rightarrow> pubkey \<Rightarrow> account option"
  svm_simulate :: "'svm \<Rightarrow> 'vtx \<Rightarrow> sim_result"
  tx_serialize :: "transaction \<Rightarrow> (string, bytes) result"
  vtx_deserialize :: "bytes \<Rightarrow> (string, 'vtx) result"

subsection \<open>The simulator\<close>

record 'svm fork_simulator =
  svm :: 'svm
  cache :: account_cache
  rpc :: "circuit_breaker option" \<comment> \<open>the RPC manager's state; \<open>None\<close> when offline\<close>
  pinned_slot :: u64
  pinned_blockhash :: bytes

text \<open>The replies of the two providers to one call, with the instants of the breaker's lock.\<close>

record network =
  net_t0 :: time
  net_t1 :: time
  net_others :: "circuit_breaker \<Rightarrow> circuit_breaker"
  net_account :: "pubkey \<Rightarrow> account option reply"
  net_account_fallback :: "pubkey \<Rightarrow> (string, account option) result"
  net_multi :: "pubkey list \<Rightarrow> account option list reply"
  net_multi_fallback :: "pubkey list \<Rightarrow> (string, account option list) result"
  net_slot :: "u64 reply"
  net_slot_fallback :: "(string, u64) result"
  net_hash :: "(bytes \<times> u64) reply"
  net_hash_fallback :: "(string, bytes \<times> u64) result"

text \<open>\<open>sysvar\<close> is the table of sysvar ids of the Solana SDK.\<close>

definition SYSVAR_IDS :: "(string \<Rightarrow> pubkey) \<Rightarrow> (string \<times> pubkey) list" where
  "SYSVAR_IDS sysvar =
     [(''Clock'', sysvar ''clock''), (''Rent'', sysvar ''rent''), (''SlotHashes'', sysvar ''slot_hashes''),
      (''RecentBlockhashes'', sysvar ''recent_blockhashes''),
      (''EpochSchedule'', sysvar ''epoch_schedule''), (''StakeHistory'', sysvar ''stake_history'')]"

definition hash_default :: bytes where "hash_default = replicate 32 0"

definition new_offline :: "'svm \<Rightarrow> 'svm fork_simulator" where
  "new_offline fresh_svm =
     \<lparr>svm = fresh_svm, cache = account_cache_new, rpc = None, pinned_slot = 0, pinned_blockhash = hash_default\<rparr>"

definition set_account ::
    "('svm, 'vtx) svm_ops \<Rightarrow> time \<Rightarrow> pubkey \<Rightarrow> account \<Rightarrow> 'svm fork_simulator \<Rightarrow>
     'svm fork_simulator \<times> (fork_error, unit) result" where
  "set_account L now k a f =
     (case svm_set_account L k a (svm f) of
        Inl e \<Rightarrow> (f, Inl (LiteSvmError e))
      | Inr s \<Rightarrow> (f\<lparr>svm := s, cache := acache_insert now k a False (cache f)\<rparr>, Inr ()))"

text \<open>
  One pass over the sysvars: a sysvar that cannot be fetched keeps LiteSVM's default, one that
  cannot be set ends the pass. The \<open>i\<close>th call sees the network \<open>net i\<close>.
\<close>

fun load_sysvars ::
    "('svm, 'vtx) svm_ops \<Rightarrow> time \<Rightarrow> (nat \<Rightarrow> network) \<Rightarrow> nat \<Rightarrow> (string \<times> pubkey) list \<Rightarrow>
     circuit_breaker \<Rightarrow> 'svm fork_simulator \<Rightarrow> 'svm fork_simulator \<times> (fork_error, nat) result" where
  "load_sysvars L now net i [] cb f = (f\<lparr>rpc := Some cb\<rparr>, Inr 0)"
| "load_sysvars L now net i ((nm, k) # rest) cb f =
     (case fetch_account (net_t0 (net i)) (net_t1 (net i)) (net_others (net i)) (net_account (net i))
             (net_account_fallback (net i)) k cb of
        (cb', Inr a) \<Rightarrow>
          (case svm_set_account L k a (svm f) of
             Inl e \<Rightarrow> (f\<lparr>rpc := Some cb'\<rparr>, Inl (LiteSvmError (''failed to set sysvar '' @ nm @ '': '' @ e)))
           | Inr s \<Rightarrow>
               (case load_sysvars L now net (i + 1) rest cb'
                       (f\<lparr>svm := s, cache := acache_insert now k a True (cache f)\<rparr>) of
                  (f', Inr loaded) \<Rightarrow> (f', Inr (loaded + 1))
                | (f', Inl e) \<Rightarrow> (f', Inl e)))
      | (cb', Inl e) \<Rightarrow> load_sysvars L now net (i + 1) rest cb' f)"

definition init_sysvars ::
    "(string \<Rightarrow> pubkey) \<Rightarrow> ('svm, 'vtx) svm_ops \<Rightarrow> time \<Rightarrow> (nat \<Rightarrow> network) \<Rightarrow> 'svm fork_simulator \<Rightarrow>
     'svm fork_simulator \<times> (fork_error, unit) result" where
  "init_sysvars sysvar L now net f =
     (case rpc f of
        None \<Rightarrow> (f, Inl (ConfigError ''RPC not configured (offline mode)''))
      | Some cb \<Rightarrow>
          (case get_slot (net_t0 (net 0)) (net_t1 (net 0)) (net_others (net 0)) (net_slot (net 0))
                  (net_slot_fallback (net 0)) cb of
             (cb1, Inl e) \<Rightarrow> (f\<lparr>rpc := Some cb1\<rparr>, Inl e)
           | (cb1, Inr sl) \<Rightarrow>
               (case get_latest_blockhash (net_t0 (net 1)) (net_t1 (net 1)) (net_others (net 1))
                       (net_hash (net 1)) (net_hash_fallback (net 1)) cb1 of
                  (cb2, Inl e) \<Rightarrow> (f\<lparr>rpc := Some cb2, pinned_slot := sl\<rparr>, Inl e)
                | (cb2, Inr h) \<Rightarrow>
                    (case load_sysvars L now net 2 (SYSVAR_IDS sysvar) cb2
                            (f\<lparr>pinned_slot := sl, pinned_blockhash := h\<rparr>) of
                       (f', Inl e) \<Rightarrow> (f', Inl e)
                     | (f', Inr loaded) \<Rightarrow> (f', Inr ())))))"

text \<open>A failed construction drops the simulator.\<close>

definition with_rpc ::
    "(string \<Rightarrow> pubkey) \<Rightarrow> ('svm, 'vtx) svm_ops \<Rightarrow> 'svm \<Rightarrow> time \<Rightarrow> (nat \<Rightarrow> network) \<Rightarrow> circuit_breaker \<Rightarrow>
     (fork_error, 'svm fork_simulator) result" where
  "with_rpc sysvar L fresh_svm now net cb =
     (case init_sysvars sysvar L now net
             \<lparr>svm = fresh_svm, cache = account_cache_new, rpc = Some cb, pinned_slot = 0,
              pinned_blockhash = hash_default\<rparr> of
        (f, Inr u) \<Rightarrow> Inr f
      | (f, Inl e) \<Rightarrow> Inl e)"

definition load_account ::
    "('svm, 'vtx) svm_ops \<Rightarrow> time \<Rightarrow> network \<Rightarrow> pubkey \<Rightarrow> 'svm fork_simulator \<Rightarrow>
     'svm fork_simulator \<times> (fork_error, account) result" where
  "load_account L now net k f =
     (case acache_get now k (cache f) of
        (c, Some a) \<Rightarrow>
          (case svm_set_account L k a (svm f) of
             Inl e \<Rightarrow> (f\<lparr>cache := c\<rparr>, Inl (LiteSvmError e))
           | Inr s \<Rightarrow> (f\<lparr>cache := c, svm := s\<rparr>, Inr a))
      | (c, None) \<Rightarrow>
          (case rpc f of
             None \<Rightarrow> (f\<lparr>cache := c\<rparr>, Inl (ConfigError ''RPC not configured (offline mode)''))
           | Some cb \<Rightarrow>
               (case fetch_account (net_t0 net) (net_t1 net) (net_others net) (net_account net)
                       (net_account_fallback net) k cb of
                  (cb', Inl e) \<Rightarrow> (f\<lparr>cache := c, rpc := Some cb'\<rparr>, Inl e)
                | (cb', Inr a) \<Rightarrow>
                    (let f' = f\<lparr>cache := acache_insert now k a False c, rpc := Some cb'\<rparr>
                     in case svm_set_account L k a (svm f) of
                          Inl e \<Rightarrow> (f', Inl (LiteSvmError e))
                        | Inr s \<Rightarrow> (f'\<lparr>svm := s\<rparr>, Inr a)))))"

text \<open>The three loops of the batch load.\<close>

fun partition_cached ::
    "time \<Rightarrow> pubkey list \<Rightarrow> nat \<Rightarrow> account_cache \<Rightarrow>
     account_cache \<times> account option list \<times> nat list \<times> pubkey list" where
  "partition_cached now [] i c = (c, [], [], [])"
| "partition_cached now (k # ks) i c =
     (let (c1, r) = acache_get now k c; (c2, rs, ixs, us) = partition_cached now ks (i + 1) c1
      in case r of
           Some a \<Rightarrow> (c2, Some a # rs, ixs, us)
         | None \<Rightarrow> (c2, None # rs, i # ixs, k # us))"

datatype store_outcome = StorePanic | StoreNotFound pubkey | StoreDone "account option list"

fun store_fetched ::
    "time \<Rightarrow> pubkey list \<Rightarrow> nat list \<Rightarrow> account option list \<Rightarrow> account option list \<Rightarrow> account_cache \<Rightarrow>
     account_cache \<times> store_outcome" where
  "store_fetched now ks ixs [] rs c = (c, StoreDone rs)"
| "store_fetched now ks [] (x # xs) rs c = (c, StorePanic)"
| "store_fetched now ks (i # ixs) (Some a # xs) rs c =
     store_fetched now ks ixs xs (rs[i := Some a]) (acache_insert now (ks ! i) a False c)"
| "store_fetched now ks (i # ixs) (None # xs) rs c = (c, StoreNotFound (ks ! i))"

fun inject_all ::
    "('svm, 'vtx) svm_ops \<Rightarrow> (pubkey \<times> account option) list \<Rightarrow> 'svm \<Rightarrow> 'svm \<times> (fork_error, unit) result" where
  "inject_all L [] s = (s, Inr ())"
| "inject_all L ((k, None) # rest) s = inject_all L rest s"
| "inject_all L ((k, Some a) # rest) s =
     (case svm_set_account L k a s of
        Inl e \<Rightarrow> (s, Inl (LiteSvmError e))
      | Inr s' \<Rightarrow> inject_all L rest s')"

text \<open>The tail of the batch load: inject, and unwrap every option.\<close>

definition finish_load ::
    "('svm, 'vtx) svm_ops \<Rightarrow> pubkey list \<Rightarrow> account option list \<Rightarrow> 'svm fork_simulator \<Rightarrow>
     ('svm fork_simulator \<times> (fork_error, account list) result) option" where
  "finish_load L ks rs f =
     (case inject_all L (zip ks rs) (svm f) of
        (s, Inl e) \<Rightarrow> Some (f\<lparr>svm := s\<rparr>, Inl e)
      | (s, Inr u) \<Rightarrow> if None \<in> set rs then None else Some (f\<lparr>svm := s\<rparr>, Inr (map the rs)))"

definition load_accounts ::
    "('svm, 'vtx) svm_ops \<Rightarrow> time \<Rightarrow> network \<Rightarrow> pubkey list \<Rightarrow> 'svm fork_simulator \<Rightarrow>
     ('svm fork_simulator \<times> (fork_error, account list) result) option" where
  "load_accounts L now net ks f =
     (case partition_cached now ks 0 (cache f) of
        (c, rs, ixs, us) \<Rightarrow>
          if us = [] then finish_load L ks rs (f\<lparr>cache := c\<rparr>)
          else (case rpc f of
                  None \<Rightarrow> Some (f\<lparr>cache := c\<rparr>, Inl (ConfigError ''RPC not configured (offline mode)''))
                | Some cb \<Rightarrow>
                    (case fetch_multiple_accounts (net_t0 net) (net_t1 net) (net_others net) (net_multi net)
                            (net_multi_fallback net) us cb of
                       (cb', Inl e) \<Rightarrow> Some (f\<lparr>cache := c, rpc := Some cb'\<rparr>, Inl e)
                     | (cb', Inr fetched) \<Rightarrow>
                         (case store_fetched now ks ixs fetched rs c of
                            (c', StorePanic) \<Rightarrow> None
                          | (c', StoreNotFound k) \<Rightarrow>
                              Some (f\<lparr>cache := c', rpc := Some cb'\<rparr>, Inl (AccountNotFound (pk_text k)))
                          | (c', StoreDone rs') \<Rightarrow>
                              finish_load L ks rs' (f\<lparr>cache := c', rpc := Some cb'\<rparr>)))))"

subsection \<open>The executor\<close>

definition EXEC_SPL_TOKEN_PROGRAM_ID :: string where
  "EXEC_SPL_TOKEN_PROGRAM_ID = ''TokenkegQfeZyiNwAJbNbGKPFXCWuBvf9Ss623VQ5DA''"

definition SWITCHBOARD_V2_PROGRAM_ID :: string where
  "SWITCHBOARD_V2_PROGRAM_ID = ''SW1TCH7qEPTdLsDHRgPuMQjbQxKdH2aBStViMFnt64f''"

definition PYTH_PROGRAM_ID :: string where
  "PYTH_PROGRAM_ID = ''FsJ3A3u2vn5cTVofAjvy6y5kwABJAqYWpe4975bi2epH''"

record account_snapshot =
  snap_lamports :: u64
  snap_owner :: pubkey
  snap_data_len :: nat

definition snapshot_accounts ::
    "('svm, 'vtx) svm_ops \<Rightarrow> 'svm \<Rightarrow> pubkey list \<Rightarrow> (pubkey, account_snapshot) hashmap" where
  "snapshot_accounts L s ks =
     fold (\<lambda>k m. case svm_get_account L s k of
                   None \<Rightarrow> m
                 | Some a \<Rightarrow> hm_insert k \<lparr>snap_lamports = lamports a, snap_owner = acct_owner a,
                                          snap_data_len = length (acct_data a)\<rparr> m) ks []"

text \<open>The casts keep the bits and the \<^verbatim>\<open>i64\<close> subtraction wraps.\<close>

definition compute_balance_deltas ::
    "(pubkey, account_snapshot) hashmap \<Rightarrow> (pubkey \<times> account) list \<Rightarrow> (pubkey, u64) hashmap" where
  "compute_balance_deltas pre post =
     fold (\<lambda>(k, a) m.
       let pre_lamports = (case hm_get pre k of None \<Rightarrow> 0 | Some s \<Rightarrow> snap_lamports s);
           delta = lamports a - pre_lamports
       in if delta \<noteq> 0 then hm_insert k delta m else m) post []"

definition account_change_of :: "(pubkey, account_snapshot) hashmap \<Rightarrow> pubkey \<times> account \<Rightarrow> account_change" where
  "account_change_of pre ka =
     (let (k, a) = ka;
          (ob, lb, db) = (case hm_get pre k of
                            Some s \<Rightarrow> (snap_owner s, snap_lamports s, snap_data_len s)
                          | None \<Rightarrow> (pubkey_default, 0, 0))
      in \<lparr>ac_pubkey = k, owner_before = ob, owner_after = acct_owner a, lamports_before = lb,
          lamports_after = lamports a, data_len_before = db, data_len_after = length (acct_data a)\<rparr>)"

definition compute_account_changes ::
    "(pubkey, account_snapshot) hashmap \<Rightarrow> (pubkey \<times> account) list \<Rightarrow> account_change list" where
  "compute_account_changes pre post =
     filter (\<lambda>c. owner_before c \<noteq> owner_after c \<or> lamports_before c \<noteq> lamports_after c \<or>
                data_len_before c \<noteq> data_len_after c)
       (map (account_change_of pre) post)"

definition key_at :: "pubkey list \<Rightarrow> u8 \<Rightarrow> pubkey" where
  "key_at ks i = (case get ks (unat i) of Some k \<Rightarrow> k | None \<Rightarrow> pubkey_default)"

definition cpi_of :: "pubkey list \<Rightarrow> nat \<Rightarrow> u8 \<Rightarrow> compiled_instruction \<Rightarrow> cpi_call" where
  "cpi_of ks ix_index height ix =
     \<lparr>program_id = key_at ks (program_id_index ix), instruction_index = ix_index, stack_height = height,
      cpi_accounts = map (key_at ks) (ci_accounts ix), cpi_data = ci_data ix\<rparr>"

definition extract_cpi_graph ::
    "transaction \<Rightarrow> (compiled_instruction \<times> u8) list list \<Rightarrow> pubkey list \<Rightarrow> cpi_call list" where
  "extract_cpi_graph tx inner ks =
     map (\<lambda>(i, ix). cpi_of ks i 1 ix) (enumerate 0 (instructions tx)) @
     concat (map (\<lambda>(i, ixs). map (\<lambda>(ix, h). cpi_of ks i h ix) ixs) (enumerate 0 inner))"

text \<open>
  The reads found so far are their own set of seen keys: a key is seen when it has been pushed.
\<close>

definition push_read :: "string \<Rightarrow> pubkey \<Rightarrow> oracle_read list \<Rightarrow> oracle_read list" where
  "push_read ty k reads =
     (if k \<noteq> Pubkey SWITCHBOARD_V2_PROGRAM_ID \<and> k \<noteq> Pubkey PYTH_PROGRAM_ID \<and> k \<notin> oracle_pubkey ` set reads
      then reads @ [\<lparr>oracle_pubkey = k, oracle_type_name = ty\<rparr>] else reads)"

definition oracle_type_of :: "pubkey \<Rightarrow> string option" where
  "oracle_type_of pid =
     (if pid = Pubkey SWITCHBOARD_V2_PROGRAM_ID then Some ''switchboard''
      else if pid = Pubkey PYTH_PROGRAM_ID then Some ''pyth'' else None)"

definition scan_oracle_ix :: "pubkey list \<Rightarrow> compiled_instruction \<Rightarrow> oracle_read list \<Rightarrow> oracle_read list" where
  "scan_oracle_ix ks ix reads =
     (case get ks (unat (program_id_index ix)) of
        None \<Rightarrow> reads
      | Some pid \<Rightarrow>
          (case oracle_type_of pid of
             None \<Rightarrow> reads
           | Some ty \<Rightarrow>
               fold (\<lambda>i rs. case get ks (unat i) of None \<Rightarrow> rs | Some k \<Rightarrow> push_read ty k rs)
                 (ci_accounts ix) reads))"

definition detect_oracle_reads :: "transaction \<Rightarrow> string list \<Rightarrow> oracle_read list" where
  "detect_oracle_reads tx lgs =
     (let ks = account_keys tx;
          r0 = fold (scan_oracle_ix ks) (instructions tx) [];
          log_switchboard = (\<exists>l \<in> set lgs. contains l SWITCHBOARD_V2_PROGRAM_ID);
          log_pyth = (\<exists>l \<in> set lgs. contains l PYTH_PROGRAM_ID);
          r1 = (if log_switchboard \<and> \<not> (\<exists>r \<in> set r0. oracle_type_name r = ''switchboard'')
                then fold (push_read ''switchboard'') ks r0 else r0);
          r2 = (if log_pyth \<and> \<not> (\<exists>r \<in> set r1. oracle_type_name r = ''pyth'')
                then fold (push_read ''pyth'') ks r1 else r1)
      in r2)"

definition approval_of :: "transaction \<Rightarrow> compiled_instruction \<Rightarrow> token_approval option" where
  "approval_of tx ix =
     (case get (account_keys tx) (unat (program_id_index ix)) of
        None \<Rightarrow> None
      | Some pid \<Rightarrow>
          if pid \<noteq> Pubkey EXEC_SPL_TOKEN_PROGRAM_ID then None
          else if length (ci_data ix) = 9 \<and> ci_data ix ! 0 = 4 \<and> 3 \<le> length (ci_accounts ix)
          then Some \<lparr>ta_source = key_at (account_keys tx) (ci_accounts ix ! 0),
                     ta_delegate = key_at (account_keys tx) (ci_accounts ix ! 1),
                     ta_amount = of_nat (le_nat (take 8 (drop 1 (ci_data ix)))),
                     ta_owner = key_at (account_keys tx) (ci_accounts ix ! 2)\<rparr>
          else None)"

definition detect_token_approvals :: "transaction \<Rightarrow> token_approval list" where
  "detect_token_approvals tx = List.map_filter (approval_of tx) (instructions tx)"

text \<open>The simulation is read-only: the fork is an input, and the result is the trace alone.\<close>

definition execute_transaction ::
    "('svm, 'vtx) svm_ops \<Rightarrow> 'svm fork_simulator \<Rightarrow> transaction \<Rightarrow> (fork_error, simulation_trace) result" where
  "execute_transaction L f tx =
     (let ks = account_keys tx; pre = snapshot_accounts L (svm f) ks
      in bind_result (map_err (\<lambda>e. LiteSvmError (''tx serialize failed: '' @ e)) (tx_serialize L tx)) (\<lambda>bs.
         bind_result (map_err (\<lambda>e. LiteSvmError (''tx deserialize v2'' @ [CHR 0xE2, CHR 0x86, CHR 0x92] @ ''v3 failed: '' @ e)) (vtx_deserialize L bs)) (\<lambda>vtx.
         case svm_simulate L (svm f) vtx of
           SimOk meta post \<Rightarrow>
             Inr \<lparr>success = True, trace_error = None, balance_deltas = compute_balance_deltas pre post,
                  cpi_graph = extract_cpi_graph tx (inner_instructions meta) ks,
                  account_changes = compute_account_changes pre post, logs = meta_logs meta,
                  oracle_reads = detect_oracle_reads tx (meta_logs meta),
                  token_approvals = detect_token_approvals tx, token_balance_deltas = [],
                  compute_units_consumed = meta_compute_units meta, fee = meta_fee meta\<rparr>
         | SimFailed err meta \<Rightarrow>
             Inr \<lparr>success = False, trace_error = Some err, balance_deltas = [],
                  cpi_graph = extract_cpi_graph tx (inner_instructions meta) ks,
                  account_changes = [], logs = meta_logs meta,
                  oracle_reads = detect_oracle_reads tx (meta_logs meta),
                  token_approvals = detect_token_approvals tx, token_balance_deltas = [],
                  compute_units_consumed = meta_compute_units meta, fee = meta_fee meta\<rparr>)))"

subsection \<open>Oracle reads\<close>

definition oracle_programs :: "pubkey set" where
  "oracle_programs = {Pubkey SWITCHBOARD_V2_PROGRAM_ID, Pubkey PYTH_PROGRAM_ID}"

definition reads_ok :: "pubkey list \<Rightarrow> oracle_read list \<Rightarrow> bool" where
  "reads_ok ks reads \<longleftrightarrow> distinct (map oracle_pubkey reads) \<and>
     oracle_pubkey ` set reads \<subseteq> set ks - oracle_programs"

lemma push_read_keys:
  "oracle_pubkey ` set (push_read ty k reads) =
     oracle_pubkey ` set reads \<union> (if k \<in> oracle_programs then {} else {k})"
  by (auto simp: push_read_def oracle_programs_def)

lemma reads_ok_push: "reads_ok ks reads \<Longrightarrow> k \<in> set ks \<Longrightarrow> reads_ok ks (push_read ty k reads)"
  by (auto simp: reads_ok_def push_read_def oracle_programs_def)

lemma reads_ok_fold_push: "reads_ok ks reads \<Longrightarrow> set ms \<subseteq> set ks \<Longrightarrow> reads_ok ks (fold (push_read ty) ms reads)"
  by (induction ms arbitrary: reads) (simp_all add: reads_ok_push)

lemma push_ix_keys:
  "oracle_pubkey ` set (fold (\<lambda>i rs. case get ks (unat i) of None \<Rightarrow> rs | Some k \<Rightarrow> push_read ty k rs) idxs reads) =
     oracle_pubkey ` set reads \<union> ({k. \<exists>i \<in> set idxs. get ks (unat i) = Some k} - oracle_programs)"
proof (induction idxs arbitrary: reads)
  case (Cons i idxs)
  then show ?case by (cases "get ks (unat i)") (auto simp: push_read_keys split: if_splits)
qed simp

lemma reads_ok_push_ix:
  "reads_ok ks reads \<Longrightarrow>
    reads_ok ks (fold (\<lambda>i rs. case get ks (unat i) of None \<Rightarrow> rs | Some k \<Rightarrow> push_read ty k rs) idxs reads)"
  by (induction idxs arbitrary: reads) (auto simp: reads_ok_push get_mem split: option.splits)

lemma reads_ok_scan: "reads_ok ks reads \<Longrightarrow> reads_ok ks (scan_oracle_ix ks ix reads)"
  by (simp add: scan_oracle_ix_def reads_ok_push_ix split: option.splits)

lemma reads_ok_scan_all: "reads_ok ks reads \<Longrightarrow> reads_ok ks (fold (scan_oracle_ix ks) ixs reads)"
  by (induction ixs arbitrary: reads) (simp_all add: reads_ok_scan)

text \<open>The accounts an instruction hands to an oracle program.\<close>

definition direct_oracle_keys :: "pubkey list \<Rightarrow> compiled_instruction \<Rightarrow> pubkey set" where
  "direct_oracle_keys ks ix =
     (if (\<exists>pid \<in> oracle_programs. get ks (unat (program_id_index ix)) = Some pid)
      then {k. \<exists>i \<in> set (ci_accounts ix). get ks (unat i) = Some k} - oracle_programs else {})"

lemma scan_oracle_ix_keys:
  "oracle_pubkey ` set (scan_oracle_ix ks ix reads) = oracle_pubkey ` set reads \<union> direct_oracle_keys ks ix"
  by (auto simp: scan_oracle_ix_def direct_oracle_keys_def oracle_type_of_def push_ix_keys
      oracle_programs_def split: option.splits if_splits)

lemma scan_all_keys:
  "oracle_pubkey ` set (fold (scan_oracle_ix ks) ixs reads) =
     oracle_pubkey ` set reads \<union> (\<Union>ix \<in> set ixs. direct_oracle_keys ks ix)"
  by (induction ixs arbitrary: reads) (auto simp: scan_oracle_ix_keys)

lemma fold_push_keys:
  "oracle_pubkey ` set (fold (push_read ty) ms reads) = oracle_pubkey ` set reads \<union> (set ms - oracle_programs)"
  by (induction ms arbitrary: reads) (auto simp: push_read_keys)

lemma direct_keys_read:
  "(\<Union>ix \<in> set (instructions tx). direct_oracle_keys (account_keys tx) ix) \<subseteq> oracle_pubkey ` set (detect_oracle_reads tx lgs)"
  unfolding detect_oracle_reads_def Let_def by (auto simp: fold_push_keys scan_all_keys)

text \<open>
  The type a key is read under: the program of the first instruction that hands it over, and for the
  other keys what the logs call for. A program the logs name calls for the scan of all accounts when
  no key was first handed to it.
\<close>

definition caller_type :: "transaction \<Rightarrow> pubkey \<Rightarrow> string option" where
  "caller_type tx k =
     (case find (\<lambda>ix. k \<in> direct_oracle_keys (account_keys tx) ix) (instructions tx) of
        None \<Rightarrow> None
      | Some ix \<Rightarrow> Option.bind (get (account_keys tx) (unat (program_id_index ix))) oracle_type_of)"

definition logs_name :: "string list \<Rightarrow> string \<Rightarrow> bool" where
  "logs_name lgs p \<longleftrightarrow> (\<exists>l \<in> set lgs. contains l p)"

definition log_type :: "transaction \<Rightarrow> string list \<Rightarrow> string option" where
  "log_type tx lgs =
     (if logs_name lgs SWITCHBOARD_V2_PROGRAM_ID \<and> (\<forall>k \<in> set (account_keys tx). caller_type tx k \<noteq> Some ''switchboard'')
      then Some ''switchboard''
      else if logs_name lgs PYTH_PROGRAM_ID \<and> (\<forall>k \<in> set (account_keys tx). caller_type tx k \<noteq> Some ''pyth'')
      then Some ''pyth'' else None)"

definition read_type :: "oracle_read list \<Rightarrow> pubkey \<Rightarrow> string option" where
  "read_type reads k = map_of (map (\<lambda>r. (oracle_pubkey r, oracle_type_name r)) reads) k"

lemma read_type_None: "read_type reads k = None \<longleftrightarrow> k \<notin> oracle_pubkey ` set reads"
  by (simp add: read_type_def map_of_eq_None_iff image_image)

lemma read_type_Nil [simp]: "read_type [] k = None"
  by (simp add: read_type_def)

lemma read_type_mem:
  assumes "distinct (map oracle_pubkey reads)"
  shows "read_type reads k = Some ty \<longleftrightarrow> (\<exists>r \<in> set reads. oracle_pubkey r = k \<and> oracle_type_name r = ty)"
proof -
  have "distinct (map fst (map (\<lambda>r. (oracle_pubkey r, oracle_type_name r)) reads))" using assms by (simp add: comp_def)
  then show ?thesis unfolding read_type_def by (auto simp del: map_map)
qed

lemma read_type_push:
  "read_type (push_read ty k reads) k' =
     (case read_type reads k' of Some t \<Rightarrow> Some t | None \<Rightarrow> if k' = k \<and> k \<notin> oracle_programs then Some ty else None)"
  using read_type_None [of reads k]
  by (auto simp: push_read_def read_type_def oracle_programs_def map_add_def split: option.splits)

lemma read_type_fold_push:
  "read_type (fold (push_read ty) ms reads) k =
     (case read_type reads k of Some t \<Rightarrow> Some t | None \<Rightarrow> if k \<in> set ms - oracle_programs then Some ty else None)"
  by (induction ms arbitrary: reads) (auto simp: read_type_push split: option.splits)

lemma read_type_push_ix:
  "read_type (fold (\<lambda>i rs. case get ks (unat i) of None \<Rightarrow> rs | Some k \<Rightarrow> push_read ty k rs) idxs reads) k =
     (case read_type reads k of Some t \<Rightarrow> Some t
      | None \<Rightarrow> if k \<in> {k. \<exists>i \<in> set idxs. get ks (unat i) = Some k} - oracle_programs then Some ty else None)"
proof (induction idxs arbitrary: reads)
  case (Cons i idxs)
  then show ?case by (cases "get ks (unat i)") (auto simp: read_type_push split: option.splits)
qed (simp split: option.splits)

lemma read_type_scan:
  "read_type (scan_oracle_ix ks ix reads) k =
     (case read_type reads k of Some t \<Rightarrow> Some t
      | None \<Rightarrow> if k \<in> direct_oracle_keys ks ix then Option.bind (get ks (unat (program_id_index ix))) oracle_type_of else None)"
  by (auto simp: scan_oracle_ix_def direct_oracle_keys_def oracle_type_of_def read_type_push_ix oracle_programs_def
      split: option.splits if_splits)

lemma direct_caller: "k \<in> direct_oracle_keys ks ix \<Longrightarrow> Option.bind (get ks (unat (program_id_index ix))) oracle_type_of \<noteq> None"
  by (auto simp: direct_oracle_keys_def oracle_type_of_def oracle_programs_def split: if_splits)

lemma read_type_scan_all:
  "read_type (fold (scan_oracle_ix ks) ixs reads) k =
     (case read_type reads k of Some t \<Rightarrow> Some t
      | None \<Rightarrow> (case find (\<lambda>ix. k \<in> direct_oracle_keys ks ix) ixs of None \<Rightarrow> None
          | Some ix \<Rightarrow> Option.bind (get ks (unat (program_id_index ix))) oracle_type_of))"
proof (induction ixs arbitrary: reads)
  case (Cons ix ixs)
  then show ?case using direct_caller [of k ks ix] by (auto simp: read_type_scan split: option.splits)
qed (simp split: option.splits)

text \<open>The scan of the logs adds reads of one type, so that the second question is asked of the direct reads.\<close>

lemma detect_read_type:
  "read_type (detect_oracle_reads tx lgs) k =
     (case caller_type tx k of Some ty \<Rightarrow> Some ty
      | None \<Rightarrow> if k \<in> set (account_keys tx) - oracle_programs then log_type tx lgs else None)"
proof -
  let ?ks = "account_keys tx"
  define r0 where "r0 = fold (scan_oracle_ix ?ks) (instructions tx) []"
  define sb where "sb \<longleftrightarrow> logs_name lgs SWITCHBOARD_V2_PROGRAM_ID \<and> \<not> (\<exists>r \<in> set r0. oracle_type_name r = ''switchboard'')"
  define r1 where "r1 = (if sb then fold (push_read ''switchboard'') ?ks r0 else r0)"
  have ok0: "reads_ok ?ks r0" unfolding r0_def by (rule reads_ok_scan_all) (simp add: reads_ok_def)
  then have ok1: "reads_ok ?ks r1" by (simp add: r1_def reads_ok_fold_push)
  have t0: "read_type r0 x = caller_type tx x" for x
    by (simp add: r0_def read_type_scan_all caller_type_def read_type_None)
  have some: "(\<exists>r \<in> set rs. oracle_type_name r = ty) \<longleftrightarrow> (\<exists>x \<in> set ?ks. read_type rs x = Some ty)"
    if "reads_ok ?ks rs" for rs ty
    using that read_type_mem [of rs] by (fastforce simp: reads_ok_def)
  have t1: "read_type r1 x = (case caller_type tx x of Some ty \<Rightarrow> Some ty
      | None \<Rightarrow> if sb \<and> x \<in> set ?ks - oracle_programs then Some ''switchboard'' else None)" for x
    by (simp add: r1_def read_type_fold_push t0 split: option.splits)
  have "read_type r1 x = Some ''pyth'' \<longleftrightarrow> caller_type tx x = Some ''pyth''" for x
    by (auto simp: t1 split: option.splits if_splits)
  then have pyth: "(\<exists>r \<in> set r1. oracle_type_name r = ''pyth'') \<longleftrightarrow> (\<exists>x \<in> set ?ks. caller_type tx x = Some ''pyth'')"
    by (simp add: some [OF ok1])
  have d: "detect_oracle_reads tx lgs =
      (if logs_name lgs PYTH_PROGRAM_ID \<and> \<not> (\<exists>r \<in> set r1. oracle_type_name r = ''pyth'') then fold (push_read ''pyth'') ?ks r1 else r1)"
    by (simp only: detect_oracle_reads_def Let_def r1_def sb_def r0_def logs_name_def)
  have "sb \<longleftrightarrow> logs_name lgs SWITCHBOARD_V2_PROGRAM_ID \<and> (\<forall>x \<in> set ?ks. caller_type tx x \<noteq> Some ''switchboard'')"
    by (auto simp: sb_def some [OF ok0] t0)
  then show ?thesis unfolding d pyth log_type_def by (auto simp: read_type_fold_push t1 split: option.splits)
qed

lemma unused_program_scans:
  assumes "p \<in> {SWITCHBOARD_V2_PROGRAM_ID, PYTH_PROGRAM_ID}" "logs_name lgs p"
    and "\<forall>ix \<in> set (instructions tx). get (account_keys tx) (unat (program_id_index ix)) \<noteq> Some (Pubkey p)"
  shows "log_type tx lgs \<noteq> None"
proof -
  have "caller_type tx k \<noteq> oracle_type_of (Pubkey p)" for k
  proof
    assume "caller_type tx k = oracle_type_of (Pubkey p)"
    then obtain ix where ix: "find (\<lambda>ix. k \<in> direct_oracle_keys (account_keys tx) ix) (instructions tx) = Some ix"
      "Option.bind (get (account_keys tx) (unat (program_id_index ix))) oracle_type_of = oracle_type_of (Pubkey p)"
      using assms(1) by (auto simp: caller_type_def oracle_type_of_def split: option.splits if_splits)
    then have "get (account_keys tx) (unat (program_id_index ix)) = Some (Pubkey p)"
      using assms(1) by (auto simp: oracle_type_of_def bind_eq_Some_conv split: if_splits)
    moreover have "ix \<in> set (instructions tx)" using ix(1) by (auto simp: find_Some_iff)
    ultimately show False using assms(3) by blast
  qed
  moreover have "oracle_type_of (Pubkey SWITCHBOARD_V2_PROGRAM_ID) = Some ''switchboard''" "oracle_type_of (Pubkey PYTH_PROGRAM_ID) = Some ''pyth''"
    by (simp_all add: oracle_type_of_def SWITCHBOARD_V2_PROGRAM_ID_def PYTH_PROGRAM_ID_def)
  ultimately show ?thesis using assms(1,2) by (auto simp: log_type_def)
qed

text \<open>C38: The oracle reads of a trace are exactly what the calls and the logs give. Each key is read once, is
  an account key of the transaction and is not an oracle program. A key is read under the program of
  the first instruction that hands it to Switchboard or Pyth, whatever the logs say; every other
  account is read exactly when the logs name Switchboard and no key was first handed to it, and then
  as its account, or else when they name Pyth and no key was first handed to it. So when the logs name an
  oracle program no instruction calls, all accounts are read, also beside direct calls of the
  other program.\<close>

theorem oracle_reads_complete:
  "reads_ok (account_keys tx) (detect_oracle_reads tx lgs) \<and>
   (\<forall>k. read_type (detect_oracle_reads tx lgs) k =
      (case caller_type tx k of Some ty \<Rightarrow> Some ty
       | None \<Rightarrow> if k \<in> set (account_keys tx) - oracle_programs then log_type tx lgs else None)) \<and>
   (\<forall>p \<in> {SWITCHBOARD_V2_PROGRAM_ID, PYTH_PROGRAM_ID}. logs_name lgs p \<and>
      (\<forall>ix \<in> set (instructions tx). get (account_keys tx) (unat (program_id_index ix)) \<noteq> Some (Pubkey p)) \<longrightarrow>
      oracle_pubkey ` set (detect_oracle_reads tx lgs) = set (account_keys tx) - oracle_programs)"
proof -
  let ?ks = "account_keys tx" and ?rs = "detect_oracle_reads tx lgs"
  have "reads_ok ?ks (fold (scan_oracle_ix ?ks) (instructions tx) [])" by (rule reads_ok_scan_all) (simp add: reads_ok_def)
  then have ok: "reads_ok ?ks ?rs"
    unfolding detect_oracle_reads_def Let_def by (simp add: reads_ok_fold_push)
  have "oracle_pubkey ` set ?rs = set ?ks - oracle_programs" if "log_type tx lgs \<noteq> None"
  proof
    show "oracle_pubkey ` set ?rs \<subseteq> set ?ks - oracle_programs" using ok by (simp add: reads_ok_def)
    show "set ?ks - oracle_programs \<subseteq> oracle_pubkey ` set ?rs"
    proof
      fix k assume "k \<in> set ?ks - oracle_programs"
      then have "read_type ?rs k \<noteq> None" using that by (auto simp: detect_read_type split: option.splits)
      then show "k \<in> oracle_pubkey ` set ?rs" by (simp add: read_type_None)
    qed
  qed
  then show ?thesis using ok detect_read_type [of tx lgs] unused_program_scans [of _ lgs tx] by blast
qed

subsection \<open>What a trace owes to the transaction alone\<close>

lemma graph_prefix:
  "take (length (instructions tx)) (extract_cpi_graph tx inner ks) =
     map (\<lambda>i. cpi_of ks i 1 (instructions tx ! i)) [0..<length (instructions tx)]"
proof -
  have "map (\<lambda>(i, ix). cpi_of ks i 1 ix) (enumerate 0 (instructions tx)) =
      map (\<lambda>i. cpi_of ks i 1 (instructions tx ! i)) [0..<length (instructions tx)]"
    by (rule nth_equalityI) (simp_all add: nth_enumerate_eq)
  then show ?thesis by (simp add: extract_cpi_graph_def)
qed

lemma execute_transaction_cases:
  assumes "execute_transaction L f tx = Inr tr"
  shows "\<exists>vtx. (case svm_simulate L (svm f) vtx of
      SimOk meta post \<Rightarrow>
        success tr \<and> cpi_graph tr = extract_cpi_graph tx (inner_instructions meta) (account_keys tx)
    | SimFailed err meta \<Rightarrow> \<not> success tr \<and> balance_deltas tr = [] \<and> account_changes tr = [] \<and>
        cpi_graph tr = extract_cpi_graph tx (inner_instructions meta) (account_keys tx)) \<and>
      token_approvals tr = detect_token_approvals tx \<and> token_balance_deltas tr = []"
proof -
  obtain bs vtx where "tx_serialize L tx = Inr bs" "vtx_deserialize L bs = Inr vtx"
    using assms by (auto simp: execute_transaction_def Let_def bind_result_Inr)
  then show ?thesis
    using assms
    by (intro exI [of _ vtx]) (auto simp: execute_transaction_def Let_def split: sim_result.splits)
qed

lemma trace_oracle_reads:
  assumes "execute_transaction L f tx = Inr tr"
  shows "oracle_reads tr = detect_oracle_reads tx (logs tr)"
proof -
  obtain bs vtx where "tx_serialize L tx = Inr bs" "vtx_deserialize L bs = Inr vtx"
    using assms by (auto simp: execute_transaction_def Let_def bind_result_Inr)
  then show ?thesis using assms by (auto simp: execute_transaction_def Let_def split: sim_result.splits)
qed

lemma trace_signed_calls:
  assumes "execute_transaction L f tx = Inr tr"
  shows "take (length (instructions tx)) (cpi_graph tr) =
      map (\<lambda>i. cpi_of (account_keys tx) i 1 (instructions tx ! i)) [0..<length (instructions tx)] \<and>
    token_approvals tr = detect_token_approvals tx \<and>
    (\<not> success tr \<longrightarrow> balance_deltas tr = [] \<and> account_changes tr = []) \<and>
    token_balance_deltas tr = []"
proof -
  obtain vtx where "(case svm_simulate L (svm f) vtx of
      SimOk meta post \<Rightarrow>
        success tr \<and> cpi_graph tr = extract_cpi_graph tx (inner_instructions meta) (account_keys tx)
    | SimFailed err meta \<Rightarrow> \<not> success tr \<and> balance_deltas tr = [] \<and> account_changes tr = [] \<and>
        cpi_graph tr = extract_cpi_graph tx (inner_instructions meta) (account_keys tx)) \<and>
      token_approvals tr = detect_token_approvals tx \<and> token_balance_deltas tr = []"
    using execute_transaction_cases [OF assms] by auto
  then show ?thesis by (cases "svm_simulate L (svm f) vtx") (simp_all add: graph_prefix)
qed

text \<open>What the user signed is in the trace whether or not the simulation succeeds: the call graph
  begins with one call at stack height 1 per instruction, in order, and the approvals are those of
  the instructions. A failed simulation records no balance or account change, and no trace has
  token balance changes.\<close>

theorem trace_keeps_signed_calls:
  assumes "execute_transaction L f tx = Inr tr"
  shows "take (length (instructions tx)) (cpi_graph tr) =
      map (\<lambda>i. cpi_of (account_keys tx) i 1 (instructions tx ! i)) [0..<length (instructions tx)] \<and>
    token_approvals tr = detect_token_approvals tx \<and>
    (\<not> success tr \<longrightarrow> balance_deltas tr = [] \<and> account_changes tr = []) \<and>
    token_balance_deltas tr = []"
  using trace_signed_calls [OF assms] .

subsection \<open>Balance and account changes\<close>

definition pre_lamports :: "(pubkey, account_snapshot) hashmap \<Rightarrow> pubkey \<Rightarrow> u64" where
  "pre_lamports pre k = (case hm_get pre k of None \<Rightarrow> 0 | Some s \<Rightarrow> snap_lamports s)"

lemma delta_fold:
  "distinct (map fst post) \<Longrightarrow>
    hm_get (fold (\<lambda>(k, a) m. let p = (case hm_get pre k of None \<Rightarrow> 0 | Some s \<Rightarrow> snap_lamports s);
           delta = lamports a - p in if delta \<noteq> 0 then hm_insert k delta m else m) post m) k =
     (case map_of post k of
        Some a \<Rightarrow> if lamports a = pre_lamports pre k then hm_get m k else Some (lamports a - pre_lamports pre k)
      | None \<Rightarrow> hm_get m k)"
proof (induction post arbitrary: m)
  case (Cons ka post)
  obtain k' a where ka: "ka = (k', a)" by (cases ka)
  have "map_of post k' = None" using Cons.prems by (simp add: ka map_of_eq_None_iff)
  then show ?case
    using Cons by (auto simp: ka Let_def update_conv' pre_lamports_def split: option.splits)
qed simp

text \<open>Two words below \<open>2\<^sup>6\<^sup>3\<close> have their exact difference as a signed word.\<close>

lemma sint_diff_small:
  fixes x y :: u64
  assumes "unat x < 2 ^ 63" "unat y < 2 ^ 63"
  shows "sint (x - y) = int (unat x) - int (unat y)"
proof -
  have "int (unat x) < int (2 ^ 63)" "int (unat y) < int (2 ^ 63)"
    using assms by (simp_all only: of_nat_less_iff)
  then have b: "uint x < 2 ^ 63" "uint y < 2 ^ 63" "0 \<le> uint x" "0 \<le> uint y"
    by simp_all
  have "sint (x - y) = signed_take_bit 63 (uint x - uint y)"
  proof -
    have "uint (x - y) = take_bit 64 (uint x - uint y)" by (simp add: uint_word_ariths take_bit_eq_mod)
    then show ?thesis by (simp add: sint_uint signed_take_bit_take_bit)
  qed
  also have "\<dots> = uint x - uint y"
    by (rule signed_take_bit_int_eq_self) (use b in linarith)+
  finally show ?thesis by simp
qed

text \<open>A lamport change is recorded for exactly the accounts whose balance differs after a simulation
  that reports each account once, and its signed value is the exact difference when both balances
  are below \<open>2\<^sup>6\<^sup>3\<close>.\<close>

theorem balance_deltas_exact:
  assumes "distinct (map fst post)" "(k, a) \<in> set post"
  shows "hm_get (compute_balance_deltas pre post) k =
      (if lamports a = pre_lamports pre k then None else Some (lamports a - pre_lamports pre k)) \<and>
    (unat (lamports a) < 2 ^ 63 \<and> unat (pre_lamports pre k) < 2 ^ 63 \<longrightarrow>
       sint (lamports a - pre_lamports pre k) = int (unat (lamports a)) - int (unat (pre_lamports pre k)))"
proof
  have "map_of post k = Some a" using assms by simp
  then show "hm_get (compute_balance_deltas pre post) k =
      (if lamports a = pre_lamports pre k then None else Some (lamports a - pre_lamports pre k))"
    using delta_fold [OF assms(1), of pre "[]" k] by (simp add: compute_balance_deltas_def)
  show "unat (lamports a) < 2 ^ 63 \<and> unat (pre_lamports pre k) < 2 ^ 63 \<longrightarrow>
       sint (lamports a - pre_lamports pre k) = int (unat (lamports a)) - int (unat (pre_lamports pre k))"
    using sint_diff_small by blast
qed

text \<open>Account changes record owners, lamports and data lengths only. A simulated account whose data
  is rewritten in place, with owner, balance and length as before, leaves no record at all.\<close>

theorem rewritten_data_not_recorded:
  assumes "hm_get pre k = Some \<lparr>snap_lamports = lamports b, snap_owner = acct_owner b,
                                snap_data_len = length (acct_data b)\<rparr>"
    and "a = b\<lparr>acct_data := d\<rparr>" "length d = length (acct_data b)"
  shows "compute_account_changes pre (post1 @ (k, a) # post2) = compute_account_changes pre (post1 @ post2)"
  using assms by (simp add: compute_account_changes_def account_change_of_def)

subsection \<open>The batch load\<close>

lemma partition_cached_shape:
  "partition_cached now ks i c = (c', rs, ixs, us) \<Longrightarrow>
    length rs = length ks \<and> length us = length ixs \<and> (\<forall>j < length rs. rs ! j = None \<longrightarrow> i + j \<in> set ixs)"
proof (induction ks arbitrary: i c c' rs ixs us)
  case (Cons k ks)
  obtain c1 r where g: "acache_get now k c = (c1, r)" by fastforce
  obtain c2 rs2 ixs2 us2 where q: "partition_cached now ks (i + 1) c1 = (c2, rs2, ixs2, us2)"
    by (cases "partition_cached now ks (i + 1) c1") auto
  note IH = Cons.IH [OF q]
  have "\<forall>j < length (x # rs2). (x # rs2) ! j = None \<longrightarrow> i + j \<in> insert i (set ixs2)" for x
    using IH by (auto simp: nth_Cons split: nat.splits)
  moreover have "\<forall>j < length (Some a # rs2). (Some a # rs2) ! j = None \<longrightarrow> i + j \<in> set ixs2" for a
    using IH by (auto simp: nth_Cons split: nat.splits)
  ultimately show ?case
    using Cons.prems IH by (cases r) (auto simp: g q [simplified])
qed simp

lemma store_fetched_total:
  "length xs = length ixs \<Longrightarrow> \<forall>j < length rs. rs ! j = None \<longrightarrow> j \<in> set ixs \<Longrightarrow>
    (case snd (store_fetched now ks ixs xs rs c) of
       StorePanic \<Rightarrow> False
     | StoreNotFound k \<Rightarrow> True
     | StoreDone rs' \<Rightarrow> length rs' = length rs \<and> None \<notin> set rs')"
proof (induction now ks ixs xs rs c rule: store_fetched.induct)
  case (1 now ks ixs rs c)
  then show ?case by (auto simp: in_set_conv_nth)
next
  case (3 now ks i ixs a xs rs c)
  have "\<forall>j < length (rs[i := Some a]). rs[i := Some a] ! j = None \<longrightarrow> j \<in> set ixs"
    using "3.prems"(2)
    by (metis length_list_update nth_list_update_eq nth_list_update_neq option.discI set_ConsD)
  then show ?case using 3 by (auto split: store_outcome.splits)
qed simp_all

lemma fetch_multiple_sized:
  assumes "\<And>v. snd (net_multi net us) = Inr v \<Longrightarrow> length v = length us"
    and "\<And>v. net_multi_fallback net us = Inr v \<Longrightarrow> length v = length us"
    and "fetch_multiple_accounts t0 t1 others (net_multi net) (net_multi_fallback net) us cb = (cb', Inr v)"
  shows "length v = length us"
  using assms
  by (auto simp: fetch_multiple_accounts_def try_primary_def Let_def split: prod.splits if_splits sum.splits option.splits)

lemma finish_load_total:
  "None \<notin> set rs \<Longrightarrow> \<exists>f' r. finish_load L ks rs f = Some (f', r) \<and> (\<forall>as. r = Inr as \<longrightarrow> as = map the rs)"
  by (simp add: finish_load_def split: prod.splits sum.splits)

text \<open>A batch load returns, with an error or with one account per requested key, when the providers
  answer a batch with as many entries as were asked for. The hypothesis is needed: an answer that
  is too short makes the load panic at the final unwrap.\<close>

theorem load_accounts_returns:
  assumes "\<And>us v. snd (net_multi net us) = Inr v \<Longrightarrow> length v = length us"
    and "\<And>us v. net_multi_fallback net us = Inr v \<Longrightarrow> length v = length us"
  shows "\<exists>f' r. load_accounts L now net ks f = Some (f', r) \<and> (\<forall>as. r = Inr as \<longrightarrow> length as = length ks)"
proof -
  obtain c rs ixs us where q: "partition_cached now ks 0 (cache f) = (c, rs, ixs, us)"
    by (cases "partition_cached now ks 0 (cache f)") auto
  note shape = partition_cached_shape [OF q]
  show ?thesis
  proof (cases "us = []")
    case True
    then have "None \<notin> set rs" using shape by (auto simp: in_set_conv_nth)
    from finish_load_total [OF this, of L ks "f\<lparr>cache := c\<rparr>"]
    show ?thesis using True q shape by (auto simp: load_accounts_def)
  next
    case us: False
    show ?thesis
    proof (cases "rpc f")
      case None
      then show ?thesis using us q by (auto simp: load_accounts_def)
    next
      case (Some cb)
      obtain cb' r where fe: "fetch_multiple_accounts (net_t0 net) (net_t1 net) (net_others net)
          (net_multi net) (net_multi_fallback net) us cb = (cb', r)" by fastforce
      show ?thesis
      proof (cases r)
        case (Inl e)
        then show ?thesis using us q Some fe by (auto simp: load_accounts_def)
      next
        case (Inr fetched)
        obtain c' out where st: "store_fetched now ks ixs fetched rs c = (c', out)" by fastforce
        have "length fetched = length ixs"
          using fetch_multiple_sized [OF assms(1) assms(2) fe [unfolded Inr]] shape by simp
        note total = store_fetched_total [OF this, of rs now ks c]
        show ?thesis
          using us q Some fe Inr st total shape
            finish_load_total [of _ L ks "f\<lparr>cache := c', rpc := Some cb'\<rparr>"]
          by (cases out) (fastforce simp: load_accounts_def)+
      qed
    qed
  qed
qed

subsection \<open>A run on a small fork\<close>

text \<open>
  A fork whose state is an association list, one transaction with a Pyth call, and a provider that
  knows no account.
\<close>

definition feed_key :: pubkey where "feed_key = Pubkey ''Feed''"

definition oracle_tx :: transaction where
  "oracle_tx =
     \<lparr>signatures = [], message_header = (1, 0, 1), account_keys = [feed_key, Pubkey PYTH_PROGRAM_ID],
      recent_blockhash = [], instructions = [\<lparr>program_id_index = 1, ci_accounts = [0], ci_data = [7]\<rparr>]\<rparr>"

definition toy_svm :: "((pubkey, account) hashmap, transaction) svm_ops" where
  "toy_svm =
     \<lparr>svm_set_account = (\<lambda>k a s. Inr (hm_insert k a s)), svm_get_account = hm_get,
      svm_simulate = (\<lambda>s t. SimFailed ''blockhash not found''
         \<lparr>inner_instructions = [], meta_logs = [], meta_compute_units = 0, meta_fee = 5000\<rparr>),
      tx_serialize = (\<lambda>t. Inr []), vtx_deserialize = (\<lambda>bs. Inr oracle_tx)\<rparr>"

definition empty_network :: network where
  "empty_network =
     \<lparr>net_t0 = 0, net_t1 = 0, net_others = id, net_account = (\<lambda>k. (0, Inr None)),
      net_account_fallback = (\<lambda>k. Inr None), net_multi = (\<lambda>ks. (0, Inr (map (\<lambda>k. None) ks))),
      net_multi_fallback = (\<lambda>ks. Inr (map (\<lambda>k. None) ks)), net_slot = (0, Inr 7),
      net_slot_fallback = Inr 7, net_hash = (0, Inr ([], 7)), net_hash_fallback = Inr ([], 7)\<rparr>"

text \<open>A direct Pyth call, with Switchboard in the logs only: the account beside the feed is read too.\<close>

definition beside_key :: pubkey where "beside_key = Pubkey ''Beside''"

definition beside_tx :: transaction where
  "beside_tx = oracle_tx\<lparr>account_keys := [feed_key, Pubkey PYTH_PROGRAM_ID, beside_key]\<rparr>"

theorem oracle_reads_complete_witness:
  "logs_name [SWITCHBOARD_V2_PROGRAM_ID] SWITCHBOARD_V2_PROGRAM_ID \<and>
   caller_type beside_tx feed_key = Some ''pyth'' \<and> caller_type beside_tx beside_key = None \<and>
   read_type (detect_oracle_reads beside_tx [SWITCHBOARD_V2_PROGRAM_ID]) feed_key = Some ''pyth'' \<and>
   read_type (detect_oracle_reads beside_tx [SWITCHBOARD_V2_PROGRAM_ID]) beside_key \<noteq> None \<and>
   oracle_pubkey ` set (detect_oracle_reads beside_tx [SWITCHBOARD_V2_PROGRAM_ID]) = {feed_key, beside_key}"
proof -
  let ?rs = "detect_oracle_reads beside_tx [SWITCHBOARD_V2_PROGRAM_ID]"
  have c: "logs_name [SWITCHBOARD_V2_PROGRAM_ID] SWITCHBOARD_V2_PROGRAM_ID" by (simp add: logs_name_def SWITCHBOARD_V2_PROGRAM_ID_def)
  have ts: "caller_type beside_tx feed_key = Some ''pyth''" "caller_type beside_tx beside_key = None"
    by (simp_all add: caller_type_def beside_tx_def oracle_tx_def direct_oracle_keys_def get_def oracle_programs_def oracle_type_of_def
        feed_key_def beside_key_def PYTH_PROGRAM_ID_def SWITCHBOARD_V2_PROGRAM_ID_def)
  have unused: "\<forall>ix \<in> set (instructions beside_tx).
      get (account_keys beside_tx) (unat (program_id_index ix)) \<noteq> Some (Pubkey SWITCHBOARD_V2_PROGRAM_ID)"
    by (simp add: beside_tx_def oracle_tx_def get_def PYTH_PROGRAM_ID_def SWITCHBOARD_V2_PROGRAM_ID_def)
  have keys: "set (account_keys beside_tx) - oracle_programs = {feed_key, beside_key}"
    by (auto simp: beside_tx_def oracle_tx_def oracle_programs_def feed_key_def beside_key_def PYTH_PROGRAM_ID_def SWITCHBOARD_V2_PROGRAM_ID_def)
  note th = oracle_reads_complete [of beside_tx "[SWITCHBOARD_V2_PROGRAM_ID]"]
  have all: "oracle_pubkey ` set ?rs = {feed_key, beside_key}" using th c unused keys by blast
  have "read_type ?rs feed_key = Some ''pyth''" using th ts(1) by simp
  moreover have "read_type ?rs beside_key \<noteq> None" using all by (auto simp: read_type_None)
  ultimately show ?thesis using c ts all by blast
qed

theorem trace_keeps_signed_calls_witness:
  "\<exists>tr. execute_transaction toy_svm (new_offline []) oracle_tx = Inr tr \<and> \<not> success tr \<and>
     take 1 (cpi_graph tr) = [cpi_of (account_keys oracle_tx) 0 1 (instructions oracle_tx ! 0)] \<and>
     balance_deltas tr = []"
proof -
  obtain tr where tr: "execute_transaction toy_svm (new_offline []) oracle_tx = Inr tr" "\<not> success tr"
    by (simp add: execute_transaction_def toy_svm_def Let_def)
  show ?thesis using trace_keeps_signed_calls [OF tr(1)] tr by (auto simp: oracle_tx_def)
qed

theorem balance_deltas_exact_witness:
  "distinct (map fst [(feed_key, sample_account)]) \<and>
   hm_get (compute_balance_deltas [] [(feed_key, sample_account)]) feed_key = Some 5"
  using balance_deltas_exact [of "[(feed_key, sample_account)]" feed_key sample_account "[]"]
  by (simp add: sample_account_def pre_lamports_def)

theorem rewritten_data_not_recorded_witness:
  "[1] \<noteq> ([2] :: bytes) \<and>
   compute_account_changes [(feed_key, \<lparr>snap_lamports = 5, snap_owner = pubkey_default, snap_data_len = 1\<rparr>)]
     [(feed_key, sample_account\<lparr>acct_data := [2]\<rparr>)] = []"
  using rewritten_data_not_recorded [of "[(feed_key, \<lparr>snap_lamports = 5, snap_owner = pubkey_default, snap_data_len = 1\<rparr>)]"
      feed_key "sample_account\<lparr>acct_data := [1]\<rparr>" "sample_account\<lparr>acct_data := [2]\<rparr>" "[2]" "[]" "[]"]
  by (simp add: sample_account_def compute_account_changes_def)

theorem load_accounts_returns_witness:
  "\<exists>f' r. load_accounts toy_svm 0 empty_network [feed_key] (new_offline []) = Some (f', r) \<and>
     (\<forall>as. r = Inr as \<longrightarrow> length as = 1)"
  using load_accounts_returns [of empty_network toy_svm 0 "[feed_key]" "new_offline []"]
  by (simp add: empty_network_def)

text \<open>The panic of the batch load on an answer that is too short.\<close>

lemma short_reply_panics:
  "load_accounts toy_svm 0 (empty_network\<lparr>net_multi := \<lambda>ks. (0, Inr [])\<rparr>) [feed_key]
     ((new_offline [])\<lparr>rpc := Some circuit_breaker_new\<rparr>) = None"
  by (simp add: load_accounts_def new_offline_def account_cache_new_def acache_get_def cache_look_def
      fetch_multiple_accounts_def try_primary_def is_available_def circuit_breaker_new_def
      empty_network_def finish_load_def)

end
