(* ===== verification/Geyser.thy ===== *)
theory Geyser
  imports Executor
begin

section \<open>The account stream\<close>

text \<open>
  \<^verbatim>\<open>crates/ciel-fork/src/geyser.rs\<close>: the subscriber that feeds account updates into the cache and the
  staleness tracker, follows the requests for more accounts, and fills gaps over RPC after a
  disconnect. The gRPC client is a parameter: the outcome of connecting and the messages of the
  stream. The conversion of 32 key bytes to a key (base58) is the parameter \<open>b58\<close>.

  The lemmas show what an update makes readable, what a subscription asks for, that a requested
  account that is not cached is never asked for, and the bounds of the reconnection delay.
\<close>

subsection \<open>Configuration\<close>

definition V1_MONITORED_PROGRAMS :: "string list" where
  "V1_MONITORED_PROGRAMS =
     [''TokenkegQfeZyiNwAJbNbGKPFXCWuBvf9Ss623VQ5DA'',
      ''ATokenGPvbdGVxr1b2hvZbsiqW5xWH25efTNsLJA8knL'',
      ''11111111111111111111111111111111'',
      ''dRiftyHA39MWEi3m9aunc5MzRF1JYuBsbn6VPcn33UH'',
      ''JUP6LkbZbjS1jKKwapdHNy74zcZ3tLUZoi5QNyVTaV4'',
      ''675kPX9MHTjS2zt1qfr1NYHuzeLXfQM9H24wFSUt1Mp8'',
      ''whirLbMiicVdio4qvUfM5KAg6Ct8VwpYzGff3uctyCc'',
      ''MarBmsSgKXdrN1egZf5sqe1TMai9K1rChYNDJgjq7aD'',
      ''SW1TCH7qEPTdLsDHRgPuMQjbQxKdH2aBStViMFnt64f'',
      ''FsJ3A3u2vn5cTVofAjvy6y5kwABJAqYWpe4975bi2epH'']"

record geyser_config =
  endpoint :: string
  api_key :: string
  backoff_base :: time
  backoff_max :: time
  initial_accounts :: "pubkey list"

text \<open>Every literal of the list is a key, so the parse keeps them all.\<close>

definition geyser_from_env :: "(string \<Rightarrow> string option) \<Rightarrow> (fork_error, geyser_config) result" where
  "geyser_from_env env =
     bind_result (ok_or (ConfigError ''HELIUS_API_KEY not set'') (env ''HELIUS_API_KEY'')) (\<lambda>key.
     Inr \<lparr>endpoint = (case env ''HELIUS_LASERSTREAM_URL'' of
                        Some u \<Rightarrow> u | None \<Rightarrow> ''https://laserstream.helius-rpc.com''),
          api_key = key, backoff_base = from_millis 100, backoff_max = from_secs 5,
          initial_accounts = map Pubkey V1_MONITORED_PROGRAMS\<rparr>)"

subsection \<open>The subscriber\<close>

text \<open>\<open>queue\<close> is the channel of account lists to add, in sending order.\<close>

record geyser =
  g_config :: geyser_config
  g_cache :: account_cache
  g_rpc :: circuit_breaker
  g_staleness :: staleness_tracker
  g_queue :: "pubkey list list"

definition geyser_new :: "geyser_config \<Rightarrow> account_cache \<Rightarrow> circuit_breaker \<Rightarrow> staleness_tracker \<Rightarrow> geyser" where
  "geyser_new cfg c cb st =
     \<lparr>g_config = cfg, g_cache = c, g_rpc = cb, g_staleness = st, g_queue = []\<rparr>"

definition account_send :: "pubkey list \<Rightarrow> geyser \<Rightarrow> geyser" where
  "account_send ks g = g\<lparr>g_queue := g_queue g @ [ks]\<rparr>"

record account_info =
  info_pubkey :: bytes
  info_lamports :: u64
  info_owner :: bytes
  info_executable :: bool
  info_rent_epoch :: u64
  info_data :: bytes

record account_update =
  upd_slot :: u64
  upd_account :: "account_info option"

definition pubkey_try_from :: "(bytes \<Rightarrow> pubkey) \<Rightarrow> bytes \<Rightarrow> pubkey option" where
  "pubkey_try_from b58 bs = (if length bs = 32 then Some (b58 bs) else None)"

definition handle_account_update :: "(bytes \<Rightarrow> pubkey) \<Rightarrow> time \<Rightarrow> account_update \<Rightarrow> geyser \<Rightarrow> geyser" where
  "handle_account_update b58 now u g =
     (case upd_account u of
        None \<Rightarrow> g
      | Some info \<Rightarrow>
          (case pubkey_try_from b58 (info_pubkey info) of
             None \<Rightarrow> g
           | Some k \<Rightarrow>
               (let owner = (case pubkey_try_from b58 (info_owner info) of Some w \<Rightarrow> w | None \<Rightarrow> pubkey_default);
                    a = \<lparr>lamports = info_lamports info, acct_data = info_data info, acct_owner = owner,
                         executable = info_executable info, rent_epoch = info_rent_epoch info\<rparr>
                in g\<lparr>g_cache := acache_insert now k a True (g_cache g),
                     g_staleness := record_update now (upd_slot u) (g_staleness g)\<rparr>)))"

datatype commitment_level = Processed | Confirmed | Finalized

record filter_accounts =
  fa_account :: "string list"
  fa_owner :: "string list"

record subscribe_request =
  req_accounts :: "(string, filter_accounts) hashmap"
  req_commitment :: "commitment_level option"
  req_from_slot :: "u64 option"
  req_ping :: "nat option"

definition add_missing :: "string list \<Rightarrow> string list \<Rightarrow> string list" where
  "add_missing ks ms = fold (\<lambda>s acc. if s \<in> set acc then acc else acc @ [s]) ms ks"

definition build_subscribe_request :: "u64 \<Rightarrow> geyser \<Rightarrow> subscribe_request" where
  "build_subscribe_request from_slot g =
     (let ks = add_missing (map pk_text (initial_accounts (g_config g)))
                 (map pk_text (monitored_keys (g_cache g)))
      in \<lparr>req_accounts = [(''monitored'', \<lparr>fa_account = ks, fa_owner = []\<rparr>)],
          req_commitment = Some Confirmed,
          req_from_slot = (if 0 < from_slot then Some from_slot else None), req_ping = None\<rparr>)"

text \<open>
  Draining the channel: every list is taken and each of its keys marked. \<open>locked\<close> says that the
  receiver is held elsewhere; \<open>None\<close> means that no request is sent.
\<close>

definition check_dynamic_accounts :: "bool \<Rightarrow> geyser \<Rightarrow> geyser \<times> subscribe_request option" where
  "check_dynamic_accounts locked g =
     (if locked then (g, None)
      else let c = fold (\<lambda>ks c. fold mark_monitored ks c) (g_queue g) (g_cache g);
               g' = g\<lparr>g_cache := c, g_queue := []\<rparr>
           in (g', if g_queue g \<noteq> [] then Some (build_subscribe_request 0 g') else None))"

subsection \<open>The stream\<close>

datatype stream_message =
    AccountMsg account_update
  | PingMsg
  | OtherMsg
  | StreamError string

definition pong :: subscribe_request where
  "pong = \<lparr>req_accounts = [], req_commitment = None, req_from_slot = None, req_ping = Some 1\<rparr>"

text \<open>
  The body of \<^verbatim>\<open>connect_and_stream\<close> after connecting. Each message comes with its instant, the keys
  other tasks sent meanwhile and whether the receiver is locked; the requests sent are collected.
\<close>

fun stream_loop ::
    "(bytes \<Rightarrow> pubkey) \<Rightarrow> (time \<times> pubkey list list \<times> bool \<times> stream_message) list \<Rightarrow> geyser \<Rightarrow>
     geyser \<times> subscribe_request list \<times> (fork_error, unit) result" where
  "stream_loop b58 [] g = (g, [], Inr ())"
| "stream_loop b58 ((now, sent, locked, msg) # rest) g =
     (let g0 = fold account_send sent g
      in case msg of
           StreamError e \<Rightarrow> (g0, [], Inl (GeyserError (''stream error: '' @ e)))
         | AccountMsg u \<Rightarrow>
             (let (g1, r) = check_dynamic_accounts locked (handle_account_update b58 now u g0);
                  (g2, rs, res) = stream_loop b58 rest g1
              in (g2, (case r of None \<Rightarrow> [] | Some q \<Rightarrow> [q]) @ rs, res))
         | PingMsg \<Rightarrow>
             (let (g1, r) = check_dynamic_accounts locked g0; (g2, rs, res) = stream_loop b58 rest g1
              in (g2, pong # (case r of None \<Rightarrow> [] | Some q \<Rightarrow> [q]) @ rs, res))
         | OtherMsg \<Rightarrow>
             (let (g1, r) = check_dynamic_accounts locked g0; (g2, rs, res) = stream_loop b58 rest g1
              in (g2, (case r of None \<Rightarrow> [] | Some q \<Rightarrow> [q]) @ rs, res)))"

text \<open>Connecting fails at the endpoint, the key, the connection or the subscription.\<close>

datatype connect_outcome =
    InvalidEndpoint string | InvalidApiKey string | ConnectFailed string | SubscribeFailed string
  | Connected "(time \<times> pubkey list list \<times> bool \<times> stream_message) list"

definition connect_and_stream ::
    "(bytes \<Rightarrow> pubkey) \<Rightarrow> connect_outcome \<Rightarrow> u64 \<Rightarrow> geyser \<Rightarrow>
     geyser \<times> subscribe_request list \<times> (fork_error, unit) result" where
  "connect_and_stream b58 outcome from_slot g =
     (case outcome of
        InvalidEndpoint e \<Rightarrow> (g, [], Inl (GeyserError (''invalid endpoint: '' @ e)))
      | InvalidApiKey e \<Rightarrow> (g, [], Inl (GeyserError (''invalid api key: '' @ e)))
      | ConnectFailed e \<Rightarrow> (g, [], Inl (GeyserError (''connect failed: '' @ e)))
      | SubscribeFailed e \<Rightarrow>
          (g, [build_subscribe_request from_slot g], Inl (GeyserError (''subscribe failed: '' @ e)))
      | Connected msgs \<Rightarrow>
          (let (g', rs, res) = stream_loop b58 msgs g
           in (g', build_subscribe_request from_slot g # rs, res)))"

subsection \<open>Gap fill\<close>

function chunks :: "nat \<Rightarrow> 'a list \<Rightarrow> 'a list list" where
  "chunks n xs = (if xs = [] \<or> n = 0 then [] else take n xs # chunks n (drop n xs))"
  by pat_completeness auto
termination
  by (relation "measure (length \<circ> snd)") auto

declare chunks.simps [simp del]

definition store_chunk :: "time \<Rightarrow> pubkey list \<Rightarrow> account option list \<Rightarrow> account_cache \<Rightarrow> account_cache" where
  "store_chunk now ks xs c =
     fold (\<lambda>(k, x) c. case x of Some a \<Rightarrow> acache_insert now k a True c | None \<Rightarrow> c) (zip ks xs) c"

text \<open>The \<open>i\<close>th RPC call sees the network \<open>net i\<close>; the first failing call ends the fill.\<close>

fun fill_chunks ::
    "time \<Rightarrow> (nat \<Rightarrow> network) \<Rightarrow> nat \<Rightarrow> pubkey list list \<Rightarrow> geyser \<Rightarrow> geyser \<times> (fork_error, nat) result" where
  "fill_chunks now net i [] g = (g, Inr i)"
| "fill_chunks now net i (ks # kss) g =
     (case fetch_multiple_accounts (net_t0 (net i)) (net_t1 (net i)) (net_others (net i)) (net_multi (net i))
             (net_multi_fallback (net i)) ks (g_rpc g) of
        (cb, Inl e) \<Rightarrow> (g\<lparr>g_rpc := cb\<rparr>, Inl e)
      | (cb, Inr xs) \<Rightarrow>
          fill_chunks now net (i + 1) kss (g\<lparr>g_rpc := cb, g_cache := store_chunk now ks xs (g_cache g)\<rparr>))"

definition rpc_gap_fill :: "time \<Rightarrow> (nat \<Rightarrow> network) \<Rightarrow> geyser \<Rightarrow> geyser \<times> (fork_error, unit) result" where
  "rpc_gap_fill now net g =
     (if monitored_keys (g_cache g) = [] then (g, Inr ())
      else case fill_chunks now net 0 (chunks 100 (monitored_keys (g_cache g))) g of
             (g1, Inl e) \<Rightarrow> (g1, Inl e)
           | (g1, Inr i) \<Rightarrow>
               (case get_slot (net_t0 (net i)) (net_t1 (net i)) (net_others (net i)) (net_slot (net i))
                       (net_slot_fallback (net i)) (g_rpc g1) of
                  (cb, Inl e) \<Rightarrow> (g1\<lparr>g_rpc := cb\<rparr>, Inl e)
                | (cb, Inr sl) \<Rightarrow>
                    (g1\<lparr>g_rpc := cb, g_staleness := record_update now sl (g_staleness g1)\<rparr>, Inr ())))"

subsection \<open>The reconnection loop\<close>

text \<open>One round: stream, gap fill, sleep; the result is the time slept and the next delay.\<close>

definition run_round ::
    "(bytes \<Rightarrow> pubkey) \<Rightarrow> connect_outcome \<Rightarrow> time \<Rightarrow> (nat \<Rightarrow> network) \<Rightarrow> time \<Rightarrow> geyser \<Rightarrow>
     geyser \<times> time \<times> time" where
  "run_round b58 outcome now net backoff g =
     (let (g1, rs, res) = connect_and_stream b58 outcome (last_slot (g_staleness g)) g;
          delay = (case res of Inr u \<Rightarrow> backoff_base (g_config g) | Inl e \<Rightarrow> backoff);
          (g2, filled) = rpc_gap_fill now net g1
      in (g2, delay, min (delay * 2) (backoff_max (g_config g))))"

text \<open>The loop over a finite prefix of rounds; it has no exit of its own.\<close>

fun run_loop ::
    "(bytes \<Rightarrow> pubkey) \<Rightarrow> (connect_outcome \<times> time \<times> (nat \<Rightarrow> network)) list \<Rightarrow> time \<Rightarrow> geyser \<Rightarrow>
     geyser \<times> time list" where
  "run_loop b58 [] backoff g = (g, [])"
| "run_loop b58 ((outcome, now, net) # rounds) backoff g =
     (let (g', slept, backoff') = run_round b58 outcome now net backoff g;
          (g'', sleeps) = run_loop b58 rounds backoff' g'
      in (g'', slept # sleeps))"

subsection \<open>Updates\<close>

text \<open>An account update from the stream with a 32-byte key is readable from the cache for the longer
  time to live, with the streamed balance and data, and makes the stream fresh at its slot; an
  update without account or with a malformed key changes nothing.\<close>

theorem account_update_readable:
  assumes "upd_account u = Some info"
  shows "(length (info_pubkey info) = 32 \<and> d \<le> monitored_ttl (g_cache g) \<longrightarrow>
      (\<exists>a. snd (acache_get (now + d) (b58 (info_pubkey info)) (g_cache (handle_account_update b58 now u g))) = Some a \<and>
           lamports a = info_lamports info \<and> acct_data a = info_data info) \<and>
      last_slot (g_staleness (handle_account_update b58 now u g)) = upd_slot u \<and>
      staleness_state_at now (g_staleness (handle_account_update b58 now u g)) = Fresh) \<and>
    (length (info_pubkey info) \<noteq> 32 \<longrightarrow> handle_account_update b58 now u g = g)"
  using assms
  by (simp add: handle_account_update_def pubkey_try_from_def Let_def acache_get_snd fresh_entry_insert
      record_update_def staleness_state_at_def time_since_last_update_def elapsed_def)

subsection \<open>Subscriptions\<close>

lemma set_add_missing: "set (add_missing ks ms) = set ks \<union> set ms"
proof (induction ms arbitrary: ks)
  case (Cons m ms)
  then show ?case by (auto simp: add_missing_def)
qed (simp add: add_missing_def)

lemma distinct_add_missing: "distinct ks \<Longrightarrow> distinct (add_missing ks ms)"
proof (induction ms arbitrary: ks)
  case (Cons m ms)
  then show ?case by (auto simp: add_missing_def)
qed (simp add: add_missing_def)

definition subscribed :: "subscribe_request \<Rightarrow> string set" where
  "subscribed q = (\<Union>(nm, f) \<in> set (req_accounts q). set (fa_account f))"

lemma subscribed_request:
  "subscribed (build_subscribe_request sl g) =
     pk_text ` (set (initial_accounts (g_config g)) \<union> set (monitored_keys (g_cache g)))"
  by (simp add: subscribed_def build_subscribe_request_def Let_def set_add_missing image_Un)

lemma monitored_keys_known: "k \<in> set (monitored_keys c) \<Longrightarrow> hm_get (entries c) k \<noteq> None"
  by (auto simp: monitored_keys_def map_of_eq_None_iff image_iff) (metis fst_conv)

lemma mark_monitored_unknown: "hm_get (entries c) k = None \<Longrightarrow> mark_monitored k c = c"
  by (simp add: mark_monitored_def)

lemma mark_all_unknown:
  "\<forall>k \<in> set ks. hm_get (entries c) k = None \<Longrightarrow> fold mark_monitored ks c = c"
  by (induction ks) (simp_all add: mark_monitored_unknown)

lemma drain_unknown:
  "\<forall>ks \<in> set q. \<forall>k \<in> set ks. hm_get (entries c) k = None \<Longrightarrow> fold (\<lambda>ks c. fold mark_monitored ks c) q c = c"
  by (induction q) (simp_all add: mark_all_unknown)

text \<open>A request to follow accounts that are not in the cache is lost: the keys are taken from the
  channel, nothing is marked, and the renewed subscription asks for none of them (unless they were
  configured from the start).\<close>

theorem uncached_account_request_lost:
  assumes "\<forall>ks \<in> set (g_queue g). \<forall>k \<in> set ks. hm_get (entries (g_cache g)) k = None"
    and "ks \<in> set (g_queue g)" "k \<in> set ks" "k \<notin> set (initial_accounts (g_config g))"
  shows "\<exists>q. check_dynamic_accounts False g = (g\<lparr>g_queue := []\<rparr>, Some q) \<and> pk_text k \<notin> subscribed q"
proof -
  have "fold (\<lambda>ks c. fold mark_monitored ks c) (g_queue g) (g_cache g) = g_cache g"
    using assms(1) by (rule drain_unknown)
  moreover have "k \<notin> set (monitored_keys (g_cache g))"
    using assms(1-3) monitored_keys_known by blast
  ultimately show ?thesis
    using assms(2,4)
    by (auto simp: check_dynamic_accounts_def Let_def subscribed_request dest: pubkey.expand)
qed

subsection \<open>The reconnection delay\<close>

lemma config_dynamic [simp]: "g_config (fst (check_dynamic_accounts locked g)) = g_config g"
  by (simp add: check_dynamic_accounts_def Let_def)

lemma config_update [simp]: "g_config (handle_account_update b58 now u g) = g_config g"
  by (simp add: handle_account_update_def Let_def split: option.splits)

lemma config_send [simp]: "g_config (fold account_send sent g) = g_config g"
  by (induction sent arbitrary: g) (simp_all add: account_send_def)

lemma config_stream [simp]: "g_config (fst (stream_loop b58 msgs g)) = g_config g"
proof (induction msgs arbitrary: g)
  case (Cons m msgs)
  then show ?case
    by (cases m) (auto simp: Let_def case_prod_beta' split: stream_message.splits)
qed simp

lemma config_connect [simp]: "g_config (fst (connect_and_stream b58 outcome sl g)) = g_config g"
  by (simp add: connect_and_stream_def Let_def case_prod_beta' split: connect_outcome.splits)

lemma config_fill: "g_config (fst (fill_chunks now net i kss g)) = g_config g"
  by (induction now net i kss g rule: fill_chunks.induct) (auto split: prod.splits sum.splits)

lemma config_gap_fill [simp]: "g_config (fst (rpc_gap_fill now net g)) = g_config g"
  using config_fill [of now net 0 "chunks 100 (monitored_keys (g_cache g))" g]
  by (auto simp: rpc_gap_fill_def split: prod.splits sum.splits)

lemma run_round_shape:
  "run_round b58 outcome now net backoff g = (g', slept, next) \<Longrightarrow>
    g_config g' = g_config g \<and> (slept = backoff \<or> slept = backoff_base (g_config g)) \<and>
    next = min (slept * 2) (backoff_max (g_config g))"
  using config_connect [of b58 outcome "last_slot (g_staleness g)" g]
    config_gap_fill [of now net "fst (connect_and_stream b58 outcome (last_slot (g_staleness g)) g)"]
  by (auto simp: run_round_def Let_def case_prod_beta' split: sum.splits)

text \<open>The reconnection delay stays between its base and its maximum in every round, whatever the
  streams do (100 ms and 5 s by default).\<close>

theorem backoff_bounded:
  assumes "0 < backoff_base (g_config g)" "backoff_base (g_config g) \<le> backoff_max (g_config g)"
    and "s \<in> set (snd (run_loop b58 rounds (backoff_base (g_config g)) g))"
  shows "backoff_base (g_config g) \<le> s \<and> s \<le> backoff_max (g_config g)"
proof -
  have "\<forall>s \<in> set (snd (run_loop b58 rounds b g)). backoff_base (g_config g) \<le> s \<and> s \<le> backoff_max (g_config g)"
    if "backoff_base (g_config g) \<le> b" "b \<le> backoff_max (g_config g)"
      "backoff_base (g_config g) \<le> backoff_max (g_config g)" for b g
    using that
  proof (induction b58 rounds b g rule: run_loop.induct)
    case (2 b58 outcome now net rounds b g)
    obtain g' slept b' where r: "run_round b58 outcome now net b g = (g', slept, b')"
      by (cases "run_round b58 outcome now net b g") auto
    have "\<forall>s \<in> set (snd (run_loop b58 rounds b' g')). backoff_base (g_config g) \<le> s \<and> s \<le> backoff_max (g_config g)"
      using "2.IH" [OF r [symmetric] refl refl] run_round_shape [OF r] "2.prems" by auto
    then show ?case
      using run_round_shape [OF r] "2.prems" by (auto simp: r Let_def case_prod_beta')
  qed simp
  then show ?thesis using assms by blast
qed

subsection \<open>A small stream\<close>

definition small_geyser :: geyser where
  "small_geyser =
     geyser_new \<lparr>endpoint = [], api_key = [], backoff_base = from_millis 100, backoff_max = from_secs 5,
                 initial_accounts = []\<rparr>
       account_cache_new circuit_breaker_new (tracker_new 0 staleness_config_default)"

definition small_update :: account_update where
  "small_update =
     \<lparr>upd_slot = 9, upd_account = Some \<lparr>info_pubkey = replicate 32 1, info_lamports = 4, info_owner = [],
        info_executable = False, info_rent_epoch = 0, info_data = [8]\<rparr>\<rparr>"

theorem account_update_readable_witness:
  "length (info_pubkey (the (upd_account small_update))) = 32 \<and>
   (\<exists>a. snd (acache_get (0 + from_secs 600) feed_key
      (g_cache (handle_account_update (\<lambda>bs. feed_key) 0 small_update small_geyser))) = Some a \<and> lamports a = 4)"
  using account_update_readable [of small_update "the (upd_account small_update)" "from_secs 600" small_geyser 0 "\<lambda>bs. feed_key"]
  by (auto simp: small_update_def small_geyser_def geyser_new_def account_cache_new_def DEFAULT_MONITORED_TTL_SECS_def)

theorem uncached_account_request_lost_witness:
  "\<exists>q. check_dynamic_accounts False (account_send [feed_key] small_geyser) =
      (small_geyser, Some q) \<and> pk_text feed_key \<notin> subscribed q"
  using uncached_account_request_lost [of "account_send [feed_key] small_geyser" "[feed_key]" feed_key]
  by (simp add: account_send_def small_geyser_def geyser_new_def account_cache_new_def)

theorem backoff_bounded_witness:
  "\<exists>s. s \<in> set (snd (run_loop (\<lambda>bs. feed_key) [(ConnectFailed [], 0, \<lambda>i. empty_network)] (from_millis 100) small_geyser)) \<and>
     from_millis 100 \<le> s \<and> s \<le> from_secs 5"
proof -
  have b: "backoff_base (g_config small_geyser) = from_millis 100" "backoff_max (g_config small_geyser) = from_secs 5"
    by (simp_all add: small_geyser_def geyser_new_def)
  have c: "0 < backoff_base (g_config small_geyser)" "backoff_base (g_config small_geyser) \<le> backoff_max (g_config small_geyser)"
    by (simp_all add: b from_millis_def from_secs_def)
  obtain s where
    s: "s \<in> set (snd (run_loop (\<lambda>bs. feed_key) [(ConnectFailed [], 0, \<lambda>i. empty_network)] (from_millis 100) small_geyser))"
    by (auto simp: Let_def case_prod_beta')
  show ?thesis using backoff_bounded [OF c, unfolded b, OF s] s by blast
qed

end
