(* ===== verification/Scorer.thy ===== *)
theory Scorer
  imports Checker_Core Attestation
begin

section \<open>The scorer\<close>

text \<open>
  \<^verbatim>\<open>crates/ciel-pipeline/src/scorer_stub.rs\<close>: the safety score in \<^verbatim>\<open>f64\<close> arithmetic, the verdict and
  the fixed-point score of the attestation. The score subtracts the penalties in the iteration
  order of the result map, which is the order of \<open>outputs\<close> here.

  The exact score (\<open>exact_score\<close>, in rational arithmetic) is the specification. The lemmas bound the
  rounding error of the whole loop and show that the attested score is the exact one, that a
  verdict is right outside the two thresholds, and that at a threshold it depends on the order.
\<close>

subsection \<open>Definitions\<close>

fun penalty :: "severity \<Rightarrow> f64" where
  "penalty SevNone = rnd 0"
| "penalty Low = rnd (5/100)"
| "penalty Medium = rnd (15/100)"
| "penalty High = rnd (40/100)"
| "penalty Critical = rnd 1"

fun status_penalty :: "checker_status \<Rightarrow> f64" where
  "status_penalty (Completed out) = penalty (out_severity out)"
| "status_penalty TimedOut = rnd (10/100)"

definition compute_safety_score :: "checker_results \<Rightarrow> f64" where
  "compute_safety_score r =
     f_clamp (foldl (\<lambda>score status. f_sub score (status_penalty status)) (rnd 1) (map snd (outputs r)))
       (rnd 0) (rnd 1)"

definition score_to_verdict :: "f64 \<Rightarrow> checker_results \<Rightarrow> verdict" where
  "score_to_verdict score r =
     (if \<exists>out \<in> set (completed r). out_severity out = Critical then Block
      else if f_le (rnd (7/10)) score then Approve
      else if f_le (rnd (4/10)) score then Warn
      else Block)"

definition encode_score_u16 :: "f64 \<Rightarrow> u16" where
  "encode_score_u16 score =
     of_int (f_cast 0 65535 (f_round (f_mul (f_clamp score (rnd 0) (rnd 1)) (rnd 10000))))"

subsection \<open>The exact score\<close>

fun exact_penalty :: "checker_status \<Rightarrow> rat" where
  "exact_penalty (Completed out) =
     (case out_severity out of SevNone \<Rightarrow> 0 | Low \<Rightarrow> 5/100 | Medium \<Rightarrow> 15/100 | High \<Rightarrow> 40/100 | Critical \<Rightarrow> 1)"
| "exact_penalty TimedOut = 10/100"

definition exact_sum :: "checker_status list \<Rightarrow> rat" where
  "exact_sum sts = 1 - sum_list (map exact_penalty sts)"

definition exact_score :: "checker_results \<Rightarrow> rat" where
  "exact_score r = max 0 (min 1 (exact_sum (map snd (outputs r))))"

definition has_critical :: "checker_results \<Rightarrow> bool" where
  "has_critical r \<longleftrightarrow> (\<exists>out \<in> set (completed r). out_severity out = Critical)"

subsection \<open>Exact scores are multiples of a twentieth\<close>

lemma status_penalty_exact: "status_penalty st = rnd (exact_penalty st)"
proof (cases st)
  case (Completed out)
  then show ?thesis by (cases "out_severity out") simp_all
qed simp

lemma exact_penalty_bounds: "0 \<le> exact_penalty st \<and> exact_penalty st \<le> 1"
  by (cases st) (auto split: severity.splits)

lemma exact_penalty_twentieth: "\<exists>k::int. exact_penalty st = of_int k / 20"
proof (cases st)
  case (Completed out)
  have "\<exists>k::int. (of_int k :: rat) / 20 = x" if "x \<in> {0, 5/100, 15/100, 40/100, 1}" for x :: rat
  proof -
    have "x = of_int 0 / 20 \<or> x = of_int 1 / 20 \<or> x = of_int 3 / 20 \<or> x = of_int 8 / 20 \<or> x = of_int 20 / 20"
      using that by auto
    then show ?thesis by metis
  qed
  then show ?thesis using Completed by (cases "out_severity out") (simp; metis)+
next
  case TimedOut
  have "exact_penalty TimedOut = of_int 2 / 20" by simp
  then show ?thesis using TimedOut by metis
qed

lemma exact_sum_twentieth: "\<exists>k::int. exact_sum sts = of_int k / 20"
proof (induction sts)
  case Nil
  have "exact_sum [] = of_int 20 / 20" by (simp add: exact_sum_def)
  then show ?case by blast
next
  case (Cons st sts)
  obtain k l :: int where "exact_sum sts = of_int k / 20" "exact_penalty st = of_int l / 20"
    using Cons exact_penalty_twentieth by metis
  then have "exact_sum (st # sts) = of_int (k - l) / 20" by (simp add: exact_sum_def diff_divide_distrib)
  then show ?case by blast
qed

lemma exact_score_twentieth: "\<exists>k::int. exact_score r = of_int k / 20 \<and> 0 \<le> k \<and> k \<le> 20"
proof -
  obtain k :: int where k: "exact_sum (map snd (outputs r)) = of_int k / 20"
    using exact_sum_twentieth by blast
  have "exact_score r = of_int (max 0 (min 20 k)) / 20"
    unfolding exact_score_def k by (auto simp: max_def min_def)
  then show ?thesis by (intro exI [of _ "max 0 (min 20 k)"]) auto
qed

lemma exact_sum_bounds: "1 - of_nat (length sts) \<le> exact_sum sts \<and> exact_sum sts \<le> 1"
proof (induction sts)
  case Nil
  then show ?case by (simp add: exact_sum_def)
next
  case (Cons st sts)
  then show ?case using exact_penalty_bounds [of st] by (auto simp: exact_sum_def)
qed

subsection \<open>The rounding error of the loop\<close>

definition loop_eps :: rat where "loop_eps = pow2 (- 42)"

lemma rnd_small: "\<bar>x\<bar> < 2048 \<Longrightarrow> \<exists>y. rnd x = Fin y \<and> \<bar>y - x\<bar> \<le> pow2 (- 43)"
  using rnd_error [of x 11] by (simp add: pow2_def)

lemma rnd_unit: "\<bar>x\<bar> \<le> 1 \<Longrightarrow> \<exists>y. rnd x = Fin y \<and> \<bar>y - x\<bar> \<le> pow2 (- 53)"
  using rnd_error [of x 1] by (simp add: pow2_def)

lemma score_loop_error:
  "length sts \<le> 1000 \<Longrightarrow>
    \<exists>y. foldl (\<lambda>score status. f_sub score (status_penalty status)) (rnd 1) sts = Fin y \<and>
      \<bar>y - exact_sum sts\<bar> \<le> of_nat (length sts) * loop_eps"
proof (induction sts rule: rev_induct)
  case Nil
  then show ?case by (simp add: exact_sum_def)
next
  case (snoc st sts)
  then obtain y where y: "foldl (\<lambda>score status. f_sub score (status_penalty status)) (rnd 1) sts = Fin y"
      "\<bar>y - exact_sum sts\<bar> \<le> of_nat (length sts) * loop_eps"
    by auto
  have pen: "\<bar>exact_penalty st\<bar> \<le> 1" using exact_penalty_bounds [of st] by auto
  then obtain q where q: "status_penalty st = Fin q" "\<bar>q - exact_penalty st\<bar> \<le> pow2 (- 53)"
    using rnd_unit status_penalty_exact by metis
  have n: "of_nat (length sts) \<le> (1000 :: rat)" using snoc.prems by simp
  have small: "of_nat (length sts) * loop_eps \<le> 1"
    using n mult_right_mono [OF n, of loop_eps] by (simp add: loop_eps_def pow2_def)
  have p53: "pow2 (- 53) \<le> 1" by (simp add: pow2_def)
  have "\<bar>y - q\<bar> < 2048"
    using y(2) q(2) small p53 pen n exact_sum_bounds [of sts] by linarith
  then obtain z where z: "rnd (y - q) = Fin z" "\<bar>z - (y - q)\<bar> \<le> pow2 (- 43)"
    using rnd_small by blast
  have "exact_sum (sts @ [st]) = exact_sum sts - exact_penalty st" by (simp add: exact_sum_def)
  then have "\<bar>z - exact_sum (sts @ [st])\<bar> \<le> of_nat (length sts) * loop_eps + (pow2 (- 43) + pow2 (- 53))"
    using y(2) q(2) z(2) by linarith
  also have "pow2 (- 43) + pow2 (- 53) \<le> loop_eps" by (simp add: loop_eps_def pow2_def)
  finally have "\<bar>z - exact_sum (sts @ [st])\<bar> \<le> of_nat (length (sts @ [st])) * loop_eps"
    by (simp add: algebra_simps)
  then show ?case using y(1) q(1) z(1) by simp
qed

lemma f_clamp_unit: "f_clamp (Fin y) (rnd 0) (rnd 1) = Fin (max 0 (min 1 y))"
  by (auto simp: f_clamp_def max_def min_def)

lemma clamp_lipschitz: "\<bar>max 0 (min 1 y) - max 0 (min 1 x)\<bar> \<le> \<bar>y - x\<bar>" for x y :: rat
  by (auto simp: max_def min_def abs_if)

lemma compute_safety_score_error:
  assumes "length (outputs r) \<le> 1000"
  shows "\<exists>y. compute_safety_score r = Fin y \<and> 0 \<le> y \<and> y \<le> 1 \<and> \<bar>y - exact_score r\<bar> \<le> pow2 (- 32)"
proof -
  obtain y where y: "foldl (\<lambda>score status. f_sub score (status_penalty status)) (rnd 1) (map snd (outputs r)) = Fin y"
      "\<bar>y - exact_sum (map snd (outputs r))\<bar> \<le> of_nat (length (outputs r)) * loop_eps"
    using score_loop_error [of "map snd (outputs r)"] assms by auto
  have "of_nat (length (outputs r)) * loop_eps \<le> 1000 * loop_eps"
    using assms by (intro mult_right_mono) (auto simp: loop_eps_def)
  also have "\<dots> \<le> pow2 (- 32)" by (simp add: loop_eps_def pow2_def)
  finally have "\<bar>max 0 (min 1 y) - exact_score r\<bar> \<le> pow2 (- 32)"
    using y(2) clamp_lipschitz [of y "exact_sum (map snd (outputs r))"] unfolding exact_score_def by linarith
  moreover have "compute_safety_score r = Fin (max 0 (min 1 y))"
    by (simp add: compute_safety_score_def y(1) f_clamp_unit del: rnd_0 rnd_1)
  ultimately show ?thesis by simp
qed

lemma round_half_away_near: "\<bar>x - of_int n\<bar> < 1/2 \<Longrightarrow> 0 \<le> x \<Longrightarrow> round_half_away x = n"
  by (simp add: round_half_away_def floor_eq_iff abs_if split: if_splits)

lemma truncate_of_int: "truncate_rat (of_int n) = n"
  by (simp add: truncate_rat_def)

lemma encode_score_near:
  assumes "0 \<le> y" "y \<le> 1" "\<bar>y - of_int k / 20\<bar> \<le> pow2 (- 32)" "0 \<le> k" "k \<le> 20"
  shows "encode_score_u16 (Fin y) = of_int (500 * k)"
proof -
  have c: "f_clamp (Fin y) (rnd 0) (rnd 1) = Fin y" using assms(1,2) by (simp only: f_clamp_unit) simp
  have "\<bar>y * 10000\<bar> < pow2 14" using assms(1,2) by (simp add: pow2_def)
  then obtain z where z: "rnd (y * 10000) = Fin z" "\<bar>z - y * 10000\<bar> \<le> pow2 (- 40)"
    using rnd_error [of "y * 10000" 14] by auto
  have z0: "0 \<le> z"
    using rnd_int_bounds [of "y * 10000" 10000] z(1) assms(1,2) by auto
  have "\<bar>y * 10000 - of_int (500 * k)\<bar> = 10000 * \<bar>y - of_int k / 20\<bar>"
    by (simp add: abs_if field_simps)
  also have "\<dots> \<le> 10000 * pow2 (- 32)" using assms(3) by simp
  finally have d: "\<bar>y * 10000 - of_int (500 * k)\<bar> \<le> 10000 * pow2 (- 32)" .
  have "10000 * pow2 (- 32) + pow2 (- 40) < 1/2" by (simp add: pow2_def)
  then have "\<bar>z - of_int (500 * k)\<bar> < 1/2"
    using z(2) d by linarith
  then have "round_half_away z = 500 * k" using z0 by (rule round_half_away_near)
  then have "encode_score_u16 (Fin y) = of_int (f_cast 0 65535 (Fin (of_int (500 * k))))"
    unfolding encode_score_u16_def c by (simp add: z(1) del: rnd_0 rnd_1)
  also have "f_cast 0 65535 (Fin (of_int (500 * k))) = 500 * k"
    using assms(4,5) by (simp add: truncate_of_int del: of_int_mult)
  finally show ?thesis .
qed

subsection \<open>The attested score\<close>

lemma encode_score_exact:
  assumes "length (outputs r) \<le> 1000"
  shows "of_nat (unat (encode_score_u16 (compute_safety_score r))) = 10000 * exact_score r"
proof -
  obtain y where y: "compute_safety_score r = Fin y" "0 \<le> y" "y \<le> 1" "\<bar>y - exact_score r\<bar> \<le> pow2 (- 32)"
    using compute_safety_score_error [OF assms] by blast
  obtain k :: int where k: "exact_score r = of_int k / 20" "0 \<le> k" "k \<le> 20"
    using exact_score_twentieth by blast
  have "encode_score_u16 (Fin y) = of_int (500 * k)"
    using y k by (intro encode_score_near) simp_all
  moreover have "unat (of_int (500 * k) :: u16) = nat (500 * k)"
    using k(2,3) by (simp add: unat_eq_nat_uint uint_word_of_int_eq take_bit_int_eq_self del: of_int_mult)
  ultimately show ?thesis using y(1) k by simp
qed

lemma exact_score_mset: "mset (outputs r) = mset (outputs r') \<Longrightarrow> exact_score r = exact_score r'"
proof -
  assume "mset (outputs r) = mset (outputs r')"
  then have "mset (map exact_penalty (map snd (outputs r))) = mset (map exact_penalty (map snd (outputs r')))"
    by simp
  then have "sum_list (map exact_penalty (map snd (outputs r))) = sum_list (map exact_penalty (map snd (outputs r')))"
    by (metis sum_mset_sum_list)
  then show ?thesis by (simp add: exact_score_def exact_sum_def)
qed

lemma has_critical_score: "has_critical r \<Longrightarrow> exact_score r = 0"
proof -
  assume "has_critical r"
  then obtain k out where out: "(k, Completed out) \<in> set (outputs r)" "out_severity out = Critical"
    by (auto simp: has_critical_def set_completed)
  then have "exact_penalty (Completed out) \<le> sum_list (map exact_penalty (map snd (outputs r)))"
    using exact_penalty_bounds by (intro member_le_sum_list) force+
  then show ?thesis using out(2) by (simp add: exact_score_def exact_sum_def)
qed

text \<open>C17: The attested fixed-point score is the exact one. For any result map of up to a thousand
  checkers, in whatever order the map is iterated, the \<^verbatim>\<open>u16\<close> of the attestation is ten thousand
  times the clamped exact sum of penalties, with no rounding error left, so two iteration orders of
  one map attest the same score.\<close>

theorem attested_score_exact:
  assumes "length (outputs r) \<le> 1000" "mset (outputs r') = mset (outputs r)"
  shows "of_nat (unat (encode_score_u16 (compute_safety_score r))) = 10000 * exact_score r \<and>
    encode_score_u16 (compute_safety_score r') = encode_score_u16 (compute_safety_score r)"
proof -
  have "length (outputs r') \<le> 1000" using assms by (metis size_mset)
  then have "of_nat (unat (encode_score_u16 (compute_safety_score r'))) =
      (of_nat (unat (encode_score_u16 (compute_safety_score r))) :: rat)"
    using encode_score_exact assms exact_score_mset [OF assms(2)] by metis
  then have "unat (encode_score_u16 (compute_safety_score r')) = unat (encode_score_u16 (compute_safety_score r))"
    by (simp only: of_nat_eq_iff)
  then have "encode_score_u16 (compute_safety_score r') = encode_score_u16 (compute_safety_score r)"
    by (simp only: word_unat_eq_iff)
  then show ?thesis using encode_score_exact [OF assms(1)] by blast
qed

subsection \<open>The verdict\<close>

lemma threshold_error:
  "\<exists>t. rnd (7/10) = Fin t \<and> \<bar>t - 7/10\<bar> \<le> pow2 (- 53)"
  "\<exists>t. rnd (4/10) = Fin t \<and> \<bar>t - 4/10\<bar> \<le> pow2 (- 53)"
  by (rule rnd_unit; simp)+

lemma twentieth_near:
  fixes y \<delta> :: rat
  assumes "of_int a / 20 \<le> y + \<delta>" "y \<le> of_int b / 20 + \<delta>" "\<delta> < 1/40"
  shows "a \<le> b"
proof -
  have "(of_int a :: rat) < of_int b + 1" using assms by simp
  then have "of_int a < (of_int (b + 1) :: rat)" by simp
  then show ?thesis by (simp only: of_int_less_iff)
qed

lemma threshold_compare:
  assumes "length (outputs r) \<le> 1000" "rnd (of_int a / 20) = Fin t"
    "\<bar>t - of_int a / 20\<bar> \<le> pow2 (- 53)"
  shows "f_le (Fin t) (compute_safety_score r) \<Longrightarrow> of_int a / 20 \<le> exact_score r"
    and "\<not> f_le (Fin t) (compute_safety_score r) \<Longrightarrow> exact_score r \<le> of_int a / 20"
proof -
  obtain y where y: "compute_safety_score r = Fin y" "\<bar>y - exact_score r\<bar> \<le> pow2 (- 32)"
    using compute_safety_score_error [OF assms(1)] by blast
  obtain k :: int where k: "exact_score r = of_int k / 20" using exact_score_twentieth by blast
  have d: "pow2 (- 32) + pow2 (- 53) < 1/40" by (simp add: pow2_def)
  have *: "\<bar>y - of_int k / 20\<bar> \<le> pow2 (- 32)" using y(2) k by simp
  show "of_int a / 20 \<le> exact_score r" if "f_le (Fin t) (compute_safety_score r)"
  proof -
    have "t \<le> y" using that y(1) by simp
    then have "of_int a / 20 \<le> y + (pow2 (- 32) + pow2 (- 53))" "y \<le> of_int k / 20 + (pow2 (- 32) + pow2 (- 53))"
      using * assms(3) pow2_nonneg [of "- 32"] pow2_nonneg [of "- 53"] unfolding abs_le_iff by linarith+
    then have "a \<le> k" using d by (rule twentieth_near)
    then show ?thesis by (simp add: k divide_right_mono)
  qed
  show "exact_score r \<le> of_int a / 20" if "\<not> f_le (Fin t) (compute_safety_score r)"
  proof -
    have "y < t" using that y(1) by simp
    then have "of_int k / 20 \<le> y + (pow2 (- 32) + pow2 (- 53))" "y \<le> of_int a / 20 + (pow2 (- 32) + pow2 (- 53))"
      using * assms(3) pow2_nonneg [of "- 32"] pow2_nonneg [of "- 53"] unfolding abs_le_iff by linarith+
    then have "k \<le> a" using d by (rule twentieth_near)
    then show ?thesis by (simp add: k divide_right_mono)
  qed
qed

lemma verdict_exact:
  assumes "length (outputs r) \<le> 1000"
  shows "case score_to_verdict (compute_safety_score r) r of
      Approve \<Rightarrow> \<not> has_critical r \<and> 7/10 \<le> exact_score r
    | Warn \<Rightarrow> \<not> has_critical r \<and> 4/10 \<le> exact_score r \<and> exact_score r \<le> 7/10
    | Block \<Rightarrow> has_critical r \<or> exact_score r \<le> 4/10
    | Timeout \<Rightarrow> False"
proof -
  obtain t u where t: "rnd (7/10) = Fin t" "\<bar>t - 7/10\<bar> \<le> pow2 (- 53)"
    and u: "rnd (4/10) = Fin u" "\<bar>u - 4/10\<bar> \<le> pow2 (- 53)"
    using threshold_error by blast
  note seven = threshold_compare [of r 14 t, simplified, OF assms] and four = threshold_compare [of r 8 u, simplified, OF assms]
  show ?thesis
    using seven four t u
    by (auto simp: score_to_verdict_def simp flip: has_critical_def split: if_splits)
qed

text \<open>C16: Each verdict means what the thresholds say of the exact score. APPROVE: no critical finding
  and an exact score of at least 0.7. WARN: no critical finding and a score between 0.4 and 0.7.
  BLOCK: a critical finding or a score of at most 0.4. The scorer never gives TIMEOUT. (At exactly
  0.4 and 0.7 the rounding decides between the two neighbours.)\<close>

theorem verdict_matches_exact_score:
  assumes "length (outputs r) \<le> 1000"
  shows "case score_to_verdict (compute_safety_score r) r of
      Approve \<Rightarrow> \<not> has_critical r \<and> 7/10 \<le> exact_score r
    | Warn \<Rightarrow> \<not> has_critical r \<and> 4/10 \<le> exact_score r \<and> exact_score r \<le> 7/10
    | Block \<Rightarrow> has_critical r \<or> exact_score r \<le> 4/10
    | Timeout \<Rightarrow> False"
  using verdict_exact [OF assms] .

subsection \<open>At a threshold the verdict depends on the iteration order\<close>

text \<open>The roundings of the two runs below.\<close>

lemma rnd_run_0: "rnd (1/20) = Fin (3602879701896397/72057594037927936)"
  by (rule rnd_evalI [where e = "- 5" and n = 7205759403792794]) (simp_all add: pow2_def)

lemma rnd_run_1: "rnd (1/10) = Fin (3602879701896397/36028797018963968)"
  by (rule rnd_evalI [where e = "- 4" and n = 7205759403792794]) (simp_all add: pow2_def)

lemma rnd_run_2: "rnd (2/5) = Fin (3602879701896397/9007199254740992)"
  by (rule rnd_evalI [where e = "- 2" and n = 7205759403792794]) (simp_all add: pow2_def)

lemma rnd_run_3: "rnd (7/10) = Fin (3152519739159347/4503599627370496)"
  by (rule rnd_evalI [where e = "- 1" and n = 6305039478318694]) (simp_all add: pow2_def)

lemma rnd_run_4: "rnd (68454714336031539/72057594037927936) = Fin (4278419646001971/4503599627370496)"
  by (rule rnd_evalI [where e = "- 1" and n = 8556839292003942]) (simp_all add: pow2_def)

lemma rnd_run_5: "rnd (64851834634135139/72057594037927936) = Fin (2026619832316723/2251799813685248)"
  by (rule rnd_evalI [where e = "- 1" and n = 8106479329266892]) (simp_all add: pow2_def)

lemma rnd_run_6: "rnd (28823037615171171/36028797018963968) = Fin (7205759403792793/9007199254740992)"
  by (rule rnd_evalI [where e = "- 1" and n = 7205759403792793]) (simp_all add: pow2_def)

lemma rnd_run_7: "rnd (900719925474099/2251799813685248) = Fin (900719925474099/2251799813685248)"
  by (rule rnd_evalI [where e = "- 2" and n = 7205759403792792]) (simp_all add: pow2_def)

lemma rnd_run_8: "rnd (32425917317067571/36028797018963968) = Fin (8106479329266893/9007199254740992)"
  by (rule rnd_evalI [where e = "- 1" and n = 8106479329266893]) (simp_all add: pow2_def)

lemma rnd_run_9: "rnd (1/2) = Fin (1/2)"
  by (rule rnd_evalI [where e = "- 1" and n = 4503599627370496]) (simp_all add: pow2_def)

lemma rnd_run_10: "rnd (32425917317067571/72057594037927936) = Fin (8106479329266893/18014398509481984)"
  by (rule rnd_evalI [where e = "- 2" and n = 8106479329266893]) (simp_all add: pow2_def)

lemma rnd_run_11: "rnd (28823037615171175/72057594037927936) = Fin (3602879701896397/9007199254740992)"
  by (rule rnd_evalI [where e = "- 2" and n = 7205759403792794]) (simp_all add: pow2_def)

lemmas rnd_runs = rnd_run_0 rnd_run_1 rnd_run_2 rnd_run_3 rnd_run_4 rnd_run_5 rnd_run_6 rnd_run_7 rnd_run_8 rnd_run_9 rnd_run_10 rnd_run_11

definition severity_status :: "severity \<Rightarrow> checker_status" where
  "severity_status s =
     Completed \<lparr>checker_name = [], passed = False, out_severity = s, flags = [], details = []\<rparr>"

definition low_first :: checker_results where
  "low_first =
     \<lparr>outputs = [(''a'', severity_status Low), (''b'', severity_status Low), (''c'', TimedOut),
                 (''d'', severity_status High)], total_duration_ms = 80\<rparr>"

definition low_last :: checker_results where
  "low_last =
     \<lparr>outputs = [(''c'', TimedOut), (''d'', severity_status High), (''a'', severity_status Low),
                 (''b'', severity_status Low)], total_duration_ms = 80\<rparr>"

lemma score_low_first: "compute_safety_score low_first = Fin (900719925474099/2251799813685248)"
  by (simp add: compute_safety_score_def low_first_def severity_status_def rnd_runs f_clamp_def)

lemma score_low_last: "compute_safety_score low_last = Fin (3602879701896397/9007199254740992)"
  by (simp add: compute_safety_score_def low_last_def severity_status_def rnd_runs f_clamp_def)

lemma verdict_low_first: "score_to_verdict (compute_safety_score low_first) low_first = Block"
  unfolding score_low_first
  by (simp add: score_to_verdict_def low_first_def severity_status_def completed_def
      List.map_filter_def rnd_runs)

lemma verdict_low_last: "score_to_verdict (compute_safety_score low_last) low_last = Warn"
  unfolding score_low_last
  by (simp add: score_to_verdict_def low_last_def severity_status_def completed_def
      List.map_filter_def rnd_runs)

text \<open>One and the same set of checker results gives two verdicts. With two low findings, one high
  finding and one timeout the exact score is 0.4, the attested score is 4000 in either case, and the
  verdict is BLOCK for one iteration order of the map and WARN for another: the subtraction in
  \<^verbatim>\<open>f64\<close> is not associative and the order of a \<^verbatim>\<open>HashMap\<close> is not fixed.\<close>

theorem verdict_depends_on_order:
  "\<exists>r r'. mset (outputs r) = mset (outputs r') \<and> distinct (map fst (outputs r)) \<and>
     exact_score r = 4/10 \<and>
     encode_score_u16 (compute_safety_score r) = encode_score_u16 (compute_safety_score r') \<and>
     score_to_verdict (compute_safety_score r) r = Block \<and>
     score_to_verdict (compute_safety_score r') r' = Warn"
proof (intro exI conjI)
  show m: "mset (outputs low_first) = mset (outputs low_last)"
    by (simp add: low_first_def low_last_def)
  show "distinct (map fst (outputs low_first))" by (simp add: low_first_def)
  show "exact_score low_first = 4/10"
    by (simp add: exact_score_def exact_sum_def low_first_def severity_status_def)
  have "unat (encode_score_u16 (compute_safety_score low_first)) = unat (encode_score_u16 (compute_safety_score low_last))"
    using encode_score_exact [of low_first] encode_score_exact [of low_last] exact_score_mset [OF m]
    by (simp add: low_first_def low_last_def flip: of_nat_eq_iff [where 'a = rat])
  then show "encode_score_u16 (compute_safety_score low_first) = encode_score_u16 (compute_safety_score low_last)"
    by (simp only: word_unat_eq_iff)
  show "score_to_verdict (compute_safety_score low_first) low_first = Block"
    by (rule verdict_low_first)
  show "score_to_verdict (compute_safety_score low_last) low_last = Warn"
    by (rule verdict_low_last)
qed

theorem attested_score_exact_witness:
  "length (outputs low_first) \<le> 1000 \<and> mset (outputs low_last) = mset (outputs low_first) \<and>
   of_nat (unat (encode_score_u16 (compute_safety_score low_first))) = 10000 * exact_score low_first"
proof -
  have 1: "length (outputs low_first) \<le> 1000" "mset (outputs low_last) = mset (outputs low_first)"
    by (simp_all add: low_first_def low_last_def)
  then show ?thesis using attested_score_exact [OF 1] by blast
qed

theorem verdict_matches_exact_score_witness:
  "length (outputs low_last) \<le> 1000 \<and> \<not> has_critical low_last \<and> 4/10 \<le> exact_score low_last"
proof -
  have 1: "length (outputs low_last) \<le> 1000" by (simp add: low_last_def)
  have "score_to_verdict (compute_safety_score low_last) low_last = Warn"
    by (rule verdict_low_last)
  then show ?thesis using verdict_matches_exact_score [OF 1] 1 by simp
qed

end
