(* ===== verification/Pipeline.thy ===== *)
theory Pipeline
  imports Scorer Executor
begin

section \<open>The verdict pipeline\<close>

text \<open>
  \<^verbatim>\<open>crates/ciel-pipeline/src/pipeline.rs\<close>, \<^verbatim>\<open>lib.rs\<close> and \<^verbatim>\<open>verdict_store.rs\<close>: from a transaction to a
  signed verdict. The handler is split where it awaits: \<open>before_checkers\<close> (hash, staleness,
  simulation) and \<open>after_checkers\<close> (score, verdict, hash, attestation, log entry), composed by
  \<open>evaluate_raw_tx_inner\<close>; \<open>evaluate_raw_tx\<close> puts it under the deadline.

  Parameters: LiteSVM and bincode (\<open>svm_ops\<close>), Ed25519, SHA-256, the JSON serializer, the clock
  readings (\<open>timeline\<close>) and the iteration order of the result map (\<open>shuffle\<close>). A panic is \<open>None\<close>.

  The deadline: a future is polled before its timer, and the handler yields only while checkers
  are pending, so the deadline fires exactly when the checkers are still pending after it.
\<close>

subsection \<open>Types\<close>

datatype pipeline_error =
    ForkSim fork_error
  | SignerErr signer_error
  | PipelineTimeout nat
  | Deserialization string

record 'svm verdict_pipeline =
  vp_fork :: "'svm fork_simulator"
  fork_poisoned :: bool \<comment> \<open>a panic while the mutex was held\<close>
  vp_checkers :: "checker list"
  vp_signer :: ciel_signer
  vp_staleness :: staleness_tracker
  vp_db :: bool \<comment> \<open>a database pool is configured\<close>
  timeout_ms :: nat

definition DEFAULT_TIMEOUT_MS :: nat where "DEFAULT_TIMEOUT_MS = 200"

text \<open>The clock readings of one evaluation, in program order.\<close>

record timeline =
  t_start :: time
  t_staleness :: time
  t_sim_start :: time
  t_sim_end :: time
  t_checkers_start :: time
  t_checkers_end :: time
  t_scoring_start :: time
  t_scoring_end :: time
  t_signing_start :: time
  t_signing_end :: time
  t_total :: time
  t_timeout :: time \<comment> \<open>read by the timeout response\<close>
  unix_timestamp :: u64

record pipeline_timing =
  total_ms :: u64
  fork_sim_ms :: u64
  checkers_ms :: u64
  scoring_ms :: u64
  signing_ms :: u64

record verdict_response =
  resp_verdict :: verdict
  resp_safety_score :: f64
  attestation_bytes :: bytes
  signature_bytes :: bytes
  resp_slot :: u64
  resp_tx_hash :: bytes
  resp_outputs_hash :: bytes
  resp_checker_results :: checker_results
  downgrade_reason :: "string option"
  timing :: pipeline_timing

record verdict_log_entry =
  log_request_type :: string
  log_tx_hash :: bytes
  log_tx_signature :: "bytes option"
  log_verdict :: string
  log_safety_score :: "f64 option"
  log_optimality_score :: "f64 option"
  log_attestation :: bytes
  log_signature :: bytes
  log_checker_outputs :: json
  log_checker_outputs_hash :: bytes
  log_checkers_timed_out :: "string list"
  log_total_latency_ms :: u32
  log_fork_sim_ms :: "u32 option"
  log_checkers_ms :: "u32 option"
  log_signing_ms :: "u32 option"

type_synonym evaluation = "(pipeline_error, verdict_response \<times> verdict_log_entry option) result option"

text \<open>The external functions of one deployment.\<close>

record ('svm, 'vtx) services =
  lite :: "('svm, 'vtx) svm_ops"
  ed :: ed25519
  sha256 :: "bytes \<Rightarrow> bytes"
  json_to_vec :: "json \<Rightarrow> (string, bytes) result"

subsection \<open>Helpers\<close>

definition compute_tx_hash :: "('svm, 'vtx) services \<Rightarrow> transaction \<Rightarrow> (pipeline_error, bytes) result" where
  "compute_tx_hash S tx =
     bind_result (map_err Deserialization (tx_serialize (lite S) tx)) (\<lambda>bs. Inr (sha256 S bs))"

fun verdict_to_str :: "verdict \<Rightarrow> string" where
  "verdict_to_str Approve = ''APPROVE''"
| "verdict_to_str Warn = ''WARN''"
| "verdict_to_str Block = ''BLOCK''"
| "verdict_to_str Timeout = ''TIMEOUT''"

text \<open>\<^verbatim>\<open>elapsed().as_millis() as u64\<close>, and the cast to \<^verbatim>\<open>i32\<close> of the log.\<close>

definition ms_between :: "time \<Rightarrow> time \<Rightarrow> u64" where
  "ms_between t0 t1 = of_nat (as_millis (elapsed t1 t0))"

definition as_i32 :: "u64 \<Rightarrow> u32" where "as_i32 w = of_nat (unat w)"

definition poisoned_error :: pipeline_error where
  "poisoned_error = Deserialization ''fork mutex poisoned: poisoned lock: another task failed inside''"

fun severity_name :: "severity \<Rightarrow> string" where
  "severity_name SevNone = ''None''"
| "severity_name Low = ''Low''"
| "severity_name Medium = ''Medium''"
| "severity_name High = ''High''"
| "severity_name Critical = ''Critical''"

definition flag_json :: "flag \<Rightarrow> json" where
  "flag_json f = json_obj [(''code'', JStr (flag_code f)), (''message'', JStr (flag_message f)), (''data'', flag_data f)]"

definition output_json :: "checker_output \<Rightarrow> json" where
  "output_json out =
     json_obj [(''checker_name'', JStr (checker_name out)), (''passed'', JBool (passed out)),
       (''severity'', JStr (severity_name (out_severity out))), (''flags'', JArr (map flag_json (flags out))),
       (''details'', JStr (details out))]"

subsection \<open>The timeout response\<close>

definition empty_results :: checker_results where
  "empty_results = \<lparr>outputs = [], total_duration_ms = 0\<rparr>"

definition build_timeout_response ::
    "('svm, 'vtx) services \<Rightarrow> 'svm verdict_pipeline \<Rightarrow> timeline \<Rightarrow> transaction \<Rightarrow>
     (pipeline_error, verdict_response) result" where
  "build_timeout_response S p T tx =
     (let elapsed_ms = ms_between (t_start T) (t_timeout T)
      in bind_result (compute_tx_hash S tx) (\<lambda>txh.
         if fork_poisoned p then Inl poisoned_error
         else let sl = pinned_slot (vp_fork p); oh = replicate 32 0;
                  att = new_timeout txh oh sl (pubkey_bytes (ed S) (vp_signer p)) (unix_timestamp T)
                          (of_nat (min (unat elapsed_ms) 65535))
              in bind_result (map_err SignerErr (sign_attestation (ed S) (vp_signer p) att)) (\<lambda>(bs, sig).
                 Inr \<lparr>resp_verdict = Timeout, resp_safety_score = rnd 0, attestation_bytes = bs,
                      signature_bytes = sig, resp_slot = sl, resp_tx_hash = txh, resp_outputs_hash = oh,
                      resp_checker_results = empty_results, downgrade_reason = None,
                      timing = \<lparr>total_ms = elapsed_ms, fork_sim_ms = 0, checkers_ms = 0, scoring_ms = 0,
                                signing_ms = 0\<rparr>\<rparr>)))"

definition timeout_evaluation ::
    "('svm, 'vtx) services \<Rightarrow> 'svm verdict_pipeline \<Rightarrow> timeline \<Rightarrow> transaction \<Rightarrow> evaluation" where
  "timeout_evaluation S p T tx =
     Some (bind_result (build_timeout_response S p T tx) (\<lambda>r. Inr (r, None)))"

subsection \<open>The handler\<close>

record pending_evaluation =
  pe_tx_hash :: bytes
  pe_downgrade :: "string option"
  pe_trace :: simulation_trace
  pe_slot :: u64

text \<open>Steps 1 to 3: either the handler is done, or it goes on to the checkers.\<close>

definition before_checkers ::
    "('svm, 'vtx) services \<Rightarrow> 'svm verdict_pipeline \<Rightarrow> timeline \<Rightarrow> transaction \<Rightarrow>
     evaluation + pending_evaluation" where
  "before_checkers S p T tx =
     (case compute_tx_hash S tx of
        Inl e \<Rightarrow> Inl (Some (Inl e))
      | Inr txh \<Rightarrow>
          (let st = staleness_state_at (t_staleness T) (vp_staleness p)
           in if st = StaleTimeout then Inl (timeout_evaluation S p T tx)
              else let reason = (if st = StaleWarn then Some ''state_parity_degraded'' else None)
              in if fork_poisoned p then Inl (Some (Inl poisoned_error))
              else case execute_transaction (lite S) (vp_fork p) tx of
                     Inl e \<Rightarrow> Inl (Some (Inl (ForkSim e)))
                   | Inr tr \<Rightarrow>
                       Inr \<lparr>pe_tx_hash = txh, pe_downgrade = reason, pe_trace = tr,
                            pe_slot = pinned_slot (vp_fork p)\<rparr>))"

definition checker_ctx :: "transaction \<Rightarrow> pending_evaluation \<Rightarrow> checker_context" where
  "checker_ctx tx pe =
     \<lparr>ctx_trace = pe_trace pe, original_tx = tx, ctx_intent = None, ctx_slot = pe_slot pe,
      ctx_oracle_cache = oracle_cache_default, known_programs = with_mainnet_defaults\<rparr>"

text \<open>Step 4 with the iteration order of the map; \<open>elapsed_ms\<close> of the runner is the same span.\<close>

definition checked_results ::
    "((string \<times> checker_status) list \<Rightarrow> (string \<times> checker_status) list) \<Rightarrow> 'svm verdict_pipeline \<Rightarrow>
     timeline \<Rightarrow> transaction \<Rightarrow> pending_evaluation \<Rightarrow> checker_results" where
  "checked_results shuffle p T tx pe =
     (let r = run_checkers (as_millis (elapsed (t_checkers_end T) (t_checkers_start T)))
                (checker_ctx tx pe) (vp_checkers p)
      in r\<lparr>outputs := reorder shuffle (outputs r)\<rparr>)"

text \<open>The verdict after the staleness downgrade.\<close>

definition final_verdict :: "string option \<Rightarrow> checker_results \<Rightarrow> verdict" where
  "final_verdict reason r =
     (let v = score_to_verdict (compute_safety_score r) r
      in if reason \<noteq> None \<and> v = Approve then Warn else v)"

definition log_entry_of ::
    "transaction \<Rightarrow> bytes \<Rightarrow> verdict \<Rightarrow> f64 \<Rightarrow> bytes \<Rightarrow> bytes \<Rightarrow> bytes \<Rightarrow> checker_results \<Rightarrow> pipeline_timing \<Rightarrow>
     verdict_log_entry" where
  "log_entry_of tx txh v score bs sig oh r tm =
     \<lparr>log_request_type = ''raw_tx'', log_tx_hash = txh, log_tx_signature = first (signatures tx),
      log_verdict = verdict_to_str v, log_safety_score = Some (to_f32 score),
      log_optimality_score = Some (to_f32 (rnd 0)), log_attestation = bs, log_signature = sig,
      log_checker_outputs = JArr (map output_json (completed r)), log_checker_outputs_hash = oh,
      log_checkers_timed_out = timed_out r, log_total_latency_ms = as_i32 (total_ms tm),
      log_fork_sim_ms = Some (as_i32 (fork_sim_ms tm)), log_checkers_ms = Some (as_i32 (checkers_ms tm)),
      log_signing_ms = Some (as_i32 (signing_ms tm))\<rparr>"

text \<open>Steps 5 to 10.\<close>

definition after_checkers ::
    "('svm, 'vtx) services \<Rightarrow> 'svm verdict_pipeline \<Rightarrow> timeline \<Rightarrow> transaction \<Rightarrow> pending_evaluation \<Rightarrow>
     checker_results \<Rightarrow> evaluation" where
  "after_checkers S p T tx pe r =
     (let score = compute_safety_score r; v = final_verdict (pe_downgrade pe) r
      in case checker_outputs_hash (json_to_vec S) (sha256 S) r of
           None \<Rightarrow> None
         | Some oh \<Rightarrow>
             let att = attestation_new (pe_tx_hash pe) v (encode_score_u16 score) 0 oh (pe_slot pe)
                         (pubkey_bytes (ed S) (vp_signer p)) (unix_timestamp T) 0
             in case sign_attestation (ed S) (vp_signer p) att of
                  Inl e \<Rightarrow> Some (Inl (SignerErr e))
                | Inr (bs, sig) \<Rightarrow>
                    let tm = \<lparr>total_ms = ms_between (t_start T) (t_total T),
                              fork_sim_ms = ms_between (t_sim_start T) (t_sim_end T),
                              checkers_ms = ms_between (t_checkers_start T) (t_checkers_end T),
                              scoring_ms = ms_between (t_scoring_start T) (t_scoring_end T),
                              signing_ms = ms_between (t_signing_start T) (t_signing_end T)\<rparr>
                    in Some (Inr
                         (\<lparr>resp_verdict = v, resp_safety_score = score, attestation_bytes = bs,
                           signature_bytes = sig, resp_slot = pe_slot pe, resp_tx_hash = pe_tx_hash pe,
                           resp_outputs_hash = oh, resp_checker_results = r,
                           downgrade_reason = pe_downgrade pe, timing = tm\<rparr>,
                          if vp_db p then Some (log_entry_of tx (pe_tx_hash pe) v score bs sig oh r tm) else None)))"

definition evaluate_raw_tx_inner ::
    "('svm, 'vtx) services \<Rightarrow> ((string \<times> checker_status) list \<Rightarrow> (string \<times> checker_status) list) \<Rightarrow>
     'svm verdict_pipeline \<Rightarrow> timeline \<Rightarrow> transaction \<Rightarrow> evaluation" where
  "evaluate_raw_tx_inner S shuffle p T tx =
     (case before_checkers S p T tx of
        Inl done \<Rightarrow> done
      | Inr pe \<Rightarrow> after_checkers S p T tx pe (checked_results shuffle p T tx pe))"

text \<open>How long the checkers stay pending: not at all, or up to their own deadline.\<close>

definition checkers_pending :: "checker_context \<Rightarrow> checker list \<Rightarrow> time option" where
  "checkers_pending ctx cs =
     (let ds = List.map_filter (\<lambda>c. ready_after c ctx) cs
      in if ds = [] then None else Some (Max (set (map (min (from_millis CHECKER_DEADLINE_MS)) ds))))"

definition deadline_fires :: "'svm verdict_pipeline \<Rightarrow> timeline \<Rightarrow> checker_context \<Rightarrow> bool" where
  "deadline_fires p T ctx =
     (case checkers_pending ctx (vp_checkers p) of
        None \<Rightarrow> False
      | Some w \<Rightarrow> t_start T + from_millis (timeout_ms p) < t_checkers_start T + w)"

definition evaluate_raw_tx ::
    "('svm, 'vtx) services \<Rightarrow> ((string \<times> checker_status) list \<Rightarrow> (string \<times> checker_status) list) \<Rightarrow>
     'svm verdict_pipeline \<Rightarrow> timeline \<Rightarrow> transaction \<Rightarrow> evaluation" where
  "evaluate_raw_tx S shuffle p T tx =
     (case before_checkers S p T tx of
        Inr pe \<Rightarrow>
          if deadline_fires p T (checker_ctx tx pe) then timeout_evaluation S p T tx
          else evaluate_raw_tx_inner S shuffle p T tx
      | Inl done \<Rightarrow> evaluate_raw_tx_inner S shuffle p T tx)"

subsection \<open>The shape of an evaluation\<close>

lemma final_verdict_not_timeout: "final_verdict reason r \<noteq> Timeout"
  by (simp add: final_verdict_def score_to_verdict_def Let_def)

text \<open>A response is a timeout response without log entry, or comes from the checkers.\<close>

lemma evaluation_cases:
  assumes "evaluate_raw_tx S shuffle p T tx = Some (Inr (resp, lg))"
  shows "build_timeout_response S p T tx = Inr resp \<and> lg = None \<or>
    (\<exists>pe. before_checkers S p T tx = Inr pe \<and>
       after_checkers S p T tx pe (checked_results shuffle p T tx pe) = Some (Inr (resp, lg)))"
proof (cases "before_checkers S p T tx")
  case (Inl d)
  then have "timeout_evaluation S p T tx = Some (Inr (resp, lg))"
    using assms by (auto simp: evaluate_raw_tx_def evaluate_raw_tx_inner_def before_checkers_def Let_def
        split: sum.splits if_splits)
  then show ?thesis by (auto simp: timeout_evaluation_def bind_result_Inr)
next
  case (Inr pe)
  then show ?thesis
    using assms
    by (auto simp: evaluate_raw_tx_def evaluate_raw_tx_inner_def timeout_evaluation_def bind_result_Inr split: if_splits)
qed

lemma timeout_response_facts:
  assumes "build_timeout_response S p T tx = Inr resp"
  shows "\<exists>txh tms. compute_tx_hash S tx = Inr txh \<and> resp_verdict resp = Timeout \<and>
    resp_tx_hash resp = txh \<and> resp_slot resp = pinned_slot (vp_fork p) \<and>
    resp_outputs_hash resp = replicate 32 0 \<and>
    sign_attestation (ed S) (vp_signer p)
      (new_timeout txh (replicate 32 0) (pinned_slot (vp_fork p)) (pubkey_bytes (ed S) (vp_signer p))
        (unix_timestamp T) tms) = Inr (attestation_bytes resp, signature_bytes resp)"
  using assms by (fastforce simp: build_timeout_response_def Let_def bind_result_Inr split: if_splits)

lemma after_checkers_facts:
  assumes "after_checkers S p T tx pe r = Some (Inr (resp, lg))"
  shows "\<exists>oh. checker_outputs_hash (json_to_vec S) (sha256 S) r = Some oh \<and>
    resp_verdict resp = final_verdict (pe_downgrade pe) r \<and> resp_safety_score resp = compute_safety_score r \<and>
    resp_tx_hash resp = pe_tx_hash pe \<and> resp_slot resp = pe_slot pe \<and> resp_outputs_hash resp = oh \<and>
    resp_checker_results resp = r \<and> downgrade_reason resp = pe_downgrade pe \<and>
    sign_attestation (ed S) (vp_signer p)
      (attestation_new (pe_tx_hash pe) (final_verdict (pe_downgrade pe) r)
        (encode_score_u16 (compute_safety_score r)) 0 oh (pe_slot pe)
        (pubkey_bytes (ed S) (vp_signer p)) (unix_timestamp T) 0) =
      Inr (attestation_bytes resp, signature_bytes resp) \<and>
    lg = (if vp_db p then Some (log_entry_of tx (resp_tx_hash resp) (resp_verdict resp) (resp_safety_score resp)
            (attestation_bytes resp) (signature_bytes resp) oh r (timing resp)) else None)"
  using assms by (auto simp: after_checkers_def Let_def split: option.splits sum.splits)

lemma before_checkers_facts:
  assumes "before_checkers S p T tx = Inr pe"
  shows "compute_tx_hash S tx = Inr (pe_tx_hash pe)" "pe_slot pe = pinned_slot (vp_fork p)"
    "execute_transaction (lite S) (vp_fork p) tx = Inr (pe_trace pe)"
    "staleness_state_at (t_staleness T) (vp_staleness p) \<noteq> StaleTimeout"
    "pe_downgrade pe \<noteq> None \<longleftrightarrow> staleness_state_at (t_staleness T) (vp_staleness p) = StaleWarn"
  using assms by (auto simp: before_checkers_def Let_def split: sum.splits if_splits)

definition sha256_sized :: "('svm, 'vtx) services \<Rightarrow> bool" where
  "sha256_sized S \<longleftrightarrow> (\<forall>bs. length (sha256 S bs) = 32)"

lemma compute_tx_hash_length: "sha256_sized S \<Longrightarrow> compute_tx_hash S tx = Inr txh \<Longrightarrow> length txh = 32"
  by (auto simp: compute_tx_hash_def bind_result_Inr sha256_sized_def)

lemma outputs_hash_length: "sha256_sized S \<Longrightarrow> checker_outputs_hash tv (sha256 S) r = Some oh \<Longrightarrow> length oh = 32"
  by (auto simp: checker_outputs_hash_def sha256_sized_def)

lemma signed_new_facts:
  assumes "ed25519_correct E" "length (signing_key s) = 32" "length txh = 32" "length oh = 32"
    and "a = attestation_new txh v ss os oh sl (pubkey_bytes E s) ts tms"
    and "sign_attestation E s a = Inr (bs, sig)"
  shows "try_from_slice decode_attestation bs = Inr a \<and> verify_attestation E (pubkey_bytes E s) bs sig"
proof -
  have "length (pubkey_bytes E s) = 32" using assms(1,2) by (simp add: ed25519_correct_def pubkey_bytes_def)
  then have "attestation_wf a" using assms(3-5) by (simp add: attestation_wf_new)
  then show ?thesis
    using assms(1,2,6)
    by (auto simp: sign_attestation_def Let_def att.from_slice_iff verify_attestation_def ed25519_correct_def
        pubkey_bytes_def)
qed

lemma response_attested:
  assumes "ed25519_correct (ed S)" "length (signing_key (vp_signer p)) = 32" "sha256_sized S"
    and "evaluate_raw_tx S shuffle p T tx = Some (Inr (resp, lg))"
  shows "verify_attestation (ed S) (pubkey_bytes (ed S) (vp_signer p)) (attestation_bytes resp) (signature_bytes resp) \<and>
    (\<exists>a. try_from_slice decode_attestation (attestation_bytes resp) = Inr a \<and>
       att_verdict a = verdict_u8 (resp_verdict resp) \<and> tx_hash a = resp_tx_hash resp \<and>
       checker_outputs_hash_field a = resp_outputs_hash resp \<and> slot a = resp_slot resp \<and>
       expiry_slot a = resp_slot resp + 2 \<and> signer a = pubkey_bytes (ed S) (vp_signer p) \<and>
       safety_score a = (if resp_verdict resp = Timeout then 0xFFFF else encode_score_u16 (resp_safety_score resp)))"
  using evaluation_cases [OF assms(4)]
proof (elim disjE conjE exE)
  assume "build_timeout_response S p T tx = Inr resp"
  from timeout_response_facts [OF this] obtain txh tms where
    f: "compute_tx_hash S tx = Inr txh" "resp_verdict resp = Timeout" "resp_tx_hash resp = txh"
      "resp_slot resp = pinned_slot (vp_fork p)" "resp_outputs_hash resp = replicate 32 0"
    and sig: "sign_attestation (ed S) (vp_signer p)
      (new_timeout txh (replicate 32 0) (pinned_slot (vp_fork p)) (pubkey_bytes (ed S) (vp_signer p))
        (unix_timestamp T) tms) = Inr (attestation_bytes resp, signature_bytes resp)" by blast
  show ?thesis
    using signed_new_facts [OF assms(1,2) compute_tx_hash_length [OF assms(3) f(1)] _ new_timeout_def sig] f
    by (auto simp: new_timeout_def attestation_new_def TIMEOUT_SENTINEL_def EXPIRY_SLOTS_def)
next
  fix pe
  assume b: "before_checkers S p T tx = Inr pe"
    and "after_checkers S p T tx pe (checked_results shuffle p T tx pe) = Some (Inr (resp, lg))"
  from after_checkers_facts [OF this(2)] obtain oh where
    h: "checker_outputs_hash (json_to_vec S) (sha256 S) (checked_results shuffle p T tx pe) = Some oh"
    and v: "resp_verdict resp = final_verdict (pe_downgrade pe) (checked_results shuffle p T tx pe)"
    and f: "resp_safety_score resp = compute_safety_score (checked_results shuffle p T tx pe)"
      "resp_tx_hash resp = pe_tx_hash pe" "resp_slot resp = pe_slot pe" "resp_outputs_hash resp = oh"
    and sig: "sign_attestation (ed S) (vp_signer p)
      (attestation_new (pe_tx_hash pe) (final_verdict (pe_downgrade pe) (checked_results shuffle p T tx pe))
        (encode_score_u16 (compute_safety_score (checked_results shuffle p T tx pe))) 0 oh (pe_slot pe)
        (pubkey_bytes (ed S) (vp_signer p)) (unix_timestamp T) 0) = Inr (attestation_bytes resp, signature_bytes resp)"
    by blast
  have "length (pe_tx_hash pe) = 32"
    using compute_tx_hash_length [OF assms(3) before_checkers_facts(1) [OF b]] .
  from signed_new_facts [OF assms(1,2) this outputs_hash_length [OF assms(3) h] refl sig]
  show ?thesis
    using f v final_verdict_not_timeout [of "pe_downgrade pe" "checked_results shuffle p T tx pe"]
    by (auto simp: attestation_new_def EXPIRY_SLOTS_def)
qed

text \<open>C2: What the pipeline signs is what it answers. The attestation bytes of every response verify
  under the pipeline's own key and decode to an attestation with the response's verdict,
  transaction hash, outputs hash and slot, an expiry two slots later, and the response's score in
  fixed point, or the sentinel 0xFFFF for a TIMEOUT.\<close>

theorem response_is_attested:
  assumes "ed25519_correct (ed S)" "length (signing_key (vp_signer p)) = 32" "sha256_sized S"
    and "evaluate_raw_tx S shuffle p T tx = Some (Inr (resp, lg))"
  shows "verify_attestation (ed S) (pubkey_bytes (ed S) (vp_signer p)) (attestation_bytes resp) (signature_bytes resp) \<and>
    (\<exists>a. try_from_slice decode_attestation (attestation_bytes resp) = Inr a \<and>
       att_verdict a = verdict_u8 (resp_verdict resp) \<and> tx_hash a = resp_tx_hash resp \<and>
       checker_outputs_hash_field a = resp_outputs_hash resp \<and> slot a = resp_slot resp \<and>
       expiry_slot a = resp_slot resp + 2 \<and> signer a = pubkey_bytes (ed S) (vp_signer p) \<and>
       safety_score a = (if resp_verdict resp = Timeout then 0xFFFF else encode_score_u16 (resp_safety_score resp)))"
  using response_attested [OF assms] .

lemma stale_answers:
  assumes "evaluate_raw_tx S shuffle p T tx = Some (Inr (resp, lg))"
  shows "(staleness_state_at (t_staleness T) (vp_staleness p) = StaleTimeout \<longrightarrow> resp_verdict resp = Timeout) \<and>
    (staleness_state_at (t_staleness T) (vp_staleness p) = StaleWarn \<longrightarrow>
       resp_verdict resp \<noteq> Approve \<and> (resp_verdict resp \<noteq> Timeout \<longrightarrow> downgrade_reason resp \<noteq> None))"
  using evaluation_cases [OF assms]
proof (elim disjE conjE exE)
  assume "build_timeout_response S p T tx = Inr resp"
  from timeout_response_facts [OF this] show ?thesis by auto
next
  fix pe
  assume "before_checkers S p T tx = Inr pe"
    and "after_checkers S p T tx pe (checked_results shuffle p T tx pe) = Some (Inr (resp, lg))"
  from before_checkers_facts(4,5) [OF this(1)] after_checkers_facts [OF this(2)]
  show ?thesis by (auto simp: final_verdict_def Let_def)
qed

lemma timeout_evaluation_Some:
  "timeout_evaluation S p T tx = Some (Inr (resp, lg)) \<longleftrightarrow> build_timeout_response S p T tx = Inr resp \<and> lg = None"
  by (auto simp: timeout_evaluation_def bind_result_Inr)

text \<open>The handler goes on to the checkers exactly when the state is not too old.\<close>

lemma answered_before_checkers:
  assumes "evaluate_raw_tx S shuffle p T tx = Some (Inr (resp, lg))"
  shows "staleness_state_at (t_staleness T) (vp_staleness p) = StaleTimeout \<and> timeout_evaluation S p T tx = Some (Inr (resp, lg)) \<or>
    (\<exists>pe. before_checkers S p T tx = Inr pe \<and>
       (if deadline_fires p T (checker_ctx tx pe) then timeout_evaluation S p T tx
        else after_checkers S p T tx pe (checked_results shuffle p T tx pe)) = Some (Inr (resp, lg)))"
proof (cases "before_checkers S p T tx")
  case (Inl d)
  then have "d = Some (Inr (resp, lg))" using assms by (simp add: evaluate_raw_tx_def evaluate_raw_tx_inner_def)
  then show ?thesis using Inl by (auto simp: before_checkers_def Let_def split: sum.splits if_splits)
next
  case (Inr pe)
  then show ?thesis using assms by (simp add: evaluate_raw_tx_def evaluate_raw_tx_inner_def split: if_splits)
qed

text \<open>C6: What is answered, from the age of the state and the findings. The age is the time since the last
  update of the tracker. A state older than the timeout threshold, or checkers still pending at the
  deadline, are answered with TIMEOUT, score zero and no findings, and nothing is logged. Otherwise the
  answer is the verdict of the checkers' own results, except that an APPROVE on a state older than
  the warning threshold becomes a WARN; the reason is given exactly when the state is that old, also
  where the verdict stands, and the score is never degraded.\<close>

theorem verdict_by_age:
  assumes "evaluate_raw_tx S shuffle p T tx = Some (Inr (resp, lg))"
    and "staleness_cfg (vp_staleness p) = \<lparr>warn_threshold = w, timeout_threshold = to\<rparr>"
    and "age = t_staleness T - last_update (vp_staleness p)"
  shows "(resp_verdict resp = Timeout \<longleftrightarrow>
      to < age \<or> (\<exists>pe. before_checkers S p T tx = Inr pe \<and> deadline_fires p T (checker_ctx tx pe))) \<and>
    (resp_verdict resp = Timeout \<longrightarrow>
      resp_safety_score resp = Fin 0 \<and> outputs (resp_checker_results resp) = [] \<and> downgrade_reason resp = None \<and> lg = None) \<and>
    (resp_verdict resp \<noteq> Timeout \<longrightarrow>
      (\<exists>pe r. before_checkers S p T tx = Inr pe \<and> r = checked_results shuffle p T tx pe \<and> resp_checker_results resp = r \<and>
         resp_safety_score resp = compute_safety_score r \<and>
         resp_verdict resp = (if w < age \<and> score_to_verdict (compute_safety_score r) r = Approve then Warn
                              else score_to_verdict (compute_safety_score r) r) \<and>
         downgrade_reason resp = (if w < age then Some ''state_parity_degraded'' else None)))"
proof -
  have st: "staleness_state_at (t_staleness T) (vp_staleness p) =
      (if to < age then StaleTimeout else if w < age then StaleWarn else Fresh)"
    using assms(2,3) by (simp add: staleness_state_at_def time_since_last_update_def elapsed_def)
  have timeout: "resp_verdict resp = Timeout \<and> resp_safety_score resp = Fin 0 \<and> outputs (resp_checker_results resp) = [] \<and>
      downgrade_reason resp = None \<and> lg = None" if "timeout_evaluation S p T tx = Some (Inr (resp, lg))"
    using that unfolding timeout_evaluation_Some
    by (auto simp: build_timeout_response_def Let_def bind_result_Inr empty_results_def split: if_splits)
  from answered_before_checkers [OF assms(1)] show ?thesis
  proof (elim disjE conjE exE)
    assume "staleness_state_at (t_staleness T) (vp_staleness p) = StaleTimeout" "timeout_evaluation S p T tx = Some (Inr (resp, lg))"
    then show ?thesis using timeout st by (auto split: if_splits)
  next
    fix pe assume b: "before_checkers S p T tx = Inr pe" and
      a: "(if deadline_fires p T (checker_ctx tx pe) then timeout_evaluation S p T tx
           else after_checkers S p T tx pe (checked_results shuffle p T tx pe)) = Some (Inr (resp, lg))"
    have fresh: "\<not> to < age" using before_checkers_facts(4) [OF b] st by (auto split: if_splits)
    have reason: "pe_downgrade pe = (if w < age then Some ''state_parity_degraded'' else None)"
      using b st fresh by (auto simp: before_checkers_def Let_def split: sum.splits if_splits)
    show ?thesis
    proof (cases "deadline_fires p T (checker_ctx tx pe)")
      case True
      then show ?thesis using timeout a b by auto
    next
      case False
      let ?r = "checked_results shuffle p T tx pe"
      have f: "resp_verdict resp = final_verdict (pe_downgrade pe) ?r" "resp_safety_score resp = compute_safety_score ?r"
        "resp_checker_results resp = ?r" "downgrade_reason resp = pe_downgrade pe"
        using after_checkers_facts [of S p T tx pe ?r resp lg] a False by auto
      have "resp_verdict resp \<noteq> Timeout" using f(1) final_verdict_not_timeout by metis
      then show ?thesis using b f fresh False reason by (auto simp: final_verdict_def Let_def)
    qed
  qed
qed

lemma checked_results_mem:
  assumes "distinct (map name (vp_checkers p))" "c \<in> set (vp_checkers p)"
  shows "(name c, snd (run_one (checker_ctx tx pe) c)) \<in> set (outputs (checked_results shuffle p T tx pe))"
  using run_checkers_lookup [OF assms] by (auto simp: checked_results_def Let_def dest: map_of_SomeD)

lemma critical_result_blocks:
  assumes "evaluate_raw_tx S shuffle p T tx = Some (Inr (resp, lg))"
    and "distinct (map name (vp_checkers p))" "c \<in> set (vp_checkers p)"
    and "before_checkers S p T tx = Inr pe"
    and "snd (run_one (checker_ctx tx pe) c) = Completed out" "out_severity out = Critical"
  shows "resp_verdict resp = Block \<or> resp_verdict resp = Timeout"
  using evaluation_cases [OF assms(1)]
proof (elim disjE conjE exE)
  assume "build_timeout_response S p T tx = Inr resp"
  from timeout_response_facts [OF this] show ?thesis by auto
next
  fix pe'
  assume b: "before_checkers S p T tx = Inr pe'"
    and a: "after_checkers S p T tx pe' (checked_results shuffle p T tx pe') = Some (Inr (resp, lg))"
  have "(name c, Completed out) \<in> set (outputs (checked_results shuffle p T tx pe'))"
    using checked_results_mem [OF assms(2,3), of tx pe shuffle T] assms(4,5) b by simp
  then have "score_to_verdict x (checked_results shuffle p T tx pe') = Block" for x
    using assms(6) set_completed by (auto simp: score_to_verdict_def)
  with after_checkers_facts [OF a] show ?thesis by (auto simp: final_verdict_def Let_def)
qed

text \<open>C3: A critical finding is never let through. If a checker of a set with distinct names reports a
  critical severity in time, then the verdict is BLOCK or TIMEOUT, for every map order, staleness
  state and clock.\<close>

theorem critical_finding_blocks:
  assumes "evaluate_raw_tx S shuffle p T tx = Some (Inr (resp, lg))"
    and "distinct (map name (vp_checkers p))" "c \<in> set (vp_checkers p)"
    and "before_checkers S p T tx = Inr pe"
    and "snd (run_one (checker_ctx tx pe) c) = Completed out" "out_severity out = Critical"
  shows "resp_verdict resp = Block \<or> resp_verdict resp = Timeout"
  using critical_result_blocks [OF assms] .

lemma evaluation_error_cases:
  assumes "evaluate_raw_tx S shuffle p T tx = Some (Inl e)"
  shows "(\<exists>f. e = ForkSim f) \<or> (\<exists>m. e = Deserialization m)"
proof -
  have tx: "\<exists>m. e = Deserialization m" if "compute_tx_hash S tx = Inl e" for e
    using that by (cases "tx_serialize (lite S) tx") (auto simp: compute_tx_hash_def)
  have bt: "\<exists>m. e = Deserialization m" if "timeout_evaluation S p T tx = Some (Inl e)" for e
    using that tx
    by (cases "compute_tx_hash S tx")
      (auto simp: timeout_evaluation_def build_timeout_response_def Let_def sign_attestation_def poisoned_error_def
        split: if_splits)
  have "\<not> (\<exists>e. after_checkers S p T tx pe r = Some (Inl e))" for pe r
    by (simp add: after_checkers_def Let_def sign_attestation_def split: option.splits)
  then show ?thesis
    using assms tx bt
    by (auto simp: evaluate_raw_tx_def evaluate_raw_tx_inner_def before_checkers_def Let_def poisoned_error_def
        split: sum.splits if_splits)
qed

text \<open>The pipeline fails in two ways only, when the simulator does or when the transaction cannot be
  serialized (or the simulator's lock is poisoned). Its deadline is never an error: the error
  \<^verbatim>\<open>PipelineError::Timeout\<close> and the signer errors are not returned by any evaluation.\<close>

theorem evaluation_errors:
  assumes "evaluate_raw_tx S shuffle p T tx = Some (Inl e)"
  shows "(\<exists>f. e = ForkSim f) \<or> (\<exists>m. e = Deserialization m)"
  using evaluation_error_cases [OF assms] .

lemma log_answers:
  assumes "evaluate_raw_tx S shuffle p T tx = Some (Inr (resp, lg))"
  shows "(lg \<noteq> None \<longleftrightarrow> vp_db p \<and> resp_verdict resp \<noteq> Timeout) \<and>
    (\<forall>e. lg = Some e \<longrightarrow> log_verdict e = verdict_to_str (resp_verdict resp) \<and> log_verdict e \<noteq> ''TIMEOUT'' \<and>
       log_tx_hash e = resp_tx_hash resp \<and> log_attestation e = attestation_bytes resp \<and>
       log_signature e = signature_bytes resp \<and> log_checker_outputs_hash e = resp_outputs_hash resp \<and>
       log_checkers_timed_out e = timed_out (resp_checker_results resp))"
  using evaluation_cases [OF assms]
proof (elim disjE conjE exE)
  assume "build_timeout_response S p T tx = Inr resp" "lg = None"
  with timeout_response_facts [OF this(1)] show ?thesis by auto
next
  fix pe
  assume "after_checkers S p T tx pe (checked_results shuffle p T tx pe) = Some (Inr (resp, lg))"
  from after_checkers_facts [OF this] show ?thesis
    using final_verdict_not_timeout [of "pe_downgrade pe" "checked_results shuffle p T tx pe"]
    by (cases "resp_verdict resp") (auto simp: log_entry_of_def)
qed

text \<open>The log agrees with the answer. A log entry has the response's verdict, hashes, attestation and
  signature and lists exactly the checkers that timed out; an answer is logged exactly when a
  database is configured and the verdict is not a TIMEOUT, so no TIMEOUT verdict is ever stored.\<close>

theorem log_agrees_with_response:
  assumes "evaluate_raw_tx S shuffle p T tx = Some (Inr (resp, lg))"
  shows "(lg \<noteq> None \<longleftrightarrow> vp_db p \<and> resp_verdict resp \<noteq> Timeout) \<and>
    (\<forall>e. lg = Some e \<longrightarrow> log_verdict e = verdict_to_str (resp_verdict resp) \<and> log_verdict e \<noteq> ''TIMEOUT'' \<and>
       log_tx_hash e = resp_tx_hash resp \<and> log_attestation e = attestation_bytes resp \<and>
       log_signature e = signature_bytes resp \<and> log_checker_outputs_hash e = resp_outputs_hash resp \<and>
       log_checkers_timed_out e = timed_out (resp_checker_results resp))"
  using log_answers [OF assms] .

subsection \<open>The deadline and checkers that never yield\<close>

lemma synchronous_checkers_no_deadline:
  assumes "\<forall>c \<in> set (vp_checkers p). \<forall>ctx. ready_after c ctx = None"
  shows "evaluate_raw_tx S shuffle p T tx = evaluate_raw_tx_inner S shuffle p T tx"
proof -
  have "List.map_filter (\<lambda>c. ready_after c ctx) (vp_checkers p) = []" for ctx
    using assms by (simp add: List.map_filter_def filter_empty_conv)
  then show ?thesis
    by (simp add: evaluate_raw_tx_def deadline_fires_def checkers_pending_def split: sum.splits)
qed

lemma score_no_findings:
  assumes "\<forall>st \<in> set (map snd (outputs r)). \<exists>out. st = Completed out \<and> out_severity out = SevNone"
  shows "compute_safety_score r = Fin 1" "score_to_verdict (compute_safety_score r) r = Approve"
proof -
  have "foldl (\<lambda>score status. f_sub score (status_penalty status)) (Fin 1) sts = Fin 1"
    if "\<forall>st \<in> set sts. \<exists>out. st = Completed out \<and> out_severity out = SevNone" for sts
    using that by (induction sts) auto
  from this [OF assms] show s: "compute_safety_score r = Fin 1"
    by (simp add: compute_safety_score_def f_clamp_def)
  have "\<not> (\<exists>out \<in> set (completed r). out_severity out = Critical)"
    using assms by (fastforce simp: set_completed)
  moreover obtain t where "rnd (7/10) = Fin t" "t \<le> 1"
    using rnd_int_bounds [of "7/10" 1] by auto
  ultimately show "score_to_verdict (compute_safety_score r) r = Approve"
    by (simp add: s score_to_verdict_def)
qed

lemma serialize_plain_outputs:
  "\<forall>out \<in> set outs. flags out = [] \<and> length (checker_name out) < 2 ^ 32 \<and> length (details out) < 2 ^ 32 \<Longrightarrow>
    \<exists>bs. serialize_outputs tv outs = Some bs"
  by (induction outs)
    (auto simp: borsh_output_def borsh_string_def borsh_vec_def str_bytes_def borsh_flag_vec_def)

lemma checked_results_elem:
  assumes "(k, st) \<in> set (outputs (checked_results shuffle p T tx pe))"
  shows "\<exists>c \<in> set (vp_checkers p). st = snd (run_one (checker_ctx tx pe) c)"
proof -
  let ?rs = "map (run_one (checker_ctx tx pe)) (vp_checkers p)"
  have "(k, st) \<in> set (hm_collect ?rs)"
    using assms by (simp add: checked_results_def Let_def run_checkers_def)
  then have "map_of (rev ?rs) k = Some st"
    using hm_collect_ok [of ?rs] lookup_hm_collect [of ?rs k] by (simp add: hm_ok_def)
  then have "(k, st) \<in> set ?rs" by (auto dest: map_of_SomeD)
  then show ?thesis by (metis (no_types, lifting) image_iff list.set_map snd_conv)
qed

text \<open>Checkers that complete at once, without flags: the pipeline answers from their results.\<close>

definition plain_checker :: "checker \<Rightarrow> bool" where
  "plain_checker c \<longleftrightarrow> (\<forall>ctx. ready_after c ctx = None \<and> flags (check c ctx) = [] \<and>
     length (checker_name (check c ctx)) < 2 ^ 32 \<and> length (details (check c ctx)) < 2 ^ 32)"

lemma stub_checkers_plain: "c \<in> set all_stub_checkers \<Longrightarrow> plain_checker c \<and> out_severity (check c ctx) = SevNone"
  by (auto simp: all_stub_checkers_def stub_checker_def plain_checker_def)

text \<open>Checkers that never yield are answered whenever their outputs can be serialized.\<close>

lemma synchronous_respond:
  assumes "\<forall>c \<in> set (vp_checkers p). \<forall>ctx. ready_after c ctx = None" "before_checkers S p T tx = Inr pe"
    and "checker_outputs_hash (json_to_vec S) (sha256 S) (checked_results shuffle p T tx pe) = Some oh"
  shows "\<exists>resp lg. evaluate_raw_tx S shuffle p T tx = Some (Inr (resp, lg)) \<and>
    resp_verdict resp = final_verdict (pe_downgrade pe) (checked_results shuffle p T tx pe) \<and>
    resp_safety_score resp = compute_safety_score (checked_results shuffle p T tx pe)"
  using synchronous_checkers_no_deadline [OF assms(1), of S shuffle T tx] assms(2,3)
  by (simp add: evaluate_raw_tx_inner_def after_checkers_def sign_attestation_def Let_def)

lemma plain_checkers_respond:
  assumes "\<forall>c \<in> set (vp_checkers p). plain_checker c" "before_checkers S p T tx = Inr pe"
  shows "\<exists>resp lg. evaluate_raw_tx S shuffle p T tx = Some (Inr (resp, lg)) \<and>
    resp_verdict resp = final_verdict (pe_downgrade pe) (checked_results shuffle p T tx pe) \<and>
    resp_safety_score resp = compute_safety_score (checked_results shuffle p T tx pe)"
proof -
  let ?r = "checked_results shuffle p T tx pe"
  have "\<forall>out \<in> set (sort_key checker_name (completed ?r)).
      flags out = [] \<and> length (checker_name out) < 2 ^ 32 \<and> length (details out) < 2 ^ 32"
  proof
    fix out assume "out \<in> set (sort_key checker_name (completed ?r))"
    then obtain k where "(k, Completed out) \<in> set (outputs ?r)" by (auto simp: set_completed)
    from checked_results_elem [OF this] show "flags out = [] \<and> length (checker_name out) < 2 ^ 32 \<and> length (details out) < 2 ^ 32"
      using assms(1) by (auto simp: run_one_def plain_checker_def split: option.splits if_splits)
  qed
  then obtain oh where "checker_outputs_hash (json_to_vec S) (sha256 S) ?r = Some oh"
    using serialize_plain_outputs [of "sort_key checker_name (completed ?r)" "json_to_vec S"]
    by (auto simp: checker_outputs_hash_def)
  from synchronous_respond [OF _ assms(2) this] show ?thesis using assms(1) by (auto simp: plain_checker_def)
qed

subsection \<open>A run\<close>

definition demo_services :: "((pubkey, account) hashmap, transaction) services" where
  "demo_services = \<lparr>lite = toy_svm, ed = tag_scheme, sha256 = (\<lambda>bs. replicate 32 0), json_to_vec = literal_to_vec\<rparr>"

definition zero_timeline :: timeline where
  "zero_timeline =
     \<lparr>t_start = 0, t_staleness = 0, t_sim_start = 0, t_sim_end = 0, t_checkers_start = 0, t_checkers_end = 0,
      t_scoring_start = 0, t_scoring_end = 0, t_signing_start = 0, t_signing_end = 0, t_total = 0,
      t_timeout = 0, unix_timestamp = 1\<rparr>"

definition demo_pipeline :: "checker list \<Rightarrow> (pubkey, account) hashmap verdict_pipeline" where
  "demo_pipeline cs =
     \<lparr>vp_fork = new_offline [], fork_poisoned = False, vp_checkers = cs, vp_signer = from_bytes (replicate 32 7),
      vp_staleness = tracker_new 0 staleness_config_default, vp_db = True, timeout_ms = DEFAULT_TIMEOUT_MS\<rparr>"

definition critical_checker :: checker where
  "critical_checker =
     (stub_checker ''critical'')\<lparr>check := \<lambda>ctx. \<lparr>checker_name = ''critical'', passed = False,
        out_severity = Critical, flags = [], details = []\<rparr>\<rparr>"

lemma demo_before:
  "\<exists>pe. before_checkers demo_services (demo_pipeline cs) zero_timeline oracle_tx = Inr pe"
  "staleness_state_at (t_staleness zero_timeline) (vp_staleness (demo_pipeline cs)) = Fresh"
  by (simp_all add: before_checkers_def compute_tx_hash_def demo_services_def toy_svm_def demo_pipeline_def
      zero_timeline_def staleness_state_at_def time_since_last_update_def elapsed_def tracker_new_def
      execute_transaction_def Let_def)

lemma demo_keys:
  "ed25519_correct (ed demo_services)" "length (signing_key (vp_signer (demo_pipeline cs))) = 32"
  "sha256_sized demo_services"
  by (simp_all add: demo_services_def tag_scheme_correct demo_pipeline_def from_bytes_def sha256_sized_def)

lemma demo_run:
  assumes "\<forall>c \<in> set cs. plain_checker c"
  shows "\<exists>resp lg pe. evaluate_raw_tx demo_services id (demo_pipeline cs) zero_timeline oracle_tx = Some (Inr (resp, lg)) \<and>
     before_checkers demo_services (demo_pipeline cs) zero_timeline oracle_tx = Inr pe"
proof -
  obtain pe where "before_checkers demo_services (demo_pipeline cs) zero_timeline oracle_tx = Inr pe"
    using demo_before by blast
  then show ?thesis using plain_checkers_respond [of "demo_pipeline cs" demo_services zero_timeline oracle_tx pe id] assms
    by (auto simp: demo_pipeline_def)
qed

theorem response_is_attested_witness:
  "\<exists>resp lg. evaluate_raw_tx demo_services id (demo_pipeline all_stub_checkers) zero_timeline oracle_tx =
     Some (Inr (resp, lg)) \<and>
     verify_attestation tag_scheme (replicate 32 7) (attestation_bytes resp) (signature_bytes resp)"
proof -
  obtain resp lg where "evaluate_raw_tx demo_services id (demo_pipeline all_stub_checkers) zero_timeline oracle_tx =
     Some (Inr (resp, lg))" using demo_run stub_checkers_plain by blast
  from response_is_attested [OF demo_keys this] this show ?thesis
    by (auto simp: demo_services_def demo_pipeline_def pubkey_bytes_def from_bytes_def tag_scheme_def)
qed

theorem verdict_by_age_witness:
  "\<exists>resp lg. evaluate_raw_tx demo_services id (demo_pipeline all_stub_checkers) (zero_timeline\<lparr>t_staleness := from_secs 4\<rparr>) oracle_tx =
     Some (Inr (resp, lg)) \<and> resp_verdict resp = Warn \<and> downgrade_reason resp = Some ''state_parity_degraded''"
proof -
  let ?T = "zero_timeline\<lparr>t_staleness := from_secs 4\<rparr>" and ?p = "demo_pipeline all_stub_checkers"
  obtain pe where pe: "before_checkers demo_services ?p ?T oracle_tx = Inr pe"
    by (simp add: before_checkers_def compute_tx_hash_def demo_services_def toy_svm_def demo_pipeline_def zero_timeline_def
        staleness_state_at_def time_since_last_update_def elapsed_def tracker_new_def staleness_config_default_def from_secs_def
        execute_transaction_def Let_def)
  have plain: "\<forall>c \<in> set (vp_checkers ?p). plain_checker c" using stub_checkers_plain by (simp add: demo_pipeline_def)
  from plain_checkers_respond [OF this pe] obtain resp lg where
    r: "evaluate_raw_tx demo_services id ?p ?T oracle_tx = Some (Inr (resp, lg))" by blast
  have cfg: "staleness_cfg (vp_staleness ?p) = \<lparr>warn_threshold = from_secs 3, timeout_threshold = from_secs 10\<rparr>"
    by (simp add: demo_pipeline_def tracker_new_def staleness_config_default_def)
  have age: "from_secs 4 = t_staleness ?T - last_update (vp_staleness ?p)" by (simp add: demo_pipeline_def tracker_new_def)
  have "\<forall>c \<in> set (vp_checkers ?p). \<forall>ctx. ready_after c ctx = None" using plain by (simp add: plain_checker_def)
  then have nd: "\<not> deadline_fires ?p ?T ctx" for ctx
    by (simp add: deadline_fires_def checkers_pending_def List.map_filter_def)
  have clean: "score_to_verdict (compute_safety_score (checked_results id ?p ?T oracle_tx pe)) (checked_results id ?p ?T oracle_tx pe) = Approve" for pe
  proof -
    have "\<forall>s \<in> set (map snd (outputs (checked_results id ?p ?T oracle_tx pe))). \<exists>out. s = Completed out \<and> out_severity out = SevNone"
    proof
      fix s assume "s \<in> set (map snd (outputs (checked_results id ?p ?T oracle_tx pe)))"
      then obtain k where "(k, s) \<in> set (outputs (checked_results id ?p ?T oracle_tx pe))" by auto
      from checked_results_elem [OF this] show "\<exists>out. s = Completed out \<and> out_severity out = SevNone"
        using stub_checkers_plain by (auto simp: run_one_def plain_checker_def demo_pipeline_def split: option.splits)
    qed
    then show ?thesis using score_no_findings by blast
  qed
  have "from_secs 3 < from_secs 4" "\<not> from_secs 10 < from_secs 4" by (simp_all add: from_secs_def)
  then have "resp_verdict resp = Warn \<and> downgrade_reason resp = Some ''state_parity_degraded''"
    using verdict_by_age [OF r cfg age] nd clean by auto
  then show ?thesis using r by blast
qed

theorem critical_finding_blocks_witness:
  "\<exists>resp lg. evaluate_raw_tx demo_services id (demo_pipeline [critical_checker]) zero_timeline oracle_tx =
     Some (Inr (resp, lg)) \<and> (resp_verdict resp = Block \<or> resp_verdict resp = Timeout)"
proof -
  have plain: "\<forall>c \<in> set [critical_checker]. plain_checker c"
    by (simp add: plain_checker_def critical_checker_def stub_checker_def)
  obtain resp lg pe where r: "evaluate_raw_tx demo_services id (demo_pipeline [critical_checker]) zero_timeline oracle_tx =
      Some (Inr (resp, lg))" and pe: "before_checkers demo_services (demo_pipeline [critical_checker]) zero_timeline oracle_tx = Inr pe"
    using demo_run [OF plain] by blast
  have "snd (run_one (checker_ctx oracle_tx pe) critical_checker) = Completed (check critical_checker (checker_ctx oracle_tx pe))"
    "out_severity (check critical_checker (checker_ctx oracle_tx pe)) = Critical"
    by (simp_all add: run_one_def critical_checker_def stub_checker_def)
  from critical_finding_blocks [OF r _ _ pe this] r show ?thesis
    by (auto simp: demo_pipeline_def)
qed

theorem evaluation_errors_witness:
  "\<exists>e. evaluate_raw_tx demo_services id ((demo_pipeline [])\<lparr>fork_poisoned := True\<rparr>) zero_timeline oracle_tx = Some (Inl e) \<and>
     ((\<exists>f. e = ForkSim f) \<or> (\<exists>m. e = Deserialization m))"
proof -
  have "evaluate_raw_tx demo_services id ((demo_pipeline [])\<lparr>fork_poisoned := True\<rparr>) zero_timeline oracle_tx = Some (Inl poisoned_error)"
    using demo_before(2) [of "[]"]
    by (simp add: evaluate_raw_tx_def evaluate_raw_tx_inner_def before_checkers_def compute_tx_hash_def
        demo_services_def toy_svm_def Let_def demo_pipeline_def)
  from evaluation_errors [OF this] this show ?thesis by blast
qed

theorem log_agrees_with_response_witness:
  "\<exists>resp lg. evaluate_raw_tx demo_services id (demo_pipeline all_stub_checkers) zero_timeline oracle_tx =
     Some (Inr (resp, lg)) \<and> (lg \<noteq> None \<longleftrightarrow> resp_verdict resp \<noteq> Timeout)"
proof -
  obtain resp lg where r: "evaluate_raw_tx demo_services id (demo_pipeline all_stub_checkers) zero_timeline oracle_tx =
     Some (Inr (resp, lg))" using demo_run stub_checkers_plain by blast
  from log_agrees_with_response [OF this] r show ?thesis by (auto simp: demo_pipeline_def)
qed

end
