(* ===== verification/Fork_System.thy ===== *)
theory Fork_System
  imports Geyser Pipeline
begin

section \<open>The shared state of the fork\<close>

text \<open>
  The simulator and the account stream share the account cache, and the stream and the pipeline
  share the staleness tracker (both are clones of one \<^verbatim>\<open>Arc\<close>). This theory puts the operations of
  \<open>Account_Cache\<close> and \<open>Geyser\<close> on that state into one labelled step relation, with a read in its two
  atomic parts, and compares it with registers that simply remember the last write of each key. The
  lemmas show that under every interleaving a read returns the last write or nothing, that it may
  nevertheless return an account older than one the stream has already delivered, and how an outage
  of the stream reaches the verdicts.
\<close>

subsection \<open>Steps\<close>

record fork_state =
  fs_now :: time
  fs_cache :: account_cache
  fs_tracker :: staleness_tracker
  fs_dropping :: "pubkey list" \<comment> \<open>reads between their look and their removal\<close>

text \<open>
  \<open>Stored\<close> is an insertion of the simulator (\<^verbatim>\<open>load_account\<close>, \<^verbatim>\<open>load_accounts\<close> and \<^verbatim>\<open>set_account\<close> do not
  monitor, the loading of sysvars and the gap fill do); the three outcomes of a look are three labels.
\<close>

datatype fork_event =
    Tick time
  | Streamed account_update
  | Stored pubkey account bool
  | Marked pubkey
  | Swept
  | ReadHit pubkey account
  | ReadMissing pubkey
  | ReadExpired pubkey
  | Dropped pubkey

text \<open>The subscriber with the shared cache and tracker in place of its own.\<close>

definition shared_update :: "(bytes \<Rightarrow> pubkey) \<Rightarrow> geyser \<Rightarrow> account_update \<Rightarrow> fork_state \<Rightarrow> fork_state" where
  "shared_update b58 g u s =
     (let g' = handle_account_update b58 (fs_now s) u (g\<lparr>g_cache := fs_cache s, g_staleness := fs_tracker s\<rparr>)
      in s\<lparr>fs_cache := g_cache g', fs_tracker := g_staleness g'\<rparr>)"

inductive fork_step :: "(bytes \<Rightarrow> pubkey) \<Rightarrow> geyser \<Rightarrow> fork_state \<Rightarrow> fork_event \<Rightarrow> fork_state \<Rightarrow> bool"
  for b58 :: "bytes \<Rightarrow> pubkey" and g :: geyser where
  tick: "fork_step b58 g s (Tick d) (s\<lparr>fs_now := fs_now s + d\<rparr>)"
| streamed: "fork_step b58 g s (Streamed u) (shared_update b58 g u s)"
| stored: "fork_step b58 g s (Stored k a mon) (s\<lparr>fs_cache := acache_insert (fs_now s) k a mon (fs_cache s)\<rparr>)"
| marked: "fork_step b58 g s (Marked k) (s\<lparr>fs_cache := mark_monitored k (fs_cache s)\<rparr>)"
| swept: "fork_step b58 g s Swept (s\<lparr>fs_cache := fst (evict_stale (fs_now s) (fs_cache s))\<rparr>)"
| hit: "cache_look (fs_now s) k (fs_cache s) = Hit a \<Longrightarrow> fork_step b58 g s (ReadHit k a) s"
| missing: "cache_look (fs_now s) k (fs_cache s) = Missing \<Longrightarrow> fork_step b58 g s (ReadMissing k) s"
| expired_entry: "cache_look (fs_now s) k (fs_cache s) = Stale \<Longrightarrow>
    fork_step b58 g s (ReadExpired k) (s\<lparr>fs_dropping := k # fs_dropping s\<rparr>)"
| dropped: "k \<in> set (fs_dropping s) \<Longrightarrow>
    fork_step b58 g s (Dropped k) (s\<lparr>fs_dropping := remove1 k (fs_dropping s), fs_cache := cache_drop k (fs_cache s)\<rparr>)"

inductive_cases fork_step_readE: "fork_step b58 g s (ReadHit k a) s'"

definition fork_start :: "account_cache \<Rightarrow> staleness_tracker \<Rightarrow> fork_state" where
  "fork_start c t = \<lparr>fs_now = last_update t, fs_cache = c\<lparr>entries := []\<rparr>, fs_tracker = t, fs_dropping = []\<rparr>"

subsection \<open>Registers\<close>

text \<open>
  The specification: one register per key with the last account written, the instant of the write
  and whether the longer time to live applies. A mark may or may not find the entry.
\<close>

record registers =
  rg_now :: time
  rg_last :: "pubkey \<rightharpoonup> account \<times> time \<times> bool"

text \<open>The account a stream update carries, if the subscriber accepts it.\<close>

definition update_write :: "(bytes \<Rightarrow> pubkey) \<Rightarrow> account_update \<Rightarrow> (pubkey \<times> account) option" where
  "update_write b58 u =
     (case upd_account u of
        None \<Rightarrow> None
      | Some info \<Rightarrow>
          map_option (\<lambda>k. (k, \<lparr>lamports = info_lamports info, acct_data = info_data info,
              acct_owner = (case pubkey_try_from b58 (info_owner info) of Some w \<Rightarrow> w | None \<Rightarrow> pubkey_default),
              executable = info_executable info, rent_epoch = info_rent_epoch info\<rparr>))
            (pubkey_try_from b58 (info_pubkey info)))"

inductive register_step :: "(bytes \<Rightarrow> pubkey) \<Rightarrow> time \<Rightarrow> time \<Rightarrow> registers \<Rightarrow> fork_event \<Rightarrow> registers \<Rightarrow> bool"
  for b58 :: "bytes \<Rightarrow> pubkey" and short :: time and long :: time where
  r_tick: "register_step b58 short long r (Tick d) (r\<lparr>rg_now := rg_now r + d\<rparr>)"
| r_streamed: "register_step b58 short long r (Streamed u)
    (case update_write b58 u of None \<Rightarrow> r | Some (k, a) \<Rightarrow> r\<lparr>rg_last := (rg_last r)(k \<mapsto> (a, rg_now r, True))\<rparr>)"
| r_stored: "register_step b58 short long r (Stored k a mon) (r\<lparr>rg_last := (rg_last r)(k \<mapsto> (a, rg_now r, mon))\<rparr>)"
| r_marked: "rg_last r k = Some (a, t, mon) \<Longrightarrow>
    register_step b58 short long r (Marked k) (r\<lparr>rg_last := (rg_last r)(k \<mapsto> (a, t, True))\<rparr>)"
| r_not_marked: "register_step b58 short long r (Marked k) r"
| r_hit: "rg_last r k = Some (a, t, mon) \<Longrightarrow> rg_now r - t \<le> (if mon then long else short) \<Longrightarrow>
    register_step b58 short long r (ReadHit k a) r"
| r_silent: "e \<in> {Swept, ReadMissing k, ReadExpired k, Dropped k} \<Longrightarrow> register_step b58 short long r e r"

text \<open>Every entry of the cache is the content of its register.\<close>

definition shows_registers :: "account_cache \<Rightarrow> fork_state \<Rightarrow> registers \<Rightarrow> bool" where
  "shows_registers c0 s r \<longleftrightarrow> rg_now r = fs_now s \<and> hm_ok (entries (fs_cache s)) \<and>
     ttl (fs_cache s) = ttl c0 \<and> monitored_ttl (fs_cache s) = monitored_ttl c0 \<and>
     (\<forall>k e. hm_get (entries (fs_cache s)) k = Some e \<longrightarrow> rg_last r k = Some (account_of e, inserted_at e, is_monitored e))"

lemma shows_frame [simp]:
  "shows_registers c0 (s\<lparr>fs_tracker := t\<rparr>) r = shows_registers c0 s r"
  "shows_registers c0 (s\<lparr>fs_dropping := ks\<rparr>) r = shows_registers c0 s r"
  by (simp_all add: shows_registers_def)

lemma shared_update_cases:
  "shared_update b58 g u s =
     (case update_write b58 u of
        None \<Rightarrow> s
      | Some (k, a) \<Rightarrow> s\<lparr>fs_cache := acache_insert (fs_now s) k a True (fs_cache s),
                          fs_tracker := record_update (fs_now s) (upd_slot u) (fs_tracker s)\<rparr>)"
  by (simp add: shared_update_def update_write_def handle_account_update_def Let_def split: option.splits)

lemma shows_insert:
  assumes "shows_registers c0 s r"
  shows "shows_registers c0 (s\<lparr>fs_cache := acache_insert (fs_now s) k a mon (fs_cache s)\<rparr>)
    (r\<lparr>rg_last := (rg_last r)(k \<mapsto> (a, rg_now r, mon))\<rparr>)"
  using assms hm_ok_ops(1) [of "fs_cache s" "fs_now s" k a mon]
  by (auto simp: shows_registers_def acache_insert_def update_conv')

lemma shows_fewer:
  assumes "shows_registers c0 s r" "hm_ok es" "\<And>k e. hm_get es k = Some e \<Longrightarrow> hm_get (entries (fs_cache s)) k = Some e"
  shows "shows_registers c0 (s\<lparr>fs_cache := (fs_cache s)\<lparr>entries := es\<rparr>\<rparr>) r"
  using assms by (simp add: shows_registers_def)

lemma shows_swept:
  assumes "shows_registers c0 s r"
  shows "shows_registers c0 (s\<lparr>fs_cache := fst (evict_stale now (fs_cache s))\<rparr>) r"
proof -
  let ?es = "filter (\<lambda>(k, e). \<not> expired now (fs_cache s) e) (entries (fs_cache s))"
  have ok: "hm_ok (entries (fs_cache s))" using assms by (simp add: shows_registers_def)
  then have "hm_ok ?es" by (simp add: hm_ok_def distinct_map_filter)
  moreover have "hm_get (entries (fs_cache s)) k = Some e" if "hm_get ?es k = Some e" for k e
    using that ok by (simp add: hm_ok_def map_of_filter_snd split: option.splits if_splits)
  ultimately show ?thesis using shows_fewer [OF assms] by (simp add: evict_stale_def Let_def)
qed

lemma shows_dropped:
  assumes "shows_registers c0 s r"
  shows "shows_registers c0 (s\<lparr>fs_cache := cache_drop k (fs_cache s)\<rparr>) r"
proof -
  have "hm_ok (hm_remove k (entries (fs_cache s)))"
    using assms by (simp add: shows_registers_def hm.invar_del)
  moreover have "hm_get (entries (fs_cache s)) j = Some e" if "hm_get (hm_remove k (entries (fs_cache s))) j = Some e" for j e
    using that by (simp add: delete_conv' split: if_splits)
  ultimately show ?thesis using shows_fewer [OF assms] by (simp add: cache_drop_def)
qed

lemma step_shown:
  assumes "shows_registers c0 s r" "fork_step b58 g s l s'"
  shows "\<exists>r'. register_step b58 (ttl c0) (monitored_ttl c0) r l r' \<and> shows_registers c0 s' r'"
  using assms(2)
proof cases
  case (tick d)
  then show ?thesis using assms(1) by (force simp: shows_registers_def intro: r_tick)
next
  case (streamed u)
  show ?thesis
  proof (cases "update_write b58 u")
    case None
    then show ?thesis using streamed assms(1) r_streamed [of b58 _ _ r u] by (force simp: shared_update_cases)
  next
    case (Some ka)
    obtain k a where ka: "ka = (k, a)" by (cases ka)
    have "shows_registers c0 s' (r\<lparr>rg_last := (rg_last r)(k \<mapsto> (a, rg_now r, True))\<rparr>)"
      using shows_insert [OF assms(1), of k a True] streamed(2) Some ka by (simp add: shared_update_cases)
    then show ?thesis using streamed(1) Some ka r_streamed [of b58 _ _ r u] by auto
  qed
next
  case (stored k a mon)
  then show ?thesis using shows_insert [OF assms(1)] r_stored by blast
next
  case (marked k)
  show ?thesis
  proof (cases "hm_get (entries (fs_cache s)) k")
    case None
    then have "s' = s" using marked by (simp add: mark_monitored_def)
    then show ?thesis using marked(1) assms(1) r_not_marked by blast
  next
    case (Some e)
    then have l: "rg_last r k = Some (account_of e, inserted_at e, is_monitored e)"
      using assms(1) by (simp add: shows_registers_def)
    have "shows_registers c0 s' (r\<lparr>rg_last := (rg_last r)(k \<mapsto> (account_of e, inserted_at e, True))\<rparr>)"
      using assms(1) marked(2) Some hm_ok_ops(2) [of "fs_cache s" k]
      by (auto simp: shows_registers_def mark_monitored_def update_conv')
    then show ?thesis using marked(1) r_marked [OF l] by blast
  qed
next
  case swept
  then show ?thesis using shows_swept [OF assms(1)] r_silent [of Swept] by blast
next
  case (hit k a)
  then obtain e where e: "hm_get (entries (fs_cache s)) k = Some e" "\<not> expired (fs_now s) (fs_cache s) e" "a = account_of e"
    by (auto simp: cache_look_def split: option.splits if_splits)
  then have "rg_last r k = Some (a, inserted_at e, is_monitored e)"
    "rg_now r - inserted_at e \<le> (if is_monitored e then monitored_ttl c0 else ttl c0)"
    using assms(1) by (auto simp: shows_registers_def expired_def effective_ttl_def elapsed_def split: if_splits)
  then show ?thesis using hit assms(1) r_hit by blast
next
  case (missing k)
  then show ?thesis using assms(1) r_silent [of "ReadMissing k"] by blast
next
  case (expired_entry k)
  then show ?thesis using assms(1) r_silent [of "ReadExpired k" k] shows_frame(2) by fastforce
next
  case (dropped k)
  then show ?thesis using shows_dropped [OF assms(1), of k] r_silent [of "Dropped k" k] shows_frame(2) by fastforce
qed

interpretation fork_cache: labelled_simulation "fork_step b58 g"
    "register_step b58 (ttl c0) (monitored_ttl c0)" "shows_registers c0" for b58 g c0
  by unfold_locales (rule step_shown)

definition registers_start :: "fork_state \<Rightarrow> registers" where
  "registers_start s = \<lparr>rg_now = fs_now s, rg_last = Map.empty\<rparr>"

lemma start_shown: "shows_registers c (fork_start c t) (registers_start (fork_start c t))"
  by (simp add: shows_registers_def fork_start_def registers_start_def hm_ok_def)

text \<open>C40: The cache that the simulator and the stream share refines a register per key. Every run of the
  shared state, with any interleaving of stream updates, insertions, marks, sweeps and the two
  halves of reads, is a run of registers that keep the last write of each key: a read that hits
  returns exactly the last account written under its key, written no longer ago than its time to
  live.\<close>

theorem cache_refines_registers:
  assumes "steps_along (fork_step b58 g) (fork_start c t) es s"
  shows "\<exists>r. steps_along (register_step b58 (ttl c) (monitored_ttl c)) (registers_start (fork_start c t)) es r \<and>
    (\<forall>k e. hm_get (entries (fs_cache s)) k = Some e \<longrightarrow> rg_last r k = Some (account_of e, inserted_at e, is_monitored e))"
  using fork_cache.run_simulated [OF start_shown assms] by (auto simp: shows_registers_def)

subsection \<open>The history behind a read\<close>

fun event_write :: "(bytes \<Rightarrow> pubkey) \<Rightarrow> fork_event \<Rightarrow> (pubkey \<times> account) option" where
  "event_write b58 (Streamed u) = update_write b58 u"
| "event_write b58 (Stored k a mon) = Some (k, a)"
| "event_write b58 e = None"

fun tick_of :: "fork_event \<Rightarrow> time" where
  "tick_of (Tick d) = d"
| "tick_of e = 0"

definition ticks :: "fork_event list \<Rightarrow> time" where
  "ticks es = sum_list (map tick_of es)"

abbreviation stamp :: "account \<times> time \<times> bool \<Rightarrow> account \<times> time" where
  "stamp v \<equiv> (fst v, fst (snd v))"

lemma register_step_effect:
  assumes "register_step b58 short long m e r"
  shows "rg_now r = rg_now m + tick_of e"
    "event_write b58 e = Some (k, a) \<Longrightarrow> \<exists>mon. rg_last r = (rg_last m)(k \<mapsto> (a, rg_now m, mon))"
    "event_write b58 e = None \<Longrightarrow> map_option stamp (rg_last r j) = map_option stamp (rg_last m j)"
  using assms by (auto elim!: register_step.cases split: option.splits)

lemma register_history:
  assumes "steps_along (register_step b58 short long) r0 es r" "rg_last r0 = Map.empty"
    and "map_option stamp (rg_last r k) = Some (a, t)"
  shows "\<exists>es1 w es2. es = es1 @ w # es2 \<and> event_write b58 w = Some (k, a) \<and>
    (\<forall>e \<in> set es2. \<forall>b. event_write b58 e \<noteq> Some (k, b)) \<and> rg_now r = t + ticks es2"
  using assms
proof (induction es arbitrary: r rule: rev_induct)
  case (snoc e es)
  then obtain m where m: "steps_along (register_step b58 short long) r0 es m" "register_step b58 short long m e r"
    by (auto simp: steps_along_append)
  note eff = register_step_effect [OF m(2)]
  have keep: ?case if k: "map_option stamp (rg_last m k) = Some (a, t)" and n: "\<forall>b. event_write b58 e \<noteq> Some (k, b)"
  proof -
    obtain es1 w es2 where h: "es = es1 @ w # es2" "event_write b58 w = Some (k, a)"
      "\<forall>e \<in> set es2. \<forall>b. event_write b58 e \<noteq> Some (k, b)" "rg_now m = t + ticks es2"
      using snoc.IH [OF m(1) snoc.prems(2) k] by blast
    then show ?case using n eff(1) by (intro exI [of _ es1] exI [of _ w] exI [of _ "es2 @ [e]"]) (auto simp: ticks_def)
  qed
  show ?case
  proof (cases "event_write b58 e")
    case None
    then show ?thesis using keep eff(3) snoc.prems(3) by simp
  next
    case (Some kb)
    obtain k' b where kb: "kb = (k', b)" by (cases kb)
    obtain mon where r: "rg_last r = (rg_last m)(k' \<mapsto> (b, rg_now m, mon))" using eff(2) Some kb by blast
    show ?thesis
    proof (cases "k' = k")
      case True
      then have "b = a" "rg_now m = t" using r snoc.prems(3) by auto
      moreover have "tick_of e = 0" using Some by (cases e) auto
      ultimately show ?thesis using Some kb True eff(1)
        by (intro exI [of _ es] exI [of _ e] exI [of _ "[]"]) (auto simp: ticks_def)
    next
      case False
      then show ?thesis using keep r snoc.prems(3) Some kb by auto
    qed
  qed
qed simp

text \<open>C8: A cached account is never fabricated and never outlives its time to live. Whenever, in a run of
  the shared fork state from an empty cache, a read of a key hits, the account it returns was
  written under that key by an insertion or an accepted stream update of the run, nothing else was
  written under the key since, and no more time has passed since than the longer of the two times to
  live.\<close>

theorem cached_reads_recent:
  assumes "steps_along (fork_step b58 g) (fork_start c t) (es @ [ReadHit k a]) s"
  shows "\<exists>es1 w es2. es = es1 @ w # es2 \<and> event_write b58 w = Some (k, a) \<and>
    (\<forall>e \<in> set es2. \<forall>b. event_write b58 e \<noteq> Some (k, b)) \<and> ticks es2 \<le> max (ttl c) (monitored_ttl c)"
proof -
  let ?R = "register_step b58 (ttl c) (monitored_ttl c)"
  obtain r where "steps_along ?R (registers_start (fork_start c t)) (es @ [ReadHit k a]) r"
    using fork_cache.run_simulated [OF start_shown assms] by blast
  then obtain m where m: "steps_along ?R (registers_start (fork_start c t)) es m" "?R m (ReadHit k a) r"
    by (auto simp: steps_along_append)
  then obtain u mon where u: "rg_last m k = Some (a, u, mon)" "rg_now m - u \<le> (if mon then monitored_ttl c else ttl c)"
    by (auto elim!: register_step.cases)
  have "map_option stamp (rg_last m k) = Some (a, u)" using u(1) by simp
  from register_history [OF m(1) _ this] obtain es1 w es2 where
    h: "es = es1 @ w # es2" "event_write b58 w = Some (k, a)" "\<forall>e \<in> set es2. \<forall>b. event_write b58 e \<noteq> Some (k, b)"
      "rg_now m = u + ticks es2"
    by (auto simp: registers_start_def)
  moreover have "ticks es2 \<le> max (ttl c) (monitored_ttl c)" using u(2) h(4) by (auto split: if_splits)
  ultimately show ?thesis by blast
qed

subsection \<open>What the order of writes allows\<close>

lemmas fork_step_defs = cache_look_def acache_insert_def mark_monitored_def cache_drop_def expired_def effective_ttl_def elapsed_def
  fork_start_def update_conv' delete_conv'

text \<open>The last write need not be the newest account. A reply to a load that was requested before the
  stream delivered an update is stored over that update, without comparing slots; the next read
  returns the older account while the tracker reports the slot of the update and a fresh state.\<close>

theorem late_reply_overwrites_stream:
  assumes "update_write b58 u = Some (k, new)"
  shows "\<exists>s. steps_along (fork_step b58 g) (fork_start c t) [ReadMissing k, Streamed u, Stored k old False, ReadHit k old] s \<and>
    last_slot (fs_tracker s) = upd_slot u \<and> staleness_state_at (fs_now s) (fs_tracker s) = Fresh"
proof -
  let ?s0 = "fork_start c t"
  let ?s1 = "shared_update b58 g u ?s0"
  let ?s2 = "?s1\<lparr>fs_cache := acache_insert (fs_now ?s1) k old False (fs_cache ?s1)\<rparr>"
  have "fork_step b58 g ?s0 (ReadMissing k) ?s0" by (rule missing) (simp add: fork_step_defs)
  moreover have "fork_step b58 g ?s2 (ReadHit k old) ?s2" by (rule hit) (simp add: fork_step_defs)
  ultimately have "steps_along (fork_step b58 g) ?s0 [ReadMissing k, Streamed u, Stored k old False, ReadHit k old] ?s2"
    using streamed stored by (auto intro!: exI)
  moreover have "last_slot (fs_tracker ?s2) = upd_slot u" "staleness_state_at (fs_now ?s2) (fs_tracker ?s2) = Fresh"
    using assms by (simp_all add: shared_update_cases record_update_def staleness_state_at_def time_since_last_update_def elapsed_def)
  ultimately show ?thesis by blast
qed

text \<open>Marking brings an expired account back. An account past its time to live is reported as expired,
  and after a mark the same account is served again, unless the removal of the first read came in
  between.\<close>

theorem mark_revives_expired:
  assumes "ttl c < d" "d \<le> monitored_ttl c"
  shows "\<exists>s. steps_along (fork_step b58 g) (fork_start c t) [Stored k a False, Tick d, ReadExpired k, Marked k, ReadHit k a] s"
    and "\<exists>s. steps_along (fork_step b58 g) (fork_start c t) [Stored k a False, Tick d, ReadExpired k, Dropped k, Marked k, ReadMissing k] s"
proof -
  let ?s1 = "(fork_start c t)\<lparr>fs_cache := acache_insert (last_update t) k a False (fs_cache (fork_start c t))\<rparr>"
  let ?s2 = "?s1\<lparr>fs_now := fs_now ?s1 + d\<rparr>"
  let ?s3 = "?s2\<lparr>fs_dropping := k # fs_dropping ?s2\<rparr>"
  let ?s4 = "?s3\<lparr>fs_cache := mark_monitored k (fs_cache ?s3)\<rparr>"
  let ?s5 = "?s3\<lparr>fs_dropping := remove1 k (fs_dropping ?s3), fs_cache := cache_drop k (fs_cache ?s3)\<rparr>"
  let ?s6 = "?s5\<lparr>fs_cache := mark_monitored k (fs_cache ?s5)\<rparr>"
  have "fork_step b58 g (fork_start c t) (Stored k a False) ?s1"
    using stored [of b58 g "fork_start c t" k a False] by (simp add: fork_start_def)
  moreover have "fork_step b58 g ?s1 (Tick d) ?s2" by (rule tick)
  moreover have "fork_step b58 g ?s2 (ReadExpired k) ?s3" using assms by (intro expired_entry) (simp add: fork_step_defs)
  ultimately have "steps_along (fork_step b58 g) (fork_start c t) [Stored k a False, Tick d, ReadExpired k] ?s3"
    by (simp only: steps_along.simps) blast
  note pre = this
  have "fork_step b58 g ?s3 (Marked k) ?s4" by (rule marked)
  moreover have "fork_step b58 g ?s4 (ReadHit k a) ?s4" using assms by (intro hit) (simp add: fork_step_defs)
  ultimately have "steps_along (fork_step b58 g) ?s3 [Marked k, ReadHit k a] ?s4" by (simp only: steps_along.simps) blast
  with pre show "\<exists>s. steps_along (fork_step b58 g) (fork_start c t) [Stored k a False, Tick d, ReadExpired k, Marked k, ReadHit k a] s"
    using steps_along_append [of "fork_step b58 g" "fork_start c t" "[Stored k a False, Tick d, ReadExpired k]" "[Marked k, ReadHit k a]"]
    unfolding append_Cons append_Nil by blast
  have "fork_step b58 g ?s3 (Dropped k) ?s5" by (rule dropped) simp
  moreover have "fork_step b58 g ?s5 (Marked k) ?s6" by (rule marked)
  moreover have "fork_step b58 g ?s6 (ReadMissing k) ?s6" by (intro missing) (simp add: fork_step_defs)
  ultimately have "steps_along (fork_step b58 g) ?s3 [Dropped k, Marked k, ReadMissing k] ?s6" by (simp only: steps_along.simps) blast
  with pre show "\<exists>s. steps_along (fork_step b58 g) (fork_start c t) [Stored k a False, Tick d, ReadExpired k, Dropped k, Marked k, ReadMissing k] s"
    using steps_along_append [of "fork_step b58 g" "fork_start c t" "[Stored k a False, Tick d, ReadExpired k]" "[Dropped k, Marked k, ReadMissing k]"]
    unfolding append_Cons append_Nil by blast
qed

subsection \<open>An outage reaches the verdicts\<close>

text \<open>
  The instant of the last update the subscriber accepts among the messages of a stream, up to the
  first stream error.
\<close>

fun last_accepted ::
    "(bytes \<Rightarrow> pubkey) \<Rightarrow> (time \<times> pubkey list list \<times> bool \<times> stream_message) list \<Rightarrow> time \<Rightarrow> time" where
  "last_accepted b58 [] t = t"
| "last_accepted b58 ((now, sent, locked, msg) # rest) t =
     (case msg of
        StreamError e \<Rightarrow> t
      | AccountMsg u \<Rightarrow> last_accepted b58 rest (if update_write b58 u = None then t else now)
      | _ \<Rightarrow> last_accepted b58 rest t)"

lemma tracker_update:
  "g_staleness (handle_account_update b58 now u g) =
     (if update_write b58 u = None then g_staleness g else record_update now (upd_slot u) (g_staleness g))"
  by (simp add: handle_account_update_def update_write_def Let_def split: option.splits)

lemma tracker_dynamic [simp]: "g_staleness (fst (check_dynamic_accounts locked g)) = g_staleness g"
  by (simp add: check_dynamic_accounts_def Let_def)

lemma tracker_send [simp]: "g_staleness (fold account_send sent g) = g_staleness g"
  by (induction sent arbitrary: g) (simp_all add: account_send_def)

lemma tracker_stream:
  "last_update (g_staleness (fst (stream_loop b58 msgs g))) = last_accepted b58 msgs (last_update (g_staleness g)) \<and>
   staleness_cfg (g_staleness (fst (stream_loop b58 msgs g))) = staleness_cfg (g_staleness g)"
proof (induction msgs arbitrary: g)
  case (Cons m msgs)
  obtain now sent locked msg where m: "m = (now, sent, locked, msg)" by (cases m)
  show ?case
    by (cases msg) (auto simp: m Let_def case_prod_beta' Cons tracker_update record_update_def)
qed simp

text \<open>C7: An outage of the account stream reaches the verdicts. Let the pipeline watch the tracker of the
  subscriber, and let the stream have delivered its messages. While at most the warning threshold
  has passed since the last accepted update, no answer is degraded for staleness; once more has
  passed, no answer is APPROVE and every answer other than TIMEOUT carries the reason; and once more
  than the timeout threshold has passed, every answer is TIMEOUT, whatever the transaction and the
  checkers.\<close>

theorem outage_gates_verdicts:
  assumes "vp_staleness p = g_staleness (fst (stream_loop b58 msgs g))"
    and "staleness_cfg (g_staleness g) = \<lparr>warn_threshold = w, timeout_threshold = to\<rparr>" "w \<le> to"
    and "silent = t_staleness T - last_accepted b58 msgs (last_update (g_staleness g))"
    and "evaluate_raw_tx S shuffle p T tx = Some (Inr (resp, lg))"
  shows "(silent \<le> w \<longrightarrow> downgrade_reason resp = None) \<and>
    (w < silent \<longrightarrow> resp_verdict resp \<noteq> Approve \<and> (resp_verdict resp \<noteq> Timeout \<longrightarrow> downgrade_reason resp \<noteq> None)) \<and>
    (to < silent \<longrightarrow> resp_verdict resp = Timeout)"
proof -
  have st: "staleness_state_at (t_staleness T) (vp_staleness p) =
      (if to < silent then StaleTimeout else if w < silent then StaleWarn else Fresh)"
    using tracker_stream [of b58 msgs g] assms(1,2,4)
    by (simp add: staleness_state_at_def time_since_last_update_def elapsed_def)
  have "downgrade_reason resp = None" if "silent \<le> w"
    using evaluation_cases [OF assms(5)]
  proof (elim disjE conjE exE)
    assume "build_timeout_response S p T tx = Inr resp"
    then show ?thesis by (auto simp: build_timeout_response_def Let_def bind_result_Inr split: if_splits)
  next
    fix pe assume "before_checkers S p T tx = Inr pe"
      and "after_checkers S p T tx pe (checked_results shuffle p T tx pe) = Some (Inr (resp, lg))"
    then show ?thesis using before_checkers_facts(5) after_checkers_facts st that assms(3) by fastforce
  qed
  then show ?thesis using stale_answers [OF assms(5)] st assms(3) by (cases "to < silent"; cases "w < silent") auto
qed

subsection \<open>Runs\<close>

theorem cache_refines_registers_witness:
  "\<exists>s r. steps_along (fork_step (\<lambda>bs. feed_key) small_geyser) (fork_start account_cache_new (tracker_new 0 staleness_config_default))
      [Streamed small_update, Tick 5, Swept] s \<and>
    steps_along (register_step (\<lambda>bs. feed_key) (ttl account_cache_new) (monitored_ttl account_cache_new))
      (registers_start (fork_start account_cache_new (tracker_new 0 staleness_config_default)))
      [Streamed small_update, Tick 5, Swept] r"
proof -
  obtain s where s: "steps_along (fork_step (\<lambda>bs. feed_key) small_geyser)
      (fork_start account_cache_new (tracker_new 0 staleness_config_default)) [Streamed small_update, Tick 5, Swept] s"
    using streamed tick swept by (simp only: steps_along.simps) blast
  from cache_refines_registers [OF s] s show ?thesis by blast
qed

lemma small_run:
  "\<exists>s. steps_along (fork_step (\<lambda>bs. feed_key) small_geyser) (fork_start account_cache_new (tracker_new 0 staleness_config_default))
     ([Stored feed_key sample_account False, Tick 5] @ [ReadHit feed_key sample_account]) s"
proof -
  let ?s0 = "fork_start account_cache_new (tracker_new 0 staleness_config_default)"
  let ?s1 = "?s0\<lparr>fs_cache := acache_insert (fs_now ?s0) feed_key sample_account False (fs_cache ?s0)\<rparr>"
  let ?s2 = "?s1\<lparr>fs_now := fs_now ?s1 + 5\<rparr>"
  have "fork_step (\<lambda>bs. feed_key) small_geyser ?s2 (ReadHit feed_key sample_account) ?s2"
    by (rule hit) (simp add: fork_step_defs account_cache_new_def tracker_new_def DEFAULT_TTL_SECS_def from_secs_def)
  then show ?thesis
    using stored [of "\<lambda>bs. feed_key" small_geyser ?s0] tick [of "\<lambda>bs. feed_key" small_geyser ?s1 5]
    by (simp only: steps_along.simps append.simps) blast
qed

theorem cached_reads_recent_witness:
  "\<exists>w. w \<in> set [Stored feed_key sample_account False, Tick 5] \<and>
     event_write (\<lambda>bs. feed_key) w = Some (feed_key, sample_account)"
proof -
  obtain s where s: "steps_along (fork_step (\<lambda>bs. feed_key) small_geyser)
      (fork_start account_cache_new (tracker_new 0 staleness_config_default))
      ([Stored feed_key sample_account False, Tick 5] @ [ReadHit feed_key sample_account]) s"
    using small_run by blast
  from cached_reads_recent [OF s] show ?thesis by (metis in_set_conv_decomp)
qed

text \<open>Eleven seconds after the only update of the stream the answer is TIMEOUT.\<close>

definition watching_pipeline :: "(pubkey, account) hashmap verdict_pipeline" where
  "watching_pipeline =
     (demo_pipeline [])\<lparr>vp_staleness :=
        g_staleness (fst (stream_loop (\<lambda>bs. feed_key) [(0, [], False, AccountMsg small_update)] small_geyser))\<rparr>"

theorem outage_gates_verdicts_witness:
  "\<exists>resp lg. evaluate_raw_tx demo_services id watching_pipeline (zero_timeline\<lparr>t_staleness := from_secs 11\<rparr>) oracle_tx =
     Some (Inr (resp, lg)) \<and> resp_verdict resp = Timeout"
proof -
  let ?T = "zero_timeline\<lparr>t_staleness := from_secs 11\<rparr>" and ?msgs = "[(0, [], False, AccountMsg small_update)]"
  have cfg: "staleness_cfg (g_staleness small_geyser) = \<lparr>warn_threshold = from_secs 3, timeout_threshold = from_secs 10\<rparr>"
    by (simp add: small_geyser_def geyser_new_def tracker_new_def staleness_config_default_def)
  have acc: "last_accepted (\<lambda>bs. feed_key) ?msgs (last_update (g_staleness small_geyser)) = 0"
    by (simp add: small_geyser_def geyser_new_def tracker_new_def)
  have p: "vp_staleness watching_pipeline = g_staleness (fst (stream_loop (\<lambda>bs. feed_key) ?msgs small_geyser))"
    by (simp add: watching_pipeline_def)
  have "staleness_state_at (t_staleness ?T) (vp_staleness watching_pipeline) = StaleTimeout"
    using tracker_stream [of "\<lambda>bs. feed_key" ?msgs small_geyser] acc cfg
    by (simp add: p staleness_state_at_def time_since_last_update_def elapsed_def from_secs_def del: stream_loop.simps)
  moreover have "\<not> fork_poisoned watching_pipeline" by (simp add: watching_pipeline_def demo_pipeline_def)
  ultimately obtain resp lg where r: "evaluate_raw_tx demo_services id watching_pipeline ?T oracle_tx = Some (Inr (resp, lg))"
    by (auto simp: evaluate_raw_tx_def evaluate_raw_tx_inner_def before_checkers_def compute_tx_hash_def
        demo_services_def toy_svm_def Let_def timeout_evaluation_def build_timeout_response_def sign_attestation_def)
  have "from_secs 3 \<le> from_secs 10" "from_secs 10 < from_secs 11" by (simp_all add: from_secs_def)
  with outage_gates_verdicts [OF p cfg _ refl r] acc r show ?thesis by auto
qed

end
