(* ===== verification/Outcome.thy ===== *)
theory Outcome
  imports Pipeline
begin

section \<open>The verdict log and the capture of outcomes\<close>

text \<open>
  \<^verbatim>\<open>crates/ciel-pipeline/src/verdict_store.rs\<close> and \<^verbatim>\<open>outcome.rs\<close>: the rows of \<^verbatim>\<open>verdict_log\<close>, their
  insertion, and the task that asks a provider what became of approved transactions. The table is a
  list of rows; the three SQL statements of the source are functions on it, and the database and
  the provider are parameters that can fail at each call. Ids and instants come from the database.
  Rows with the same \<^verbatim>\<open>created_at\<close> are returned in any order (\<open>shuffle\<close>). The lemmas show what one
  cycle changes, row by row.
\<close>

record verdict_row =
  row_id :: string
  row_created_at :: int \<comment> \<open>nanoseconds\<close>
  row_entry :: verdict_log_entry
  execution_outcome :: "string option"
  execution_slot :: "u64 option" \<comment> \<open>\<^verbatim>\<open>i64\<close>\<close>

type_synonym verdict_table = "verdict_row list"

subsection \<open>Writing a row\<close>

definition insert_verdict ::
    "string option \<Rightarrow> string \<Rightarrow> int \<Rightarrow> verdict_log_entry \<Rightarrow> verdict_table \<Rightarrow> (string, verdict_table) result" where
  "insert_verdict fault new_id now e table =
     (case fault of
        Some err \<Rightarrow> Inl err
      | None \<Rightarrow> Inr (table @ [\<lparr>row_id = new_id, row_created_at = now, row_entry = e, execution_outcome = None, execution_slot = None\<rparr>]))"

text \<open>The spawned task: an error is only logged.\<close>

definition log_verdict_task ::
    "string option \<Rightarrow> string \<Rightarrow> int \<Rightarrow> verdict_log_entry \<Rightarrow> verdict_table \<Rightarrow> verdict_table" where
  "log_verdict_task fault new_id now e table =
     (case insert_verdict fault new_id now e table of Inl err \<Rightarrow> table | Inr t \<Rightarrow> t)"

subsection \<open>The capture task\<close>

record outcome_config =
  oc_ttl :: time
  oc_poll_interval :: time
  oc_batch_size :: nat

definition outcome_config_default :: outcome_config where
  "outcome_config_default = \<lparr>oc_ttl = from_secs 60, oc_poll_interval = from_secs 5, oc_batch_size = 50\<rparr>"

datatype outcome_error = DatabaseErr string | RpcErr string | InvalidSignature string

definition LANDED :: string where "LANDED = ''landed''"
definition REVERTED :: string where "REVERTED = ''reverted''"
definition EXPIRED :: string where "EXPIRED = ''expired''"

record pending_verdict =
  pv_id :: string
  pv_tx_signature :: bytes
  pv_created_at :: int

record signature_status =
  st_slot :: u64
  st_err :: "string option"

text \<open>One cycle's view of the outside: faults of the two statements, and the provider's answer.\<close>

record outside =
  fetch_fault :: "string option"
  update_fault :: "string \<Rightarrow> string option"
  statuses :: "bytes \<Rightarrow> (string, signature_status option list) result"
  tie_order :: "verdict_row list \<Rightarrow> verdict_row list"

definition is_pending :: "verdict_row \<Rightarrow> bool" where
  "is_pending r \<longleftrightarrow> log_verdict (row_entry r) = ''APPROVE'' \<and> execution_outcome r = None \<and>
     log_tx_signature (row_entry r) \<noteq> None"

definition selected_rows :: "outside \<Rightarrow> nat \<Rightarrow> verdict_table \<Rightarrow> verdict_row list" where
  "selected_rows W n table = take n (sort_key row_created_at (reorder (tie_order W) (filter is_pending table)))"

definition pending_of :: "verdict_row \<Rightarrow> pending_verdict" where
  "pending_of r = \<lparr>pv_id = row_id r, pv_tx_signature = (case log_tx_signature (row_entry r) of None \<Rightarrow> [] | Some s \<Rightarrow> s),
     pv_created_at = row_created_at r\<rparr>"

definition fetch_pending_verdicts :: "outside \<Rightarrow> nat \<Rightarrow> verdict_table \<Rightarrow> (outcome_error, pending_verdict list) result" where
  "fetch_pending_verdicts W n table =
     (case fetch_fault W of Some e \<Rightarrow> Inl (DatabaseErr e) | None \<Rightarrow> Inr (map pending_of (selected_rows W n table)))"

text \<open>\<^verbatim>\<open>chrono::Duration::from_std\<close> refuses a duration of more than \<^verbatim>\<open>i64::MAX\<close> milliseconds.\<close>

definition ttl_chrono :: "time \<Rightarrow> int" where
  "ttl_chrono ttl0 = (if ttl0 \<le> (2 ^ 63 - 1) * 1000000 then int ttl0 else int (from_secs 60))"

definition determine_outcome ::
    "outside \<Rightarrow> pending_verdict \<Rightarrow> int \<Rightarrow> time \<Rightarrow> (outcome_error, (string \<times> u64 option) option) result" where
  "determine_outcome W v now ttl0 =
     (let age = now - pv_created_at v
      in if length (pv_tx_signature v) \<noteq> 64 then Inl (InvalidSignature (pv_id v))
         else case statuses W (pv_tx_signature v) of
                Inl e \<Rightarrow> Inl (RpcErr e)
              | Inr sts \<Rightarrow>
                  (case first sts of
                     Some (Some st) \<Rightarrow>
                       (case st_err st of
                          Some e \<Rightarrow> Inr (Some (REVERTED, Some (st_slot st)))
                        | None \<Rightarrow> Inr (Some (LANDED, Some (st_slot st))))
                   | _ \<Rightarrow> if ttl_chrono ttl0 < age then Inr (Some (EXPIRED, None)) else Inr None))"

definition update_verdict_outcome ::
    "outside \<Rightarrow> string \<Rightarrow> string \<Rightarrow> u64 option \<Rightarrow> verdict_table \<Rightarrow> (outcome_error, verdict_table) result" where
  "update_verdict_outcome W vid oc sl table =
     (case update_fault W vid of
        Some e \<Rightarrow> Inl (DatabaseErr e)
      | None \<Rightarrow> Inr (map (\<lambda>r. if row_id r = vid then r\<lparr>execution_outcome := Some oc, execution_slot := sl\<rparr> else r) table))"

fun capture_loop ::
    "outside \<Rightarrow> int \<Rightarrow> time \<Rightarrow> pending_verdict list \<Rightarrow> verdict_table \<Rightarrow> (outcome_error, unit) result \<times> verdict_table" where
  "capture_loop W now ttl0 [] table = (Inr (), table)"
| "capture_loop W now ttl0 (v # vs) table =
     (case determine_outcome W v now ttl0 of
        Inr (Some (oc, sl)) \<Rightarrow>
          (case update_verdict_outcome W (pv_id v) oc sl table of
             Inl e \<Rightarrow> (Inl e, table)
           | Inr t \<Rightarrow> capture_loop W now ttl0 vs t)
      | Inr None \<Rightarrow> capture_loop W now ttl0 vs table
      | Inl e \<Rightarrow> capture_loop W now ttl0 vs table)"

definition capture_cycle ::
    "outside \<Rightarrow> int \<Rightarrow> outcome_config \<Rightarrow> verdict_table \<Rightarrow> (outcome_error, unit) result \<times> verdict_table" where
  "capture_cycle W now cfg table =
     (case fetch_pending_verdicts W (oc_batch_size cfg) table of
        Inl e \<Rightarrow> (Inl e, table)
      | Inr pending \<Rightarrow> if pending = [] then (Inr (), table) else capture_loop W now (oc_ttl cfg) pending table)"

text \<open>The task: cycles one after another; an error ends a cycle, not the task.\<close>

fun outcome_capture :: "(outside \<times> int) list \<Rightarrow> outcome_config \<Rightarrow> verdict_table \<Rightarrow> verdict_table" where
  "outcome_capture [] cfg table = table"
| "outcome_capture ((W, now) # rounds) cfg table = outcome_capture rounds cfg (snd (capture_cycle W now cfg table))"

subsection \<open>What a cycle changes\<close>

definition settle :: "outside \<Rightarrow> int \<Rightarrow> time \<Rightarrow> verdict_row \<Rightarrow> verdict_row" where
  "settle W now ttl0 r =
     (case determine_outcome W (pending_of r) now ttl0 of
        Inr (Some (oc, sl)) \<Rightarrow> r\<lparr>execution_outcome := Some oc, execution_slot := sl\<rparr>
      | _ \<Rightarrow> r)"

lemma pv_id_pending_of: "pv_id (pending_of r) = row_id r"
  by (simp add: pending_of_def)

lemma settle_id [simp]: "row_id (settle W now ttl0 r) = row_id r"
  by (simp add: settle_def split: sum.splits option.splits prod.splits)

lemma selected_rows_facts:
  "set (selected_rows W n table) \<subseteq> set (filter is_pending table)" "length (selected_rows W n table) \<le> n"
  "distinct (map row_id table) \<Longrightarrow> distinct (map row_id (selected_rows W n table))"
proof -
  have s: "mset (sort_key row_created_at (reorder (tie_order W) (filter is_pending table))) = mset (filter is_pending table)"
    by (simp add: reorder_def)
  show "set (selected_rows W n table) \<subseteq> set (filter is_pending table)"
    using set_take_subset mset_eq_setD [OF s] unfolding selected_rows_def by metis
  show "length (selected_rows W n table) \<le> n" by (simp add: selected_rows_def)
  assume "distinct (map row_id table)"
  then have "distinct (map row_id (filter is_pending table))" by (rule distinct_map_filter)
  moreover have "mset (map row_id (sort_key row_created_at (reorder (tie_order W) (filter is_pending table)))) =
      mset (map row_id (filter is_pending table))" using s by simp
  ultimately have "distinct (map row_id (sort_key row_created_at (reorder (tie_order W) (filter is_pending table))))"
    using mset_eq_imp_distinct_iff by blast
  then show "distinct (map row_id (selected_rows W n table))"
    unfolding selected_rows_def by (simp flip: take_map)
qed

lemma capture_loop_exact:
  assumes "\<And>i. update_fault W i = None" "distinct (map row_id table)"
    and "set rs \<subseteq> set table" "distinct (map row_id rs)"
  shows "capture_loop W now ttl0 (map pending_of rs) table =
    (Inr (), map (\<lambda>r. if r \<in> set rs then settle W now ttl0 r else r) table)"
proof -
  have "capture_loop W now ttl0 (map pending_of rs) (map f table) =
      (Inr (), map (\<lambda>r. if r \<in> set rs then settle W now ttl0 r else f r) table)"
    if f: "\<And>r. row_id (f r) = row_id r" "\<And>r. r \<in> set rs \<Longrightarrow> f r = r" for f
    using assms(3,4) f
  proof (induction rs arbitrary: f)
    case (Cons r rs)
    let ?f = "f(r := settle W now ttl0 r)"
    have same: "x = r" if "x \<in> set table" "row_id x = row_id r" for x
      using that Cons.prems(1) assms(2) by (metis eq_key_imp_eq_value inj_on_eq_iff distinct_map list.set_intros(1) subsetD)
    have r: "r \<notin> set rs" using Cons.prems(2) by auto
    have step: "capture_loop W now ttl0 (pending_of r # vs) (map f table) = capture_loop W now ttl0 vs (map ?f table)" for vs
    proof (cases "determine_outcome W (pending_of r) now ttl0")
      case (Inl e)
      then have "?f = f" using Cons.prems(4) by (simp add: settle_def fun_upd_idem)
      then show ?thesis using Inl by simp
    next
      case (Inr x)
      show ?thesis
      proof (cases x)
        case None
        then have "?f = f" using Inr Cons.prems(4) by (simp add: settle_def fun_upd_idem)
        then show ?thesis using Inr None by simp
      next
        case (Some p)
        obtain o' sl where p: "p = (o', sl)" by (cases p)
        have "map (\<lambda>x. if row_id x = row_id r then x\<lparr>execution_outcome := Some o', execution_slot := sl\<rparr> else x) (map f table) =
            map ?f table"
          using same Cons.prems(3,4) Inr Some p by (auto simp: settle_def)
        then have "update_verdict_outcome W (pv_id (pending_of r)) o' sl (map f table) = Inr (map ?f table)"
          using assms(1) unfolding update_verdict_outcome_def by (simp only: pv_id_pending_of option.case)
        then show ?thesis using Inr Some p by (simp del: fun_upd_apply)
      qed
    qed
    have "capture_loop W now ttl0 (map pending_of (r # rs)) (map f table) =
        (Inr (), map (\<lambda>x. if x \<in> set rs then settle W now ttl0 x else ?f x) table)"
      unfolding list.map step using Cons r by (intro Cons.IH) auto
    then show ?case using r by (auto intro!: map_cong)
  qed simp
  from this [of id] show ?thesis by simp
qed

lemma settle_cases:
  "settle W now ttl0 r = r \<or>
     (\<exists>oc sl. oc \<in> {LANDED, REVERTED, EXPIRED} \<and> settle W now ttl0 r = r\<lparr>execution_outcome := Some oc, execution_slot := sl\<rparr>)"
  by (auto simp: settle_def determine_outcome_def Let_def split: sum.splits option.splits prod.splits if_splits)

lemma capture_cycle_exact:
  assumes "fetch_fault W = None" "\<And>i. update_fault W i = None" "distinct (map row_id table)"
  shows "capture_cycle W now cfg table =
    (Inr (), map (\<lambda>r. if r \<in> set (selected_rows W (oc_batch_size cfg) table) then settle W now (oc_ttl cfg) r else r) table)"
proof -
  let ?rs = "selected_rows W (oc_batch_size cfg) table"
  have "set ?rs \<subseteq> set table" using selected_rows_facts(1) by fastforce
  then have "capture_loop W now (oc_ttl cfg) (map pending_of ?rs) table =
      (Inr (), map (\<lambda>r. if r \<in> set ?rs then settle W now (oc_ttl cfg) r else r) table)"
    using assms(2,3) selected_rows_facts(3) by (intro capture_loop_exact) auto
  then show ?thesis using assms(1) by (simp add: capture_cycle_def fetch_pending_verdicts_def)
qed

text \<open>C37: One cycle of the outcome capture changes exactly what it should. When the database answers, every
  row keeps its place, and a row changes only if it is an APPROVE with a signature and no outcome
  yet, so an outcome once written is never overwritten; the outcome is one of landed, reverted and
  expired. An approved row in the batch whose transaction the provider does not know and that is
  older than the waiting time is marked expired in this very cycle, and one the provider reports is
  settled with the reported slot.\<close>

theorem capture_cycle_settles:
  assumes "fetch_fault W = None" "\<And>i. update_fault W i = None" "distinct (map row_id table)"
  shows "\<exists>table'. capture_cycle W now cfg table = (Inr (), table') \<and> length table' = length table \<and>
    (\<forall>i < length table.
       (table' ! i \<noteq> table ! i \<longrightarrow> is_pending (table ! i) \<and>
          (\<exists>oc sl. oc \<in> {LANDED, REVERTED, EXPIRED} \<and>
             table' ! i = (table ! i)\<lparr>execution_outcome := Some oc, execution_slot := sl\<rparr>)) \<and>
       (\<forall>sig sts. table ! i \<in> set (selected_rows W (oc_batch_size cfg) table) \<and>
          log_tx_signature (row_entry (table ! i)) = Some sig \<and> length sig = 64 \<and> statuses W sig = Inr sts \<longrightarrow>
          (case first sts of
             Some (Some st) \<Rightarrow> execution_outcome (table' ! i) = Some (if st_err st = None then LANDED else REVERTED) \<and>
               execution_slot (table' ! i) = Some (st_slot st)
           | _ \<Rightarrow> ttl_chrono (oc_ttl cfg) < now - row_created_at (table ! i) \<longrightarrow>
               execution_outcome (table' ! i) = Some EXPIRED)))"
proof -
  let ?rs = "selected_rows W (oc_batch_size cfg) table"
  let ?g = "\<lambda>r. if r \<in> set ?rs then settle W now (oc_ttl cfg) r else r"
  have change: "is_pending r \<and> (\<exists>oc sl. oc \<in> {LANDED, REVERTED, EXPIRED} \<and> ?g r = r\<lparr>execution_outcome := Some oc, execution_slot := sl\<rparr>)"
    if "?g r \<noteq> r" for r
    using that settle_cases [of W now "oc_ttl cfg" r] selected_rows_facts(1) [of W "oc_batch_size cfg" table]
    by (auto split: if_splits)
  have settled: "case first sts of
      Some (Some st) \<Rightarrow> execution_outcome (?g r) = Some (if st_err st = None then LANDED else REVERTED) \<and>
        execution_slot (?g r) = Some (st_slot st)
    | _ \<Rightarrow> ttl_chrono (oc_ttl cfg) < now - row_created_at r \<longrightarrow> execution_outcome (?g r) = Some EXPIRED"
    if "r \<in> set ?rs" "log_tx_signature (row_entry r) = Some sig" "length sig = 64" "statuses W sig = Inr sts" for r sig sts
    using that by (simp add: settle_def determine_outcome_def pending_of_def Let_def split: option.split)
  have c: "capture_cycle W now cfg table = (Inr (), map ?g table)" by (rule capture_cycle_exact [OF assms])
  show ?thesis
  proof (intro exI [of _ "map ?g table"] conjI allI impI)
    fix i assume i: "i < length table" "map ?g table ! i \<noteq> table ! i"
    then have "?g (table ! i) \<noteq> table ! i" by (simp only: nth_map not_False_eq_True)
    from change [OF this] show "is_pending (table ! i)" "\<exists>oc sl. oc \<in> {LANDED, REVERTED, EXPIRED} \<and>
        map ?g table ! i = (table ! i)\<lparr>execution_outcome := Some oc, execution_slot := sl\<rparr>"
      unfolding nth_map [OF i(1)] by blast+
  next
    fix i sig sts assume i: "i < length table"
      and "table ! i \<in> set ?rs \<and> log_tx_signature (row_entry (table ! i)) = Some sig \<and> length sig = 64 \<and> statuses W sig = Inr sts"
    then show "case first sts of
        Some (Some st) \<Rightarrow> execution_outcome (map ?g table ! i) = Some (if st_err st = None then LANDED else REVERTED) \<and>
          execution_slot (map ?g table ! i) = Some (st_slot st)
      | _ \<Rightarrow> ttl_chrono (oc_ttl cfg) < now - row_created_at (table ! i) \<longrightarrow> execution_outcome (map ?g table ! i) = Some EXPIRED"
      using settled [of "table ! i" sig sts] by (simp only: nth_map)
  qed (use c in auto)
qed

text \<open>
  Rows whose signature is malformed are never settled. When they fill the batch, being the oldest,
  no other row is looked at, in this cycle or in any later one.
\<close>

lemma malformed_rows_starve:
  assumes "\<And>r. r \<in> set (selected_rows W (oc_batch_size cfg) table) \<Longrightarrow> length (pv_tx_signature (pending_of r)) \<noteq> 64"
    and "fetch_fault W = None" "\<And>i. update_fault W i = None" "distinct (map row_id table)"
  shows "snd (capture_cycle W now cfg table) = table"
proof -
  have "settle W now (oc_ttl cfg) r = r" if "r \<in> set (selected_rows W (oc_batch_size cfg) table)" for r
    using assms(1) [OF that] by (simp add: settle_def determine_outcome_def Let_def)
  then have "map (\<lambda>r. if r \<in> set (selected_rows W (oc_batch_size cfg) table) then settle W now (oc_ttl cfg) r else r) table = table"
    by (intro map_idI) simp
  then show ?thesis using capture_cycle_exact [OF assms(2-4)] by simp
qed

text \<open>An approved row of a transaction that never landed, two minutes later.\<close>

definition lost_row :: verdict_row where
  "lost_row =
     \<lparr>row_id = ''a'', row_created_at = 0,
      row_entry = \<lparr>log_request_type = ''raw_tx'', log_tx_hash = [], log_tx_signature = Some (replicate 64 0),
        log_verdict = ''APPROVE'', log_safety_score = None, log_optimality_score = None, log_attestation = [],
        log_signature = [], log_checker_outputs = JNull, log_checker_outputs_hash = [], log_checkers_timed_out = [],
        log_total_latency_ms = 0, log_fork_sim_ms = None, log_checkers_ms = None, log_signing_ms = None\<rparr>,
      execution_outcome = None, execution_slot = None\<rparr>"

definition quiet_outside :: outside where
  "quiet_outside = \<lparr>fetch_fault = None, update_fault = (\<lambda>i. None), statuses = (\<lambda>s. Inr [None]), tie_order = id\<rparr>"

theorem capture_cycle_settles_witness:
  "\<exists>table'. capture_cycle quiet_outside (int (from_secs 120)) outcome_config_default [lost_row] = (Inr (), table') \<and>
     execution_outcome (table' ! 0) = Some EXPIRED"
proof -
  have "lost_row \<in> set (selected_rows quiet_outside (oc_batch_size outcome_config_default) [lost_row])"
    by (simp add: selected_rows_def outcome_config_default_def reorder_def quiet_outside_def is_pending_def lost_row_def)
  moreover have "ttl_chrono (oc_ttl outcome_config_default) < int (from_secs 120) - row_created_at lost_row"
    by (simp add: ttl_chrono_def outcome_config_default_def from_secs_def lost_row_def)
  moreover have "log_tx_signature (row_entry lost_row) = Some (replicate 64 0)" by (simp add: lost_row_def)
  moreover have "fetch_fault quiet_outside = None" "\<And>i. update_fault quiet_outside i = None"
    "statuses quiet_outside (replicate 64 0) = Inr [None]" by (simp_all add: quiet_outside_def)
  ultimately show ?thesis
    using capture_cycle_settles [of quiet_outside "[lost_row]" "int (from_secs 120)" outcome_config_default] by fastforce
qed

subsection \<open>The backlog drains\<close>

text \<open>A provider and a database that answer, and rows that can be settled at the instant \<open>now\<close>.\<close>

definition answering :: "outside \<Rightarrow> bool" where
  "answering W \<longleftrightarrow> fetch_fault W = None \<and> (\<forall>i. update_fault W i = None) \<and> (\<forall>s. \<exists>sts. statuses W s = Inr sts)"

definition overdue :: "outcome_config \<Rightarrow> int \<Rightarrow> verdict_table \<Rightarrow> bool" where
  "overdue cfg now table \<longleftrightarrow> (\<forall>r \<in> set table. is_pending r \<longrightarrow>
     length (pv_tx_signature (pending_of r)) = 64 \<and> ttl_chrono (oc_ttl cfg) < now - row_created_at r)"

lemma settle_not_pending:
  assumes "answering W" "is_pending r" "length (pv_tx_signature (pending_of r)) = 64"
    and "ttl_chrono ttl0 < now - row_created_at r"
  shows "\<not> is_pending (settle W now ttl0 r)"
proof -
  obtain sts where "statuses W (pv_tx_signature (pending_of r)) = Inr sts" using assms(1) unfolding answering_def by blast
  moreover have "pv_created_at (pending_of r) = row_created_at r" by (simp add: pending_of_def)
  ultimately show ?thesis
    using assms(3,4) by (auto simp: settle_def determine_outcome_def is_pending_def Let_def split: option.splits)
qed

lemma filter_settled:
  "(\<And>r. r \<in> A \<Longrightarrow> \<not> P (f r)) \<Longrightarrow>
    filter P (map (\<lambda>r. if r \<in> A then f r else r) xs) = filter (\<lambda>r. r \<notin> A) (filter P xs)"
  by (induction xs) auto

lemma length_remove_distinct:
  assumes "distinct xs" "distinct ys" "set ys \<subseteq> set xs"
  shows "length (filter (\<lambda>x. x \<notin> set ys) xs) = length xs - length ys"
proof -
  have "set (filter (\<lambda>x. x \<notin> set ys) xs) = set xs - set ys" by auto
  then have "card (set (filter (\<lambda>x. x \<notin> set ys) xs)) = card (set xs) - card (set ys)"
    using assms(3) by (simp add: card_Diff_subset)
  then show ?thesis
    using distinct_card [OF assms(1)] distinct_card [OF assms(2)] distinct_card [OF distinct_filter [OF assms(1)]] by simp
qed

lemma cycle_drains_batch:
  assumes "answering W" "distinct (map row_id table)" "overdue cfg now table"
  defines "table' \<equiv> snd (capture_cycle W now cfg table)"
  shows "distinct (map row_id table')"
    "length (filter is_pending table') = length (filter is_pending table) - oc_batch_size cfg"
    "\<And>now'. overdue cfg now' table \<Longrightarrow> overdue cfg now' table'"
proof -
  let ?rs = "selected_rows W (oc_batch_size cfg) table"
  let ?g = "\<lambda>r. if r \<in> set ?rs then settle W now (oc_ttl cfg) r else r"
  have t': "table' = map ?g table"
    using capture_cycle_exact [of W table now cfg] assms(1,2) by (simp add: table'_def answering_def)
  have sub: "set ?rs \<subseteq> {r \<in> set table. is_pending r}" using selected_rows_facts(1) [of W "oc_batch_size cfg" table] by auto
  have gone: "\<not> is_pending (?g r)" if "r \<in> set ?rs" for r
    using that sub assms(3) settle_not_pending [OF assms(1)] by (auto simp: overdue_def)
  have "row_id (?g r) = row_id r" for r by simp
  then have ids: "map row_id table' = map row_id table" by (simp add: t')
  then show "distinct (map row_id table')" using assms(2) by simp
  have "filter is_pending table' = filter (\<lambda>r. r \<notin> set ?rs) (filter is_pending table)"
    unfolding t' by (rule filter_settled) (use gone in auto)
  moreover have "distinct ?rs" using selected_rows_facts(3) [OF assms(2)] distinct_map by blast
  moreover have "distinct (filter is_pending table)" using assms(2) distinct_map distinct_filter by blast
  moreover have "set ?rs \<subseteq> set (filter is_pending table)" using sub by auto
  ultimately have "length (filter is_pending table') = length (filter is_pending table) - length ?rs"
    using length_remove_distinct [of "filter is_pending table" ?rs] by (simp only:)
  also have "length ?rs = min (oc_batch_size cfg) (length (filter is_pending table))"
    by (simp add: selected_rows_def length_reorder min.commute)
  finally show "length (filter is_pending table') = length (filter is_pending table) - oc_batch_size cfg" by simp
  fix now' assume o: "overdue cfg now' table"
  have "x \<in> set table" if "x \<in> set table'" "is_pending x" for x using that gone by (auto simp: t')
  then show "overdue cfg now' table'" using o unfolding overdue_def by blast
qed

text \<open>C36: The outcome capture empties its backlog. Each cycle over a working database and provider settles as
  many overdue approvals as fit the batch, so \<open>n\<close> of them are settled after enough rounds of
  batches, and none is left waiting, whatever the provider reports of each transaction.\<close>

theorem backlog_drains:
  assumes "\<And>W now. (W, now) \<in> set rounds \<Longrightarrow> answering W \<and> overdue cfg now table"
    and "distinct (map row_id table)"
    and "length (filter is_pending table) \<le> length rounds * oc_batch_size cfg"
  shows "filter is_pending (outcome_capture rounds cfg table) = []"
  using assms
proof (induction rounds arbitrary: table)
  case (Cons r rounds)
  obtain W now where r: "r = (W, now)" by (cases r)
  let ?t = "snd (capture_cycle W now cfg table)"
  have "answering W" "overdue cfg now table" using Cons.prems(1) r by auto
  note step = cycle_drains_batch [OF this(1) Cons.prems(2) this(2)]
  have "filter is_pending (outcome_capture rounds cfg ?t) = []"
    using Cons.prems(1,3) step by (intro Cons.IH) auto
  then show ?case by (simp add: r)
qed simp

theorem backlog_drains_witness:
  "filter is_pending (outcome_capture [(quiet_outside, int (from_secs 120))] outcome_config_default
     [lost_row, lost_row\<lparr>row_id := ''b''\<rparr>]) = []"
  by (rule backlog_drains)
    (auto simp: answering_def quiet_outside_def overdue_def pending_of_def lost_row_def ttl_chrono_def
      outcome_config_default_def from_secs_def)

subsection \<open>What a cycle leaves alone, also when statements fail\<close>

definition captured :: "verdict_row \<Rightarrow> verdict_row \<Rightarrow> bool" where
  "captured r r' \<longleftrightarrow> row_id r' = row_id r \<and> row_created_at r' = row_created_at r \<and> row_entry r' = row_entry r \<and>
     (execution_outcome r' = execution_outcome r \<or> execution_outcome r' \<in> Some ` {LANDED, REVERTED, EXPIRED})"

lemma captured_trans: "captured r r' \<Longrightarrow> captured r' r'' \<Longrightarrow> captured r r''"
  by (auto simp: captured_def)

lemma determine_outcome_value:
  "determine_outcome W v now ttl0 = Inr (Some (oc, sl)) \<Longrightarrow> oc \<in> {LANDED, REVERTED, EXPIRED}"
  by (auto simp: determine_outcome_def Let_def split: sum.splits option.splits if_splits)

lemma capture_loop_frame:
  "list_all2 (\<lambda>r r'. captured r r' \<and> (row_id r \<notin> pv_id ` set vs \<longrightarrow> r' = r)) table (snd (capture_loop W now ttl0 vs table))"
proof (induction vs arbitrary: table)
  case Nil
  then show ?case by (simp add: list_all2_refl captured_def)
next
  case (Cons v vs)
  show ?case
  proof (cases "\<exists>oc sl t. determine_outcome W v now ttl0 = Inr (Some (oc, sl)) \<and> update_verdict_outcome W (pv_id v) oc sl table = Inr t")
    case True
    then obtain oc sl t where d: "determine_outcome W v now ttl0 = Inr (Some (oc, sl))"
      and u: "update_verdict_outcome W (pv_id v) oc sl table = Inr t" by blast
    have "list_all2 (\<lambda>r r'. captured r r' \<and> (row_id r \<notin> {pv_id v} \<longrightarrow> r' = r)) table t"
      using u determine_outcome_value [OF d]
      by (auto simp: update_verdict_outcome_def captured_def list_all2_map2 intro!: list_all2_refl split: option.splits)
    then have "list_all2 (\<lambda>r r'. captured r r' \<and> (row_id r \<notin> pv_id ` set (v # vs) \<longrightarrow> r' = r)) table (snd (capture_loop W now ttl0 vs t))"
    proof (rule list_all2_trans [OF _ _ Cons.IH, rotated])
      fix a b c :: verdict_row
      assume ab: "captured a b \<and> (row_id a \<notin> {pv_id v} \<longrightarrow> b = a)" and bc: "captured b c \<and> (row_id b \<notin> pv_id ` set vs \<longrightarrow> c = b)"
      then have "captured a c" using captured_trans by blast
      moreover have "c = a" if "row_id a \<notin> pv_id ` set (v # vs)" using that ab bc by simp
      ultimately show "captured a c \<and> (row_id a \<notin> pv_id ` set (v # vs) \<longrightarrow> c = a)" by blast
    qed
    then show ?thesis using d u by simp
  next
    case False
    have "list_all2 (\<lambda>r r'. captured r r' \<and> (row_id r \<notin> pv_id ` set (v # vs) \<longrightarrow> r' = r)) table (snd (capture_loop W now ttl0 vs table))"
      by (rule list_all2_mono [OF Cons.IH]) auto
    moreover have "list_all2 (\<lambda>r r'. captured r r' \<and> (row_id r \<notin> pv_id ` set (v # vs) \<longrightarrow> r' = r)) table table"
      by (simp add: list_all2_refl captured_def)
    ultimately show ?thesis using False by (auto split: sum.splits option.splits)
  qed
qed

lemma capture_cycle_frame:
  assumes "distinct (map row_id table)"
  shows "list_all2 (\<lambda>r r'. captured r r' \<and> (\<not> is_pending r \<longrightarrow> r' = r)) table (snd (capture_cycle W now cfg table))"
proof -
  let ?rs = "selected_rows W (oc_batch_size cfg) table"
  have "row_id r \<notin> pv_id ` set (map pending_of ?rs)" if "r \<in> set table" "\<not> is_pending r" for r
  proof
    assume "row_id r \<in> pv_id ` set (map pending_of ?rs)"
    then obtain r' where "r' \<in> set ?rs" "row_id r' = row_id r" by (auto simp: pv_id_pending_of)
    then have "r' \<in> set table" "is_pending r'" "row_id r' = row_id r" using selected_rows_facts(1) by fastforce+
    then show False using that assms by (metis distinct_map inj_on_eq_iff)
  qed
  then have "list_all2 (\<lambda>r r'. captured r r' \<and> (\<not> is_pending r \<longrightarrow> r' = r)) table
      (snd (capture_loop W now (oc_ttl cfg) (map pending_of ?rs) table))"
    using capture_loop_frame [of "map pending_of ?rs" table W now "oc_ttl cfg"] by (auto elim!: list.rel_mono_strong)
  moreover have "list_all2 (\<lambda>r r'. captured r r' \<and> (\<not> is_pending r \<longrightarrow> r' = r)) table table"
    by (simp add: list_all2_refl captured_def)
  ultimately show ?thesis by (simp add: capture_cycle_def fetch_pending_verdicts_def split: option.splits)
qed

end
