(* ===== verification/Server.thy ===== *)
theory Server
  imports Outcome Pea
begin

section \<open>The API server\<close>

text \<open>
  \<^verbatim>\<open>crates/ciel-server/src\<close>: the error mapping of \<^verbatim>\<open>lib.rs\<close>, the REST handlers of \<^verbatim>\<open>rest.rs\<close>, the gRPC
  handler of \<^verbatim>\<open>grpc.rs\<close>, the metrics of \<^verbatim>\<open>metrics.rs\<close> and the start of the process in \<^verbatim>\<open>main.rs\<close>. The
  handlers call \<open>evaluate_raw_tx\<close> of \<^verbatim>\<open>Pipeline\<close>; their effects (metrics, the structured log line and
  the row handed to the database task) are values of the result. Base64, the readers of
  transactions, requests and key files, the environment, the database and the network are
  parameters. The lemmas show what an HTTP or gRPC client can rely on and what a deployment answers.
\<close>

subsection \<open>Errors\<close>

datatype server_error =
    PipelineErr pipeline_error
  | InvalidRequest string
  | Base64Decode string
  | NotImplemented string

record http_response =
  http_status :: nat
  http_body :: json

definition error_body :: "string \<Rightarrow> string \<Rightarrow> json" where
  "error_body code message =
     json_obj [(''error'', json_obj [(''code'', JStr code), (''message'', JStr message)])]"

fun error_parts :: "server_error \<Rightarrow> nat \<times> string \<times> string" where
  "error_parts (InvalidRequest msg) = (400, ''INVALID_REQUEST'', msg)"
| "error_parts (Base64Decode msg) = (400, ''INVALID_REQUEST'', msg)"
| "error_parts (PipelineErr (PipelineTimeout elapsed_ms)) =
     (504, ''TIMEOUT'', ''verdict pipeline timed out after '' @ show_nat elapsed_ms @ ''ms'')"
| "error_parts (PipelineErr e) = (500, ''PIPELINE_ERROR'', ''verdict pipeline failed'')"
| "error_parts (NotImplemented msg) = (501, ''NOT_IMPLEMENTED'', msg)"

definition into_response :: "server_error \<Rightarrow> http_response" where
  "into_response e =
     (case error_parts e of (status, code, message) \<Rightarrow> \<lparr>http_status = status, http_body = error_body code message\<rparr>)"

text \<open>The displayed error texts, which the gRPC status carries.\<close>

fun fork_error_text :: "fork_error \<Rightarrow> string" where
  "fork_error_text (RpcError m) = ''RPC error: '' @ m"
| "fork_error_text (AccountNotFound k) = ''account not found: '' @ k"
| "fork_error_text (LiteSvmError m) = ''LiteSVM error: '' @ m"
| "fork_error_text CircuitOpen = ''primary RPC circuit breaker is open''"
| "fork_error_text (ConfigError m) = ''configuration error: '' @ m"
| "fork_error_text ForkTimeout = ''RPC call timed out''"
| "fork_error_text AllProvidersDown = ''all RPC providers failed''"
| "fork_error_text (GeyserError m) = ''geyser stream error: '' @ m"

fun pipeline_error_text :: "pipeline_error \<Rightarrow> string" where
  "pipeline_error_text (ForkSim e) = ''fork simulation failed: '' @ fork_error_text e"
| "pipeline_error_text (SignerErr e) = ''signer error: '' @ signer_error_text e"
| "pipeline_error_text (PipelineTimeout ms) = ''pipeline timed out after '' @ show_nat ms @ ''ms''"
| "pipeline_error_text (Deserialization m) = ''transaction serialization failed: '' @ m"

subsection \<open>Metrics\<close>

datatype metric =
    CounterInc string "(string \<times> string) list"
  | HistogramRecord string "(string \<times> string) list" f64

definition LATENCY_BUCKETS :: "f64 list" where
  "LATENCY_BUCKETS = map rnd [1, 5, 10, 25, 50, 75, 100, 150, 200, 500]"

definition bool_str :: "bool \<Rightarrow> string" where "bool_str b = (if b then ''true'' else ''false'')"

definition latency_metric :: "string \<Rightarrow> u64 \<Rightarrow> metric" where
  "latency_metric stage ms =
     HistogramRecord ''ciel_verdict_latency_ms'' [(''stage'', stage)] (f_of_int (int (unat ms)))"

fun checker_metric :: "string \<times> checker_status \<Rightarrow> metric" where
  "checker_metric (nm, Completed out) =
     CounterInc ''ciel_checker_result''
       [(''checker'', nm), (''passed'', bool_str (passed out)), (''timed_out'', ''false'')]"
| "checker_metric (nm, TimedOut) =
     CounterInc ''ciel_checker_result'' [(''checker'', nm), (''passed'', ''false''), (''timed_out'', ''true'')]"

definition record_verdict :: "verdict_response \<Rightarrow> string \<Rightarrow> metric list" where
  "record_verdict resp input_type =
     [CounterInc ''ciel_verdict_total''
        [(''verdict'', to_ascii_lowercase (verdict_to_str (resp_verdict resp))), (''input_type'', input_type)],
      latency_metric ''total'' (total_ms (timing resp)),
      latency_metric ''fork_sim'' (fork_sim_ms (timing resp)),
      latency_metric ''checkers'' (checkers_ms (timing resp)),
      latency_metric ''scoring'' (scoring_ms (timing resp)),
      latency_metric ''signing'' (signing_ms (timing resp))] @
     map checker_metric (outputs (resp_checker_results resp))"

subsection \<open>REST\<close>

record verdict_request_json =
  req_tx :: "string option"
  req_intent :: "json option"
  req_nl_intent :: "string option"

record flag_json_rec =
  fj_code :: string
  fj_message :: string
  fj_data :: json

record checker_detail_json =
  cd_checker_name :: string
  cd_passed :: bool
  cd_severity :: string
  cd_flags :: "flag_json_rec list"
  cd_details :: string

record verdict_response_json =
  vr_verdict :: string
  vr_safety_score :: f64
  vr_attestation :: string
  vr_signature :: string
  vr_slot :: u64
  vr_tx_hash :: string
  vr_checker_outputs_hash :: string
  vr_checker_details :: "checker_detail_json list"
  vr_latency_ms :: u64
  vr_timing :: pipeline_timing
  vr_downgrade_reason :: "string option"

definition to_hex :: "bytes \<Rightarrow> string" where
  "to_hex bs = concat (map hex_byte bs)"

fun checker_detail_of :: "string \<times> checker_status \<Rightarrow> checker_detail_json" where
  "checker_detail_of (nm, Completed out) =
     \<lparr>cd_checker_name = nm, cd_passed = passed out, cd_severity = severity_name (out_severity out),
      cd_flags = map (\<lambda>f. \<lparr>fj_code = flag_code f, fj_message = flag_message f, fj_data = flag_data f\<rparr>) (flags out),
      cd_details = details out\<rparr>"
| "checker_detail_of (nm, TimedOut) =
     \<lparr>cd_checker_name = nm, cd_passed = False, cd_severity = ''Critical'', cd_flags = [],
      cd_details = ''checker timed out''\<rparr>"

definition pipeline_response_to_json :: "text_codecs \<Rightarrow> verdict_response \<Rightarrow> verdict_response_json" where
  "pipeline_response_to_json C resp =
     \<lparr>vr_verdict = verdict_to_str (resp_verdict resp), vr_safety_score = resp_safety_score resp,
      vr_attestation = b64_encode C (attestation_bytes resp), vr_signature = b64_encode C (signature_bytes resp),
      vr_slot = resp_slot resp, vr_tx_hash = to_hex (resp_tx_hash resp),
      vr_checker_outputs_hash = to_hex (resp_outputs_hash resp),
      vr_checker_details = map checker_detail_of (outputs (resp_checker_results resp)),
      vr_latency_ms = total_ms (timing resp), vr_timing = timing resp,
      vr_downgrade_reason = downgrade_reason resp\<rparr>"

text \<open>The derived serialization of the response types.\<close>

definition flag_rec_value :: "flag_json_rec \<Rightarrow> json" where
  "flag_rec_value f =
     json_obj [(''code'', JStr (fj_code f)), (''message'', JStr (fj_message f)), (''data'', fj_data f)]"

definition detail_value :: "checker_detail_json \<Rightarrow> json" where
  "detail_value d =
     json_obj [(''checker_name'', JStr (cd_checker_name d)), (''passed'', JBool (cd_passed d)),
       (''severity'', JStr (cd_severity d)), (''flags'', JArr (map flag_rec_value (cd_flags d))),
       (''details'', JStr (cd_details d))]"

definition timing_value :: "pipeline_timing \<Rightarrow> json" where
  "timing_value t =
     json_obj [(''total_ms'', JU64 (unat (total_ms t))), (''fork_sim_ms'', JU64 (unat (fork_sim_ms t))),
       (''checkers_ms'', JU64 (unat (checkers_ms t))), (''scoring_ms'', JU64 (unat (scoring_ms t))),
       (''signing_ms'', JU64 (unat (signing_ms t)))]"

definition response_value :: "verdict_response_json \<Rightarrow> json" where
  "response_value r =
     json_obj ([(''verdict'', JStr (vr_verdict r)), (''safety_score'', json_f64 (vr_safety_score r)),
       (''attestation'', JStr (vr_attestation r)), (''signature'', JStr (vr_signature r)),
       (''slot'', JU64 (unat (vr_slot r))), (''tx_hash'', JStr (vr_tx_hash r)),
       (''checker_outputs_hash'', JStr (vr_checker_outputs_hash r)),
       (''checker_details'', JArr (map detail_value (vr_checker_details r))),
       (''latency_ms'', JU64 (unat (vr_latency_ms r))), (''timing'', timing_value (vr_timing r))] @
       opt_field ''downgrade_reason'' JStr (vr_downgrade_reason r))"

text \<open>What a request does beside its answer.\<close>

record verdict_info =
  vi_verdict_id :: string
  vi_verdict :: string
  vi_safety_score :: f64
  vi_timing :: pipeline_timing
  vi_passed :: "string list"
  vi_flagged :: "string list"
  vi_timed_out :: "string list"

record server_effects =
  ef_metrics :: "metric list"
  ef_info :: "verdict_info option"
  ef_log :: "verdict_log_entry option"

definition no_effects :: server_effects where
  "no_effects = \<lparr>ef_metrics = [], ef_info = None, ef_log = None\<rparr>"

text \<open>One evaluation as a request sees it: the pipeline, the order of the result map and the clock.\<close>

record ('svm, 'vtx) run =
  run_services :: "('svm, 'vtx) services"
  run_pipeline :: "'svm verdict_pipeline"
  run_shuffle :: "(string \<times> checker_status) list \<Rightarrow> (string \<times> checker_status) list"
  run_timeline :: timeline
  tx_deserialize :: "bytes \<Rightarrow> (string, transaction) result"
  run_codecs :: text_codecs

definition run_evaluate :: "('svm, 'vtx) run \<Rightarrow> transaction \<Rightarrow> evaluation" where
  "run_evaluate R tx = evaluate_raw_tx (run_services R) (run_shuffle R) (run_pipeline R) (run_timeline R) tx"

definition verdict_info_of :: "string \<Rightarrow> verdict_response \<Rightarrow> verdict_info" where
  "verdict_info_of verdict_id resp =
     (let done = completed (resp_checker_results resp)
      in \<lparr>vi_verdict_id = verdict_id, vi_verdict = verdict_to_str (resp_verdict resp),
          vi_safety_score = resp_safety_score resp, vi_timing = timing resp,
          vi_passed = map checker_name (filter passed done),
          vi_flagged = map checker_name (filter (\<lambda>out. \<not> passed out) done),
          vi_timed_out = timed_out (resp_checker_results resp)\<rparr>)"

definition handle_verdict ::
    "('svm, 'vtx) run \<Rightarrow> string option \<Rightarrow> verdict_request_json \<Rightarrow>
     ((server_error, verdict_response_json) result \<times> server_effects) option" where
  "handle_verdict R request_id req =
     (let verdict_id = (case request_id of None \<Rightarrow> ''unknown'' | Some i \<Rightarrow> i)
      in case req_tx req of
           Some tx_b64 \<Rightarrow>
             (case b64_decode (run_codecs R) tx_b64 of
                Inl e \<Rightarrow> Some (Inl (Base64Decode e), no_effects)
              | Inr tx_bytes \<Rightarrow>
                  (case tx_deserialize R tx_bytes of
                     Inl e \<Rightarrow> Some (Inl (InvalidRequest (''invalid transaction: '' @ e)), no_effects)
                   | Inr tx \<Rightarrow>
                       (case run_evaluate R tx of
                          None \<Rightarrow> None
                        | Some (Inl e) \<Rightarrow> Some (Inl (PipelineErr e), no_effects)
                        | Some (Inr (resp, lg)) \<Rightarrow>
                            Some (Inr (pipeline_response_to_json (run_codecs R) resp),
                              \<lparr>ef_metrics = record_verdict resp ''raw_tx'',
                               ef_info = Some (verdict_info_of verdict_id resp), ef_log = lg\<rparr>))))
         | None \<Rightarrow>
             if req_intent req \<noteq> None
             then Some (Inl (NotImplemented ''intent evaluation not yet implemented''), no_effects)
             else if req_nl_intent req \<noteq> None
             then Some (Inl (NotImplemented ''natural language intent evaluation not yet implemented''), no_effects)
             else Some (Inl (InvalidRequest
                    (''request must contain '' @ [CHR 0x27] @ ''tx'' @ [CHR 0x27] @ '', '' @ [CHR 0x27] @
                     ''intent'' @ [CHR 0x27] @ '', or '' @ [CHR 0x27] @ ''nl_intent'' @ [CHR 0x27])), no_effects))"

text \<open>The answer of the route: the handler's value or its error, as HTTP.\<close>

definition post_verdict ::
    "('svm, 'vtx) run \<Rightarrow> string option \<Rightarrow> verdict_request_json \<Rightarrow> (http_response \<times> server_effects) option" where
  "post_verdict R request_id req =
     (case handle_verdict R request_id req of
        None \<Rightarrow> None
      | Some (Inl e, ef) \<Rightarrow> Some (into_response e, ef)
      | Some (Inr r, ef) \<Rightarrow> Some (\<lparr>http_status = 200, http_body = response_value r\<rparr>, ef))"

definition handle_health :: http_response where
  "handle_health = \<lparr>http_status = 200, http_body = json_obj [(''status'', JStr ''ok'')]\<rparr>"

text \<open>The rendered registry of the Prometheus exporter.\<close>

definition handle_metrics :: "string \<Rightarrow> nat \<times> string \<times> string" where
  "handle_metrics rendered = (200, ''text/plain; version=0.0.4; charset=utf-8'', rendered)"

subsection \<open>gRPC\<close>

datatype grpc_code = InvalidArgument | Internal | Unimplemented

record grpc_status =
  grpc_code_of :: grpc_code
  grpc_message :: string

datatype 'i grpc_input = RawTx bytes | IntentInput 'i | NlIntent string

record proto_flag =
  pr_code :: string
  pr_message :: string
  pr_data_json :: string

record proto_detail =
  pd_checker_name :: string
  pd_passed :: bool
  pd_severity :: string
  pd_flags :: "proto_flag list"
  pd_details :: string

record proto_response =
  pr_attestation :: bytes
  pr_signature :: bytes
  pr_verdict :: string
  pr_safety_score :: f64
  pr_optimality_score :: f64
  pr_rationale :: "string option"
  pr_checker_details :: "proto_detail list"
  pr_latency_ms :: u64

definition json_to_string :: "('svm, 'vtx) services \<Rightarrow> json \<Rightarrow> string" where
  "json_to_string S v = (case json_to_vec S v of Inl e \<Rightarrow> '''' | Inr bs \<Rightarrow> bytes_str bs)"

fun proto_detail_of :: "('svm, 'vtx) services \<Rightarrow> string \<times> checker_status \<Rightarrow> proto_detail" where
  "proto_detail_of S (nm, Completed out) =
     \<lparr>pd_checker_name = nm, pd_passed = passed out, pd_severity = severity_name (out_severity out),
      pd_flags = map (\<lambda>f. \<lparr>pr_code = flag_code f, pr_message = flag_message f,
                           pr_data_json = json_to_string S (flag_data f)\<rparr>) (flags out),
      pd_details = details out\<rparr>"
| "proto_detail_of S (nm, TimedOut) =
     \<lparr>pd_checker_name = nm, pd_passed = False, pd_severity = ''Critical'', pd_flags = [],
      pd_details = ''checker timed out''\<rparr>"

definition pipeline_to_proto :: "('svm, 'vtx) services \<Rightarrow> verdict_response \<Rightarrow> proto_response" where
  "pipeline_to_proto S resp =
     \<lparr>pr_attestation = attestation_bytes resp, pr_signature = signature_bytes resp,
      pr_verdict = verdict_to_str (resp_verdict resp), pr_safety_score = to_f32 (resp_safety_score resp),
      pr_optimality_score = rnd 0, pr_rationale = None,
      pr_checker_details = map (proto_detail_of S) (outputs (resp_checker_results resp)),
      pr_latency_ms = total_ms (timing resp)\<rparr>"

text \<open>The shorter log line of this handler is left out.\<close>

definition evaluate_inner ::
    "('svm, 'vtx) run \<Rightarrow> 'i grpc_input option \<Rightarrow> ((grpc_status, proto_response) result \<times> server_effects) option" where
  "evaluate_inner R input =
     (case input of
        None \<Rightarrow> Some (Inl \<lparr>grpc_code_of = InvalidArgument,
                   grpc_message = ''request must contain raw_tx, intent, or nl_intent''\<rparr>, no_effects)
      | Some (RawTx bs) \<Rightarrow>
          (case tx_deserialize R bs of
             Inl e \<Rightarrow> Some (Inl \<lparr>grpc_code_of = InvalidArgument, grpc_message = ''invalid transaction: '' @ e\<rparr>, no_effects)
           | Inr tx \<Rightarrow>
               (case run_evaluate R tx of
                  None \<Rightarrow> None
                | Some (Inl e) \<Rightarrow>
                    Some (Inl \<lparr>grpc_code_of = Internal, grpc_message = ''pipeline error: '' @ pipeline_error_text e\<rparr>, no_effects)
                | Some (Inr (resp, lg)) \<Rightarrow>
                    Some (Inr (pipeline_to_proto (run_services R) resp),
                      \<lparr>ef_metrics = record_verdict resp ''raw_tx'', ef_info = None, ef_log = lg\<rparr>)))
      | Some (IntentInput i) \<Rightarrow>
          Some (Inl \<lparr>grpc_code_of = Unimplemented, grpc_message = ''intent evaluation not yet implemented''\<rparr>, no_effects)
      | Some (NlIntent t) \<Rightarrow>
          Some (Inl \<lparr>grpc_code_of = Unimplemented,
             grpc_message = ''natural language intent evaluation not yet implemented''\<rparr>, no_effects))"

subsection \<open>The start of the process\<close>

text \<open>\<^verbatim>\<open>str::parse::<u16>\<close>: decimal digits after an optional plus sign.\<close>

definition parse_u16 :: "string \<Rightarrow> nat option" where
  "parse_u16 s =
     (let ds = (case s of c # cs \<Rightarrow> if c = CHR ''+'' then cs else s | [] \<Rightarrow> [])
      in if ds \<noteq> [] \<and> list_all is_digit ds \<and> digits_value ds 0 < 65536 then Some (digits_value ds 0) else None)"

definition port_of :: "(string \<Rightarrow> string option) \<Rightarrow> string \<Rightarrow> string \<Rightarrow> nat option" where
  "port_of environment var dflt = parse_u16 (case environment var of None \<Rightarrow> dflt | Some v \<Rightarrow> v)"

datatype db_connection = Connected | ConnectFailed string | ConnectTimedOut

text \<open>What the process meets at its start: the environment, files, the database and the network.\<close>

record ('svm, 'vtx) host =
  env :: "string \<Rightarrow> string option"
  read_file :: "string \<Rightarrow> (string, bytes) result"
  parse_byte_array :: "bytes \<Rightarrow> (string, bytes) result"
  connect :: "string \<Rightarrow> db_connection"
  migrate :: "(string, unit) result"
  sysvar_ids :: "string \<Rightarrow> pubkey"
  fresh_svm :: 'svm
  host_services :: "('svm, 'vtx) services"
  networks :: "string \<times> string \<Rightarrow> nat \<Rightarrow> network"
  sim_time :: time
  tracker_time :: time
  first_update_time :: time

definition init_database :: "('svm, 'vtx) host \<Rightarrow> bool" where
  "init_database H =
     (case env H ''DATABASE_URL'' of
        None \<Rightarrow> False
      | Some url \<Rightarrow>
          (case connect H url of
             Connected \<Rightarrow> (case migrate H of Inr u \<Rightarrow> True | Inl e \<Rightarrow> False)
           | ConnectFailed e \<Rightarrow> False
           | ConnectTimedOut \<Rightarrow> False))"

text \<open>\<^verbatim>\<open>ForkSimulator::new\<close>, and the fallback of \<^verbatim>\<open>main\<close>.\<close>

definition fork_simulator_new :: "('svm, 'vtx) host \<Rightarrow> (fork_error, 'svm fork_simulator) result" where
  "fork_simulator_new H =
     bind_result (rpc_urls_from_env (env H)) (\<lambda>urls.
       with_rpc (sysvar_ids H) (lite (host_services H)) (fresh_svm H) (sim_time H) (networks H urls) circuit_breaker_new)"

definition build_fork :: "('svm, 'vtx) host \<Rightarrow> 'svm fork_simulator" where
  "build_fork H = (case fork_simulator_new H of Inr f \<Rightarrow> f | Inl e \<Rightarrow> new_offline (fresh_svm H))"

definition build_staleness :: "('svm, 'vtx) host \<Rightarrow> staleness_tracker" where
  "build_staleness H =
     (let is_offline = (env H ''HELIUS_API_KEY'' = None);
          cfg = (if is_offline then \<lparr>warn_threshold = from_secs 3600, timeout_threshold = from_secs 7200\<rparr>
                 else staleness_config_default)
      in record_update (first_update_time H) 0 (tracker_new (tracker_time H) cfg))"

definition build_signer :: "('svm, 'vtx) host \<Rightarrow> ciel_signer option" where
  "build_signer H =
     (case env H ''CIEL_SIGNING_KEY_PATH'' of
        Some path \<Rightarrow>
          (case read_file H path of
             Inl e \<Rightarrow> None
           | Inr key_data \<Rightarrow>
               (case parse_byte_array H key_data of
                  Inl e \<Rightarrow> None
                | Inr keypair_bytes \<Rightarrow>
                    if length keypair_bytes \<noteq> 64 then None
                    else case from_keypair_bytes (ed (host_services H)) keypair_bytes of
                           Inl e \<Rightarrow> None
                         | Inr s \<Rightarrow> Some s))
      | None \<Rightarrow> Some (from_bytes (replicate 32 42)))"

definition capture_rpc_url :: "(string \<Rightarrow> string option) \<Rightarrow> string" where
  "capture_rpc_url environment =
     (case environment ''HELIUS_API_KEY'' of
        Some key \<Rightarrow> ''https://mainnet.helius-rpc.com/?api-key='' @ key
      | None \<Rightarrow> ''https://api.mainnet-beta.solana.com'')"

record 'svm server =
  rest_port :: nat
  grpc_port :: nat
  srv_pipeline :: "'svm verdict_pipeline"
  capture_task :: "(string \<times> outcome_config) option"

text \<open>\<^verbatim>\<open>main\<close> up to the two servers; \<open>None\<close> is a panic during the start.\<close>

definition start_server :: "('svm, 'vtx) host \<Rightarrow> 'svm server option" where
  "start_server H =
     (case port_of (env H) ''CIEL_REST_PORT'' ''8080'' of
        None \<Rightarrow> None
      | Some rest \<Rightarrow>
          (case port_of (env H) ''CIEL_GRPC_PORT'' ''50051'' of
             None \<Rightarrow> None
           | Some grpc \<Rightarrow>
               (let fork = build_fork H; staleness = build_staleness H
                in case build_signer H of
                     None \<Rightarrow> None
                   | Some signer_key \<Rightarrow>
                       (let db = init_database H
                        in Some \<lparr>rest_port = rest, grpc_port = grpc,
                             srv_pipeline = \<lparr>vp_fork = fork, fork_poisoned = False, vp_checkers = all_stub_checkers,
                               vp_signer = signer_key, vp_staleness = staleness, vp_db = db,
                               timeout_ms = DEFAULT_TIMEOUT_MS\<rparr>,
                             capture_task = (if db then Some (capture_rpc_url (env H), outcome_config_default) else None)\<rparr>))))"

subsection \<open>What the handlers return\<close>

text \<open>An answer comes from an evaluation, whose log row it hands on.\<close>

lemma handle_verdict_Inr:
  assumes "handle_verdict R request_id req = Some (Inr r, ef)"
  shows "\<exists>tx resp lg. run_evaluate R tx = Some (Inr (resp, lg)) \<and>
    r = pipeline_response_to_json (run_codecs R) resp \<and> ef_log ef = lg \<and> ef_metrics ef = record_verdict resp ''raw_tx''"
  using assms by (fastforce simp: handle_verdict_def Let_def split: option.splits sum.splits if_splits)

lemma handle_verdict_Inl:
  assumes "handle_verdict R request_id req = Some (Inl e, ef)"
  shows "ef = no_effects"
  using assms by (auto simp: handle_verdict_def Let_def split: option.splits sum.splits if_splits)

lemma evaluate_inner_Inr:
  assumes "evaluate_inner R input = Some (Inr r, ef)"
  shows "\<exists>tx resp lg. run_evaluate R tx = Some (Inr (resp, lg)) \<and>
    r = pipeline_to_proto (run_services R) resp \<and> ef_log ef = lg"
  using assms by (fastforce simp: evaluate_inner_def split: option.splits sum.splits grpc_input.splits)

lemma evaluate_inner_Inl:
  assumes "evaluate_inner R input = Some (Inl e, ef)"
  shows "ef = no_effects"
  using assms by (auto simp: evaluate_inner_def split: option.splits sum.splits grpc_input.splits)

lemma post_verdict_200:
  assumes "post_verdict R request_id req = Some (h, ef)" "http_status h = 200"
  shows "\<exists>r. handle_verdict R request_id req = Some (Inr r, ef) \<and> http_body h = response_value r"
proof -
  have "fst (error_parts e) \<noteq> 200" for e by (cases e rule: error_parts.cases) auto
  then have "http_status (into_response e) \<noteq> 200" for e
    by (metis (no_types, lifting) fst_conv http_response.select_convs(1) into_response_def prod.case_eq_if)
  then show ?thesis using assms by (auto simp: post_verdict_def split: option.splits sum.splits)
qed

lemma response_value_fields:
  "json_get (response_value r) ''verdict'' = Some (JStr (vr_verdict r))"
  "json_get (response_value r) ''safety_score'' = Some (json_f64 (vr_safety_score r))"
  "json_get (response_value r) ''attestation'' = Some (JStr (vr_attestation r))"
  "json_get (response_value r) ''signature'' = Some (JStr (vr_signature r))"
  "json_get (response_value r) ''slot'' = Some (JU64 (unat (vr_slot r)))"
  "json_get (response_value r) ''tx_hash'' = Some (JStr (vr_tx_hash r))"
  "json_get (response_value r) ''checker_outputs_hash'' = Some (JStr (vr_checker_outputs_hash r))"
  by (simp_all add: response_value_def opt_field_def map_add_Some_iff split: option.splits)

text \<open>C12: What an HTTP client gets is a verifiable attestation. A 200 answer carries base64 texts that decode
  to an attestation and a signature that verifies under the server's key, and the attestation says
  what the JSON says: the same verdict, the same transaction and outputs hashes (in lower-case
  hexadecimal) and the same slot.\<close>

theorem rest_answer_verifiable:
  assumes "ed25519_correct (ed (run_services R))" "length (signing_key (vp_signer (run_pipeline R))) = 32"
    and "sha256_sized (run_services R)" "codecs_roundtrip (run_codecs R)"
    and "post_verdict R request_id req = Some (h, ef)" "http_status h = 200"
  shows "\<exists>att sig bs sg a v.
    json_get (http_body h) ''attestation'' = Some (JStr att) \<and> b64_decode (run_codecs R) att = Inr bs \<and>
    json_get (http_body h) ''signature'' = Some (JStr sig) \<and> b64_decode (run_codecs R) sig = Inr sg \<and>
    verify_attestation (ed (run_services R)) (pubkey_bytes (ed (run_services R)) (vp_signer (run_pipeline R))) bs sg \<and>
    try_from_slice decode_attestation bs = Inr a \<and> att_verdict a = verdict_u8 v \<and>
    json_get (http_body h) ''verdict'' = Some (JStr (verdict_to_str v)) \<and>
    json_get (http_body h) ''tx_hash'' = Some (JStr (to_hex (tx_hash a))) \<and>
    json_get (http_body h) ''checker_outputs_hash'' = Some (JStr (to_hex (checker_outputs_hash_field a))) \<and>
    json_get (http_body h) ''slot'' = Some (JU64 (unat (slot a)))"
proof -
  obtain r where r: "handle_verdict R request_id req = Some (Inr r, ef)" and b: "http_body h = response_value r"
    using post_verdict_200 [OF assms(5,6)] by blast
  then obtain tx resp lg where e: "run_evaluate R tx = Some (Inr (resp, lg))"
    and rr: "r = pipeline_response_to_json (run_codecs R) resp"
    using handle_verdict_Inr by blast
  from response_attested [OF assms(1-3) e [unfolded run_evaluate_def]]
  show ?thesis
    using assms(4) unfolding b response_value_fields rr
    by (fastforce simp: pipeline_response_to_json_def codecs_roundtrip_def)
qed

text \<open>C13: The status of every answer of the verdict route. A request without a transaction is refused with
  400, or 501 where it states an intent; an undecodable transaction gives 400; an evaluation that
  fails gives 500 and one that succeeds, whatever its verdict, 200. The status 504 of the error
  mapping is never sent, and a refused request records no metric and writes no row.\<close>

theorem rest_status:
  assumes "post_verdict R request_id req = Some (h, ef)"
  shows "http_status h =
    (case req_tx req of
       None \<Rightarrow> if req_intent req = None \<and> req_nl_intent req = None then 400 else 501
     | Some t \<Rightarrow>
         (case bind_result (b64_decode (run_codecs R) t) (tx_deserialize R) of
            Inl e \<Rightarrow> 400
          | Inr tx \<Rightarrow> (case run_evaluate R tx of Some (Inr answer) \<Rightarrow> 200 | _ \<Rightarrow> 500))) \<and>
    (http_status h \<noteq> 200 \<longrightarrow> ef = no_effects \<and> (\<exists>code message. http_body h = error_body code message))"
proof -
  have pe: "fst (error_parts (PipelineErr e)) = 500" if "run_evaluate R tx = Some (Inl e)" for e tx
    using evaluation_error_cases [OF that [unfolded run_evaluate_def]] by auto
  have st: "http_status (into_response e) = fst (error_parts e)" "\<exists>code message. http_body (into_response e) = error_body code message" for e
    by (auto simp: into_response_def split: prod.splits)
  show ?thesis
    using assms pe
    by (auto simp: post_verdict_def handle_verdict_def Let_def st split: option.splits sum.splits if_splits)
qed

lemma proto_severity: "pd_severity (proto_detail_of S d) = cd_severity (checker_detail_of d)"
  by (cases "(S, d)" rule: proto_detail_of.cases) auto

text \<open>C14: REST and gRPC give the same verdict. The same transaction bytes, sent in base64 over REST or raw
  over gRPC, are refused by both or evaluated by both, with the same verdict, attestation,
  signature and latency, the same metrics and the same log row.\<close>

theorem rest_grpc_agree:
  assumes "codecs_roundtrip (run_codecs R)" "req_tx req = Some (b64_encode (run_codecs R) bs)"
  shows "case (handle_verdict R request_id req, evaluate_inner R (Some (RawTx bs))) of
      (None, None) \<Rightarrow> True
    | (Some (Inl e, ef), Some (Inl st, ef')) \<Rightarrow> ef = no_effects \<and> ef' = no_effects \<and>
        grpc_code_of st = (if fst (error_parts e) = 400 then InvalidArgument else Internal)
    | (Some (Inr r, ef), Some (Inr pr, ef')) \<Rightarrow>
        pr_verdict pr = vr_verdict r \<and> vr_attestation r = b64_encode (run_codecs R) (pr_attestation pr) \<and>
        vr_signature r = b64_encode (run_codecs R) (pr_signature pr) \<and> pr_latency_ms pr = vr_latency_ms r \<and>
        pr_safety_score pr = to_f32 (vr_safety_score r) \<and>
        map pd_severity (pr_checker_details pr) = map cd_severity (vr_checker_details r) \<and>
        ef_metrics ef' = ef_metrics ef \<and> ef_log ef' = ef_log ef
    | _ \<Rightarrow> False"
proof -
  have pe: "fst (error_parts (PipelineErr e)) \<noteq> 400" for e by (cases "PipelineErr e" rule: error_parts.cases) auto
  show ?thesis
    using assms pe
    by (auto simp: handle_verdict_def evaluate_inner_def Let_def codecs_roundtrip_def pipeline_response_to_json_def
        pipeline_to_proto_def proto_severity split: option.splits sum.splits)
qed

subsection \<open>The types of an answer\<close>


definition severity_names :: "string set" where
  "severity_names = {''None'', ''Low'', ''Medium'', ''High'', ''Critical''}"

lemma to_hex_typed: "length (to_hex bs) = 2 * length bs" "set (to_hex bs) \<subseteq> set HEX_DIGITS"
proof -
  have "unat b div 16 < 16" for b :: u8 using unat_u8_less [of b] by simp
  then show "set (to_hex bs) \<subseteq> set HEX_DIGITS" by (auto simp: to_hex_def hex_byte_def intro!: hex_digit_mem)
  show "length (to_hex bs) = 2 * length bs" by (induction bs) (simp_all add: to_hex_def hex_byte_def)
qed

text \<open>The score is a number between 0 and 1 for any number of checkers: the sum never becomes NaN.\<close>

lemma score_unit: "\<exists>y. compute_safety_score r = Fin y \<and> 0 \<le> y \<and> y \<le> 1"
proof -
  have rnd: "rnd x \<noteq> NaN" for x by (simp add: rnd_def rnd_to_def split: option.splits)
  have step: "f_sub s (status_penalty st) \<noteq> NaN" if "s \<noteq> NaN" for s st
  proof -
    obtain y where "status_penalty st = Fin y"
      using status_penalty_exact [of st] exact_penalty_bounds [of st] rnd_unit [of "exact_penalty st"] by auto
    then show ?thesis using that rnd by (cases s) auto
  qed
  have loop: "foldl (\<lambda>score status. f_sub score (status_penalty status)) s sts \<noteq> NaN" if "s \<noteq> NaN" for s sts
    using that step by (induction sts arbitrary: s) auto
  obtain s where s: "s \<noteq> NaN" "compute_safety_score r = f_clamp s (rnd 0) (rnd 1)"
    using loop [of "rnd 1"] by (auto simp: compute_safety_score_def)
  show ?thesis
  proof (cases s)
    case (Inf neg)
    then show ?thesis using s by (cases neg) (auto simp: f_clamp_def)
  next
    case (Fin y)
    then show ?thesis using s f_clamp_unit by auto
  qed (use s in simp)
qed

lemma response_typed:
  assumes "sha256_sized S" "evaluate_raw_tx S shuffle p T tx = Some (Inr (resp, lg))"
  shows "length (resp_tx_hash resp) = 32 \<and> length (resp_outputs_hash resp) = 32 \<and>
    (\<exists>y. resp_safety_score resp = Fin y \<and> 0 \<le> y \<and> y \<le> 1)"
  using evaluation_cases [OF assms(2)]
proof (elim disjE conjE exE)
  assume t: "build_timeout_response S p T tx = Inr resp"
  then have "resp_safety_score resp = rnd 0"
    by (auto simp: build_timeout_response_def Let_def bind_result_Inr split: if_splits)
  then show ?thesis using timeout_response_facts [OF t] compute_tx_hash_length [OF assms(1)] by auto
next
  fix pe
  assume "before_checkers S p T tx = Inr pe"
    and "after_checkers S p T tx pe (checked_results shuffle p T tx pe) = Some (Inr (resp, lg))"
  from before_checkers_facts(1) [OF this(1)] after_checkers_facts [OF this(2)] show ?thesis
    using compute_tx_hash_length [OF assms(1)] outputs_hash_length [OF assms(1)] score_unit by metis
qed

lemma detail_typed:
  "json_get (detail_value (checker_detail_of d)) ''checker_name'' = Some (JStr (fst d))"
  "\<exists>sev \<in> severity_names. json_get (detail_value (checker_detail_of d)) ''severity'' = Some (JStr sev)"
proof -
  have "severity_name sev \<in> severity_names" for sev by (cases sev) (auto simp: severity_names_def)
  then show "\<exists>sev \<in> severity_names. json_get (detail_value (checker_detail_of d)) ''severity'' = Some (JStr sev)"
    by (cases d rule: checker_detail_of.cases) (auto simp: detail_value_def severity_names_def)
  show "json_get (detail_value (checker_detail_of d)) ''checker_name'' = Some (JStr (fst d))"
    by (cases d rule: checker_detail_of.cases) (auto simp: detail_value_def)
qed

text \<open>C15: Every 200 answer has the promised shape: the verdict is one of the four names, the safety score a
  number between 0 and 1 (never \<^verbatim>\<open>null\<close>, however many checkers ran), both hashes are 64 lower-case
  hexadecimal digits, and each checker detail names its severity.\<close>

theorem rest_answer_typed:
  assumes "sha256_sized (run_services R)"
    and "post_verdict R request_id req = Some (h, ef)" "http_status h = 200"
  shows "\<exists>v y txh oh ds.
    json_get (http_body h) ''verdict'' = Some (JStr v) \<and> v \<in> {''APPROVE'', ''WARN'', ''BLOCK'', ''TIMEOUT''} \<and>
    json_get (http_body h) ''safety_score'' = Some (JF64 (Fin y)) \<and> 0 \<le> y \<and> y \<le> 1 \<and>
    json_get (http_body h) ''tx_hash'' = Some (JStr txh) \<and> length txh = 64 \<and> set txh \<subseteq> set HEX_DIGITS \<and>
    json_get (http_body h) ''checker_outputs_hash'' = Some (JStr oh) \<and> length oh = 64 \<and> set oh \<subseteq> set HEX_DIGITS \<and>
    json_get (http_body h) ''checker_details'' = Some (JArr ds) \<and>
    (\<forall>d \<in> set ds. \<exists>sev \<in> severity_names. json_get d ''severity'' = Some (JStr sev))"
proof -
  obtain r where r: "handle_verdict R request_id req = Some (Inr r, ef)" and b: "http_body h = response_value r"
    using post_verdict_200 [OF assms(2,3)] by blast
  then obtain tx resp lg where e: "run_evaluate R tx = Some (Inr (resp, lg))"
    and rr: "r = pipeline_response_to_json (run_codecs R) resp"
    using handle_verdict_Inr by blast
  have v: "verdict_to_str (resp_verdict resp) \<in> {''APPROVE'', ''WARN'', ''BLOCK'', ''TIMEOUT''}"
    by (cases "resp_verdict resp") auto
  obtain y where t: "length (resp_tx_hash resp) = 32" "length (resp_outputs_hash resp) = 32"
    "resp_safety_score resp = Fin y" "0 \<le> y" "y \<le> 1"
    using response_typed [OF assms(1) e [unfolded run_evaluate_def]] by blast
  have "json_get (response_value r) ''checker_details'' = Some (JArr (map detail_value (vr_checker_details r)))"
    by (simp add: response_value_def opt_field_def map_add_Some_iff split: option.splits)
  moreover have "\<forall>d \<in> set (map detail_value (vr_checker_details r)). \<exists>sev \<in> severity_names. json_get d ''severity'' = Some (JStr sev)"
    using detail_typed(2) by (auto simp: rr pipeline_response_to_json_def)
  moreover have "json_get (response_value r) ''verdict'' = Some (JStr (verdict_to_str (resp_verdict resp)))"
    "json_get (response_value r) ''safety_score'' = Some (JF64 (Fin y))"
    "json_get (response_value r) ''tx_hash'' = Some (JStr (to_hex (resp_tx_hash resp)))"
    "json_get (response_value r) ''checker_outputs_hash'' = Some (JStr (to_hex (resp_outputs_hash resp)))"
    by (simp_all add: response_value_fields rr pipeline_response_to_json_def json_f64_def t)
  moreover have "length (to_hex (resp_tx_hash resp)) = 64" "length (to_hex (resp_outputs_hash resp)) = 64"
    by (simp_all add: to_hex_typed t)
  ultimately show ?thesis unfolding b using v t(4,5) to_hex_typed(2) by blast
qed

subsection \<open>A request\<close>

definition demo_server_run :: "((pubkey, account) hashmap, transaction) run" where
  "demo_server_run =
     \<lparr>run_services = demo_services, run_pipeline = demo_pipeline all_stub_checkers, run_shuffle = id,
      run_timeline = zero_timeline, tx_deserialize = (\<lambda>bs. if bs = [] then Inl ''eof'' else Inr oracle_tx),
      run_codecs = plain_codecs\<rparr>"

definition demo_request :: verdict_request_json where
  "demo_request = \<lparr>req_tx = Some (b64_encode plain_codecs [1]), req_intent = None, req_nl_intent = None\<rparr>"

lemma plain_codecs_ok: "codecs_roundtrip plain_codecs"
  by (simp add: codecs_roundtrip_def plain_codecs_def str_bytes_bytes_str)

lemma demo_answer:
  "\<exists>h ef. post_verdict demo_server_run None demo_request = Some (h, ef) \<and> http_status h = 200 \<and>
     (\<exists>r. handle_verdict demo_server_run None demo_request = Some (Inr r, ef))"
proof -
  obtain resp lg where "run_evaluate demo_server_run oracle_tx = Some (Inr (resp, lg))"
    using demo_run stub_checkers_plain by (fastforce simp: run_evaluate_def demo_server_run_def)
  then show ?thesis
    using plain_codecs_ok
    by (auto simp: post_verdict_def handle_verdict_def demo_request_def demo_server_run_def codecs_roundtrip_def)
qed

theorem rest_answer_verifiable_witness:
  "\<exists>h ef bs sg a v. post_verdict demo_server_run None demo_request = Some (h, ef) \<and>
     verify_attestation tag_scheme (replicate 32 7) bs sg \<and> try_from_slice decode_attestation bs = Inr a \<and>
     att_verdict a = verdict_u8 v \<and> json_get (http_body h) ''verdict'' = Some (JStr (verdict_to_str v))"
proof -
  obtain h ef where h: "post_verdict demo_server_run None demo_request = Some (h, ef)" "http_status h = 200"
    using demo_answer by blast
  have "ed25519_correct (ed (run_services demo_server_run))" "sha256_sized (run_services demo_server_run)"
    "length (signing_key (vp_signer (run_pipeline demo_server_run))) = 32" "codecs_roundtrip (run_codecs demo_server_run)"
    using demo_keys plain_codecs_ok by (auto simp: demo_server_run_def)
  from rest_answer_verifiable [OF this(1,3,2,4) h] h(1) show ?thesis
    by (auto simp: demo_server_run_def demo_services_def demo_pipeline_def pubkey_bytes_def from_bytes_def tag_scheme_def)
qed

theorem rest_status_witness:
  "\<exists>h ef. post_verdict demo_server_run None (demo_request\<lparr>req_tx := Some []\<rparr>) = Some (h, ef) \<and> http_status h = 400 \<and>
     ef = no_effects"
proof -
  have d: "bind_result (b64_decode (run_codecs demo_server_run) []) (tx_deserialize demo_server_run) = Inl ''eof''"
    by (simp add: demo_server_run_def plain_codecs_def str_bytes_def)
  then obtain h ef where h: "post_verdict demo_server_run None (demo_request\<lparr>req_tx := Some []\<rparr>) = Some (h, ef)"
    by (auto simp: post_verdict_def handle_verdict_def demo_server_run_def plain_codecs_def str_bytes_def)
  from rest_status [OF this] d h show ?thesis by auto
qed

theorem rest_grpc_agree_witness:
  "\<exists>r ef pr ef'. handle_verdict demo_server_run None demo_request = Some (Inr r, ef) \<and>
     evaluate_inner demo_server_run (Some (RawTx [1] :: unit grpc_input)) = Some (Inr pr, ef') \<and>
     pr_verdict pr = vr_verdict r \<and> ef_log ef' = ef_log ef"
proof -
  obtain r ef where r: "handle_verdict demo_server_run None demo_request = Some (Inr r, ef)" using demo_answer by blast
  have "codecs_roundtrip (run_codecs demo_server_run)" "req_tx demo_request = Some (b64_encode (run_codecs demo_server_run) [1])"
    using plain_codecs_ok by (simp_all add: demo_server_run_def demo_request_def)
  note agree = rest_grpc_agree [where 'c = unit, OF this, of None]
  show ?thesis
  proof (cases "evaluate_inner demo_server_run (Some (RawTx [1] :: unit grpc_input))")
    case (Some p)
    then show ?thesis using agree r by (cases p; cases "fst p") auto
  qed (use agree r in simp)
qed

theorem rest_answer_typed_witness:
  "\<exists>h ef y. post_verdict demo_server_run None demo_request = Some (h, ef) \<and>
     json_get (http_body h) ''safety_score'' = Some (JF64 (Fin y)) \<and> 0 \<le> y \<and> y \<le> 1"
proof -
  obtain h ef where h: "post_verdict demo_server_run None demo_request = Some (h, ef)" "http_status h = 200"
    using demo_answer by blast
  have "sha256_sized (run_services demo_server_run)" using demo_keys by (simp add: demo_server_run_def)
  from rest_answer_typed [OF this h] h(1) show ?thesis by blast
qed

end
