(* ===== verification/Service.thy ===== *)
theory Service
  imports Server
begin

section \<open>The running service\<close>

text \<open>
  The server as a state machine over the verdict log: requests of both interfaces, the insertions
  they spawn, and cycles of the outcome capture, in any interleaving. An insertion runs some time
  after its request and may fail; a cycle is one step, since an insertion that falls into it only
  adds rows the cycle does not touch. The pipeline is immutable while the server runs. The theory
  shows invariants of the log over all runs and what the deployed server answers as time goes by.
\<close>

subsection \<open>Steps\<close>

record log_state =
  queue :: "verdict_log_entry list" \<comment> \<open>insertions spawned and not yet run\<close>
  table :: verdict_table

definition log_start :: "log_state \<Rightarrow> bool" where
  "log_start s \<longleftrightarrow> s = \<lparr>queue = [], table = []\<rparr>"

definition spawn_log :: "verdict_log_entry option \<Rightarrow> log_state \<Rightarrow> log_state" where
  "spawn_log lg s = (case lg of None \<Rightarrow> s | Some e \<Rightarrow> s\<lparr>queue := queue s @ [e]\<rparr>)"

text \<open>\<open>new_id\<close> is the database's \<^verbatim>\<open>gen_random_uuid()\<close>, unique as the primary key demands.\<close>

inductive service_step ::
    "('svm, 'vtx) services \<Rightarrow> 'svm verdict_pipeline \<Rightarrow> outcome_config \<Rightarrow> log_state \<Rightarrow> log_state \<Rightarrow> bool"
  for S p cfg where
  rest: "run_services R = S \<Longrightarrow> run_pipeline R = p \<Longrightarrow> handle_verdict R rid req = Some (res, ef) \<Longrightarrow>
     service_step S p cfg s (spawn_log (ef_log ef) s)"
| grpc: "run_services R = S \<Longrightarrow> run_pipeline R = p \<Longrightarrow> evaluate_inner R (inp :: json grpc_input option) = Some (res, ef) \<Longrightarrow>
     service_step S p cfg s (spawn_log (ef_log ef) s)"
| store: "queue s = q1 @ e # q2 \<Longrightarrow> new_id \<notin> row_id ` set (table s) \<Longrightarrow>
     service_step S p cfg s \<lparr>queue = q1 @ q2, table = log_verdict_task fault new_id now e (table s)\<rparr>"
| capture: "service_step S p cfg s (s\<lparr>table := snd (capture_cycle W now cfg (table s))\<rparr>)"

inductive_cases service_stepE: "service_step S p cfg s s'"

subsection \<open>Every stored row is genuine\<close>

text \<open>The row carries a signed attestation of its own verdict and hashes, which is no TIMEOUT.\<close>

definition genuine_entry :: "('svm, 'vtx) services \<Rightarrow> 'svm verdict_pipeline \<Rightarrow> verdict_log_entry \<Rightarrow> bool" where
  "genuine_entry S p e \<longleftrightarrow>
     verify_attestation (ed S) (pubkey_bytes (ed S) (vp_signer p)) (log_attestation e) (log_signature e) \<and>
     (\<exists>a v. try_from_slice decode_attestation (log_attestation e) = Inr a \<and> v \<noteq> Timeout \<and>
        att_verdict a = verdict_u8 v \<and> log_verdict e = verdict_to_str v \<and>
        tx_hash a = log_tx_hash e \<and> checker_outputs_hash_field a = log_checker_outputs_hash e)"

definition genuine_row :: "('svm, 'vtx) services \<Rightarrow> 'svm verdict_pipeline \<Rightarrow> verdict_row \<Rightarrow> bool" where
  "genuine_row S p r \<longleftrightarrow> genuine_entry S p (row_entry r) \<and>
     (execution_outcome r = None \<or>
      log_verdict (row_entry r) = ''APPROVE'' \<and> execution_outcome r \<in> Some ` {LANDED, REVERTED, EXPIRED})"

definition keys_ok :: "('svm, 'vtx) services \<Rightarrow> 'svm verdict_pipeline \<Rightarrow> bool" where
  "keys_ok S p \<longleftrightarrow> ed25519_correct (ed S) \<and> length (signing_key (vp_signer p)) = 32 \<and> sha256_sized S"

definition log_inv :: "('svm, 'vtx) services \<Rightarrow> 'svm verdict_pipeline \<Rightarrow> log_state \<Rightarrow> bool" where
  "log_inv S p s \<longleftrightarrow> distinct (map row_id (table s)) \<and>
     (keys_ok S p \<longrightarrow> (\<forall>e \<in> set (queue s). genuine_entry S p e) \<and> (\<forall>r \<in> set (table s). genuine_row S p r))"

lemma evaluated_entry_genuine:
  assumes "keys_ok S p" "evaluate_raw_tx S shuffle p T tx = Some (Inr (resp, Some e))"
  shows "genuine_entry S p e"
  using response_attested [OF _ _ _ assms(2)] log_answers [OF assms(2)] assms(1)
  by (auto simp: genuine_entry_def keys_ok_def)

lemma spawned_entry_genuine:
  assumes "keys_ok (run_services R) (run_pipeline R)"
  shows "handle_verdict R rid req = Some (res, ef) \<Longrightarrow> ef_log ef = Some e \<Longrightarrow> genuine_entry (run_services R) (run_pipeline R) e"
    "evaluate_inner R inp = Some (res', ef) \<Longrightarrow> ef_log ef = Some e \<Longrightarrow> genuine_entry (run_services R) (run_pipeline R) e"
proof -
  have run: "genuine_entry (run_services R) (run_pipeline R) e" if "run_evaluate R tx = Some (Inr (resp, Some e))" for tx resp
    using evaluated_entry_genuine [OF assms] that unfolding run_evaluate_def by blast
  show "genuine_entry (run_services R) (run_pipeline R) e"
    if "handle_verdict R rid req = Some (res, ef)" "ef_log ef = Some e"
  proof (cases res)
    case (Inl err)
    then show ?thesis using that handle_verdict_Inl by (fastforce simp: no_effects_def)
  next
    case (Inr r)
    then show ?thesis using that handle_verdict_Inr [of R rid req r ef] run by auto
  qed
  show "genuine_entry (run_services R) (run_pipeline R) e"
    if "evaluate_inner R inp = Some (res', ef)" "ef_log ef = Some e"
  proof (cases res')
    case (Inl err)
    then show ?thesis using that evaluate_inner_Inl by (fastforce simp: no_effects_def)
  next
    case (Inr r)
    then show ?thesis using that evaluate_inner_Inr [of R inp r ef] run by auto
  qed
qed

lemma log_inv_spawn: "log_inv S p s \<Longrightarrow> (\<And>e. lg = Some e \<Longrightarrow> keys_ok S p \<Longrightarrow> genuine_entry S p e) \<Longrightarrow> log_inv S p (spawn_log lg s)"
  by (auto simp: log_inv_def spawn_log_def split: option.splits)

lemma log_inv_store:
  assumes "log_inv S p s" "queue s = q1 @ e # q2" "new_id \<notin> row_id ` set (table s)"
  shows "log_inv S p \<lparr>queue = q1 @ q2, table = log_verdict_task fault new_id now e (table s)\<rparr>"
  using assms by (auto simp: log_inv_def log_verdict_task_def insert_verdict_def genuine_row_def split: option.splits)

lemma list_all2_right: "list_all2 P xs ys \<Longrightarrow> y \<in> set ys \<Longrightarrow> \<exists>x \<in> set xs. P x y"
  by (induction rule: list_all2_induct) auto

lemma log_inv_capture:
  assumes "log_inv S p s"
  shows "log_inv S p (s\<lparr>table := snd (capture_cycle W now cfg (table s))\<rparr>)"
proof -
  let ?t = "snd (capture_cycle W now cfg (table s))"
  have rel: "list_all2 (\<lambda>r r'. captured r r' \<and> (\<not> is_pending r \<longrightarrow> r' = r)) (table s) ?t"
    by (rule capture_cycle_frame) (use assms in \<open>simp add: log_inv_def\<close>)
  then have "list_all2 (\<lambda>r r'. row_id r' = row_id r) (table s) ?t"
    by (rule list_all2_mono) (simp add: captured_def)
  then have "map row_id ?t = map row_id (table s)" by (induction rule: list_all2_induct) auto
  moreover have "genuine_row S p r'" if r': "r' \<in> set ?t" and all: "\<forall>r \<in> set (table s). genuine_row S p r" for r'
  proof -
    obtain r where "r \<in> set (table s)" "captured r r'" "\<not> is_pending r \<longrightarrow> r' = r"
      using list_all2_right [OF rel r'] by blast
    then show ?thesis using all by (cases "is_pending r") (auto simp: genuine_row_def captured_def is_pending_def)
  qed
  ultimately show ?thesis using assms by (auto simp: log_inv_def)
qed

interpretation log_machine: step_invariant log_start "service_step S p cfg" "log_inv S p"
  for S :: "('svm, 'vtx) services" and p cfg
proof unfold_locales
  show "log_inv S p s" if "log_start s" for s using that by (simp add: log_start_def log_inv_def)
  show "log_inv S p s'" if "log_inv S p s" "service_step S p cfg s s'" for s s'
    using that(2)
  proof cases
    case (rest R rid req res ef)
    then show ?thesis using log_inv_spawn [OF that(1)] spawned_entry_genuine(1) by metis
  next
    case (grpc R inp res ef)
    then show ?thesis using log_inv_spawn [OF that(1)] spawned_entry_genuine(2) by metis
  next
    case (store q1 e q2 new_id fault now)
    then show ?thesis using log_inv_store [OF that(1)] by metis
  next
    case (capture W now)
    then show ?thesis using log_inv_capture [OF that(1)] by simp
  qed
qed

text \<open>C9: The verdict log is genuine in every reachable state of the service. After any interleaving of
  requests, insertions (also failing ones) and capture cycles the ids are distinct, and every row
  holds an attestation that verifies under the server's key and decodes to the row's own verdict
  and hashes, never to a TIMEOUT; only approved rows have an outcome, which is landed, reverted or
  expired.\<close>

theorem stored_rows_genuine:
  assumes "ed25519_correct (ed S)" "length (signing_key (vp_signer p)) = 32" "sha256_sized S"
    and "log_start s0" "(service_step S p cfg)\<^sup>*\<^sup>* s0 s"
  shows "distinct (map row_id (table s)) \<and> (\<forall>r \<in> set (table s). genuine_row S p r)"
  using log_machine.inv_reachable [OF assms(4,5)] assms(1-3) by (simp add: log_inv_def keys_ok_def)

subsection \<open>The log only grows\<close>

lemma captured_keeps: "captured r r' \<Longrightarrow> (\<not> is_pending r \<longrightarrow> r' = r) \<Longrightarrow> execution_outcome r \<noteq> None \<Longrightarrow> r' = r"
  by (auto simp: is_pending_def)

text \<open>How one state's table continues another's.\<close>

definition log_extends :: "verdict_table \<Rightarrow> verdict_table \<Rightarrow> bool" where
  "log_extends t t' \<longleftrightarrow> length t \<le> length t' \<and>
     (\<forall>i < length t. captured (t ! i) (t' ! i) \<and> (execution_outcome (t ! i) \<noteq> None \<longrightarrow> t' ! i = t ! i))"

lemma log_extends_refl: "log_extends t t"
  by (simp add: log_extends_def captured_def)

lemma log_extends_trans:
  assumes "log_extends t t'" "log_extends t' t''"
  shows "log_extends t t''"
  unfolding log_extends_def
proof (intro conjI allI impI)
  show "length t \<le> length t''" using assms by (simp add: log_extends_def)
  fix i assume i: "i < length t"
  then have i': "i < length t'" using assms by (simp add: log_extends_def)
  show "captured (t ! i) (t'' ! i)" using assms i i' captured_trans unfolding log_extends_def by blast
  show "t'' ! i = t ! i" if "execution_outcome (t ! i) \<noteq> None" using assms i i' that by (simp add: log_extends_def)
qed

lemma service_step_extends:
  assumes "service_step S p cfg s s'" "distinct (map row_id (table s))"
  shows "log_extends (table s) (table s')"
  using assms(1)
proof cases
  case (store q1 e q2 new_id fault now)
  then show ?thesis
    by (auto simp: log_verdict_task_def insert_verdict_def log_extends_def captured_def nth_append split: option.splits)
next
  case (capture W now)
  then show ?thesis
    using capture_cycle_frame [OF assms(2), of W now cfg] captured_keeps
    by (auto simp: list_all2_conv_all_nth log_extends_def)
qed (simp_all add: spawn_log_def log_extends_refl split: option.splits)

text \<open>C10: The verdict log is append-only. Along every run of the service no row disappears, moves or changes
  its verdict, attestation or creation time, and an outcome that was written once is never
  changed.\<close>

theorem log_append_only:
  assumes "log_start s0" "(service_step S p cfg)\<^sup>*\<^sup>* s0 s" "(service_step S p cfg)\<^sup>*\<^sup>* s s'"
  shows "length (table s) \<le> length (table s') \<and>
    (\<forall>i < length (table s). row_entry (table s' ! i) = row_entry (table s ! i) \<and>
       row_created_at (table s' ! i) = row_created_at (table s ! i) \<and>
       (execution_outcome (table s ! i) \<noteq> None \<longrightarrow> table s' ! i = table s ! i))"
proof -
  have inv: "log_inv S p s" by (rule log_machine.inv_reachable [OF assms(1,2)])
  have "log_extends (table s) (table s')" using assms(3)
  proof (induction rule: rtranclp_induct)
    case (step s1 s2)
    have "log_inv S p s1" using log_machine.inv_steps [OF step.hyps(1) inv] .
    then show ?case using service_step_extends [OF step.hyps(2)] log_extends_trans [OF step.IH] by (simp add: log_inv_def)
  qed (rule log_extends_refl)
  then show ?thesis by (simp add: log_extends_def captured_def)
qed

subsection \<open>What the deployed server answers\<close>

lemma stub_answers:
  assumes "vp_checkers p = all_stub_checkers" "evaluate_raw_tx S shuffle p T tx = Some (Inr (resp, lg))"
  shows "case staleness_state_at (t_staleness T) (vp_staleness p) of
      Fresh \<Rightarrow> resp_verdict resp = Approve \<and> resp_safety_score resp = Fin 1
    | StaleWarn \<Rightarrow> resp_verdict resp = Warn
    | StaleTimeout \<Rightarrow> resp_verdict resp = Timeout \<and> lg = None"
proof -
  have e: "evaluate_raw_tx_inner S shuffle p T tx = Some (Inr (resp, lg))"
    using synchronous_checkers_no_deadline [of p S shuffle T tx] stub_checkers_plain assms
    by (auto simp: plain_checker_def)
  show ?thesis
  proof (cases "before_checkers S p T tx")
    case (Inl d)
    then have "staleness_state_at (t_staleness T) (vp_staleness p) = StaleTimeout" "timeout_evaluation S p T tx = Some (Inr (resp, lg))"
      using e by (auto simp: evaluate_raw_tx_inner_def before_checkers_def Let_def split: sum.splits if_splits)
    then show ?thesis using timeout_response_facts [of S p T tx resp] by (auto simp: timeout_evaluation_def bind_result_Inr)
  next
    case (Inr pe)
    let ?r = "checked_results shuffle p T tx pe"
    have "\<exists>out. st = Completed out \<and> out_severity out = SevNone" if "st \<in> set (map snd (outputs ?r))" for st
      using that checked_results_elem [of _ st shuffle p T tx pe] stub_checkers_plain assms(1)
      by (fastforce simp: run_one_def plain_checker_def)
    note score = score_no_findings [of ?r, OF ballI [OF this]]
    have "resp_verdict resp = final_verdict (pe_downgrade pe) ?r" "resp_safety_score resp = Fin 1"
      using after_checkers_facts [of S p T tx pe ?r resp lg] e Inr score(1) by (auto simp: evaluate_raw_tx_inner_def)
    then show ?thesis
      using before_checkers_facts(4,5) [OF Inr] score(2) by (auto simp: final_verdict_def split: staleness_state.splits)
  qed
qed

lemma stub_responds:
  assumes "vp_checkers p = all_stub_checkers" "\<not> fork_poisoned p" "compute_tx_hash S tx = Inr txh"
    and "execute_transaction (lite S) (vp_fork p) tx = Inr tr"
  shows "\<exists>resp lg. evaluate_raw_tx S shuffle p T tx = Some (Inr (resp, lg))"
proof (cases "before_checkers S p T tx")
  case (Inl d)
  then have "evaluate_raw_tx S shuffle p T tx = timeout_evaluation S p T tx"
    using assms(2-4) by (auto simp: evaluate_raw_tx_def evaluate_raw_tx_inner_def before_checkers_def Let_def split: if_splits)
  then show ?thesis
    using assms(2,3) by (simp add: timeout_evaluation_def build_timeout_response_def Let_def sign_attestation_def)
next
  case (Inr pe)
  then show ?thesis using plain_checkers_respond [OF _ Inr] stub_checkers_plain assms(1) by metis
qed

text \<open>C11: What the deployed server answers depends on its age alone. The process runs the stub checkers, and
  nothing updates its staleness tracker after the start. A transaction that serializes and that
  the simulator takes is always answered: for the first 3 seconds (an hour without an API key)
  approved with score 1, then until 10 seconds (two hours) with WARN, and from then on, as long as
  the process runs, every answer is a TIMEOUT that is not logged.\<close>

theorem deployment_answers:
  fixes T :: timeline
  assumes "start_server H = Some srv"
    and "compute_tx_hash S tx = Inr txh" "execute_transaction (lite S) (vp_fork (srv_pipeline srv)) tx = Inr tr"
  defines "age \<equiv> t_staleness T - first_update_time H"
  defines "warn \<equiv> if env H ''HELIUS_API_KEY'' = None then from_secs 3600 else from_secs 3"
  defines "dead \<equiv> if env H ''HELIUS_API_KEY'' = None then from_secs 7200 else from_secs 10"
  shows "\<exists>resp lg. evaluate_raw_tx S shuffle (srv_pipeline srv) T tx = Some (Inr (resp, lg)) \<and>
    (age \<le> warn \<longrightarrow> resp_verdict resp = Approve \<and> resp_safety_score resp = Fin 1) \<and>
    (warn < age \<and> age \<le> dead \<longrightarrow> resp_verdict resp = Warn) \<and>
    (dead < age \<longrightarrow> resp_verdict resp = Timeout \<and> lg = None)"
proof -
  have p: "vp_checkers (srv_pipeline srv) = all_stub_checkers" "vp_staleness (srv_pipeline srv) = build_staleness H"
    "\<not> fork_poisoned (srv_pipeline srv)"
    using assms(1) by (auto simp: start_server_def Let_def split: option.splits)
  obtain resp lg where r: "evaluate_raw_tx S shuffle (srv_pipeline srv) T tx = Some (Inr (resp, lg))"
    using stub_responds [OF p(1,3) assms(2,3)] by blast
  have "warn < dead" by (simp add: warn_def dead_def from_secs_def)
  then have "staleness_state_at (t_staleness T) (build_staleness H) =
      (if dead < age then StaleTimeout else if warn < age then StaleWarn else Fresh)"
    by (auto simp: staleness_state_at_def time_since_last_update_def build_staleness_def record_update_def
        tracker_new_def elapsed_def age_def warn_def dead_def staleness_config_default_def Let_def)
  with stub_answers [OF p(1) r] show ?thesis using \<open>warn < dead\<close> r by (auto simp: p(2))
qed

subsection \<open>Runs\<close>

text \<open>A request that is answered, stored and looked up once.\<close>

lemma demo_logged_request:
  "\<exists>res ef e. handle_verdict demo_server_run None demo_request = Some (res, ef) \<and> ef_log ef = Some e"
proof -
  obtain r ef where h: "handle_verdict demo_server_run None demo_request = Some (Inr r, ef)" using demo_answer by blast
  then obtain tx resp lg where e: "run_evaluate demo_server_run tx = Some (Inr (resp, lg))" "ef_log ef = lg"
    using handle_verdict_Inr by blast
  have st: "evaluate_raw_tx demo_services id (demo_pipeline all_stub_checkers) zero_timeline tx = Some (Inr (resp, lg))"
    using e(1) by (simp add: run_evaluate_def demo_server_run_def)
  have "resp_verdict resp = Approve"
    using stub_answers [OF _ st] demo_before(2) [of all_stub_checkers] by (simp add: demo_pipeline_def)
  then have "lg \<noteq> None" using log_answers [OF st] by (simp add: demo_pipeline_def)
  then show ?thesis using h e(2) by blast
qed

lemma demo_service_run:
  "\<exists>s. (service_step demo_services (demo_pipeline all_stub_checkers) outcome_config_default)\<^sup>*\<^sup>* \<lparr>queue = [], table = []\<rparr> s \<and>
     length (table s) = 1"
proof -
  let ?step = "service_step demo_services (demo_pipeline all_stub_checkers) outcome_config_default"
  obtain res ef e where h: "handle_verdict demo_server_run None demo_request = Some (res, ef)" "ef_log ef = Some e"
    using demo_logged_request by blast
  have "?step \<lparr>queue = [], table = []\<rparr> (spawn_log (ef_log ef) \<lparr>queue = [], table = []\<rparr>)"
    by (rule service_step.rest [OF _ _ h(1)]) (simp_all add: demo_server_run_def)
  then have "?step \<lparr>queue = [], table = []\<rparr> \<lparr>queue = [e], table = []\<rparr>" by (simp add: h(2) spawn_log_def)
  moreover have "?step \<lparr>queue = [e], table = []\<rparr> \<lparr>queue = [] @ [], table = log_verdict_task None ''a'' 0 e []\<rparr>"
    using service_step.store [of "\<lparr>queue = [e], table = []\<rparr>" "[]" e "[]" "''a''" demo_services "demo_pipeline all_stub_checkers"
        outcome_config_default None 0] by simp
  ultimately have "?step\<^sup>*\<^sup>* \<lparr>queue = [], table = []\<rparr> \<lparr>queue = [] @ [], table = log_verdict_task None ''a'' 0 e []\<rparr>"
    by (meson converse_rtranclp_into_rtranclp r_into_rtranclp)
  moreover have "length (log_verdict_task None ''a'' 0 e []) = 1" by (simp add: log_verdict_task_def insert_verdict_def)
  ultimately show ?thesis by (metis log_state.select_convs(2))
qed

theorem stored_rows_genuine_witness:
  "\<exists>s r. (service_step demo_services (demo_pipeline all_stub_checkers) outcome_config_default)\<^sup>*\<^sup>* \<lparr>queue = [], table = []\<rparr> s \<and>
     table s = [r] \<and> genuine_row demo_services (demo_pipeline all_stub_checkers) r"
proof -
  obtain s where s: "(service_step demo_services (demo_pipeline all_stub_checkers) outcome_config_default)\<^sup>*\<^sup>* \<lparr>queue = [], table = []\<rparr> s"
    "length (table s) = 1" using demo_service_run by blast
  then obtain r where "table s = [r]" by (auto simp: length_Suc_conv)
  moreover have "log_start \<lparr>queue = [], table = []\<rparr>" by (simp add: log_start_def)
  ultimately show ?thesis using stored_rows_genuine [OF demo_keys _ s(1)] s(1) by auto
qed

theorem log_append_only_witness:
  "\<exists>s s'. (service_step demo_services (demo_pipeline all_stub_checkers) outcome_config_default)\<^sup>*\<^sup>* s s' \<and>
     s' = s\<lparr>table := snd (capture_cycle quiet_outside (int (from_secs 120)) outcome_config_default (table s))\<rparr> \<and>
     length (table s) = 1 \<and> row_entry (table s' ! 0) = row_entry (table s ! 0)"
proof -
  obtain s where s: "(service_step demo_services (demo_pipeline all_stub_checkers) outcome_config_default)\<^sup>*\<^sup>* \<lparr>queue = [], table = []\<rparr> s"
    "length (table s) = 1" using demo_service_run by blast
  let ?s = "s\<lparr>table := snd (capture_cycle quiet_outside (int (from_secs 120)) outcome_config_default (table s))\<rparr>"
  have "(service_step demo_services (demo_pipeline all_stub_checkers) outcome_config_default)\<^sup>*\<^sup>* s ?s"
    by (intro r_into_rtranclp service_step.capture)
  moreover have "log_start \<lparr>queue = [], table = []\<rparr>" by (simp add: log_start_def)
  ultimately show ?thesis using log_append_only [OF _ s(1)] s(2) by fastforce
qed

text \<open>A host without any configuration, two hours after the start.\<close>

definition bare_host :: "((pubkey, account) hashmap, transaction) host" where
  "bare_host =
     \<lparr>env = (\<lambda>v. None), read_file = (\<lambda>f. Inl ''none''), parse_byte_array = (\<lambda>b. Inl ''none''),
      connect = (\<lambda>u. ConnectTimedOut), migrate = Inr (), sysvar_ids = Pubkey, fresh_svm = [],
      host_services = demo_services, networks = (\<lambda>u i. empty_network), sim_time = 0, tracker_time = 0,
      first_update_time = 0\<rparr>"

lemma bare_host_starts:
  "start_server bare_host =
     Some \<lparr>rest_port = 8080, grpc_port = 50051,
       srv_pipeline = \<lparr>vp_fork = new_offline [], fork_poisoned = False, vp_checkers = all_stub_checkers,
         vp_signer = from_bytes (replicate 32 42), vp_staleness = build_staleness bare_host, vp_db = False,
         timeout_ms = DEFAULT_TIMEOUT_MS\<rparr>,
       capture_task = None\<rparr>"
proof -
  have "parse_u16 ''8080'' = Some 8080" "parse_u16 ''50051'' = Some 50051"
    by (simp_all add: parse_u16_def is_digit_def code_of_def)
  then show ?thesis
    by (simp add: start_server_def bare_host_def port_of_def build_fork_def fork_simulator_new_def rpc_urls_from_env_def
        build_signer_def init_database_def Let_def)
qed

theorem deployment_answers_witness:
  "\<exists>srv resp lg. start_server bare_host = Some srv \<and>
     evaluate_raw_tx demo_services id (srv_pipeline srv) (zero_timeline\<lparr>t_staleness := from_secs 7201\<rparr>) oracle_tx = Some (Inr (resp, lg)) \<and>
     resp_verdict resp = Timeout \<and> lg = None"
proof -
  let ?T = "zero_timeline\<lparr>t_staleness := from_secs 7201\<rparr>"
  obtain srv where srv: "start_server bare_host = Some srv" using bare_host_starts by simp
  obtain txh where "compute_tx_hash demo_services oracle_tx = Inr txh"
    by (simp add: compute_tx_hash_def demo_services_def toy_svm_def)
  moreover obtain tr where "execute_transaction (lite demo_services) (vp_fork (srv_pipeline srv)) oracle_tx = Inr tr"
    by (simp add: demo_services_def toy_svm_def execute_transaction_def Let_def)
  moreover have "t_staleness ?T - first_update_time bare_host = from_secs 7201" "env bare_host ''HELIUS_API_KEY'' = None"
    by (simp_all add: bare_host_def)
  ultimately show ?thesis
    using deployment_answers [OF srv, of demo_services oracle_tx txh tr id ?T] srv by (fastforce simp: from_secs_def)
qed

end
