(* ===== verification/Authority_Diff.thy ===== *)
theory Authority_Diff
  imports Checker_Core
begin

section \<open>The authority diff checker\<close>

text \<open>
  \<^verbatim>\<open>crates/ciel-checkers/src/authority_diff.rs\<close>: flags for authority-changing instructions in the call
  graph, with a severity from the kind of instruction, the stack height, a durable-nonce precursor,
  known protocols among the accounts, and the acknowledgement of an intent. The severity of a flag
  travels in a scratch field of the flag's JSON data and is stripped at the end.

  The lemmas show that the scratch field carries exactly the computed severity, and from that what
  the reported severity is and which call graphs it makes critical. \<open>U\<close> holds the Unicode tables.
\<close>

subsection \<open>Codes and discriminators\<close>

definition FLAG_SPL_SET_AUTHORITY_IN_CPI :: string where
  "FLAG_SPL_SET_AUTHORITY_IN_CPI = ''SPL_SET_AUTHORITY_IN_CPI''"
definition FLAG_SPL_CLOSE_ACCOUNT_IN_CPI :: string where
  "FLAG_SPL_CLOSE_ACCOUNT_IN_CPI = ''SPL_CLOSE_ACCOUNT_IN_CPI''"
definition FLAG_SPL_INIT_ACCOUNT_IN_CPI :: string where
  "FLAG_SPL_INIT_ACCOUNT_IN_CPI = ''SPL_INIT_ACCOUNT_IN_CPI''"
definition FLAG_BPF_UPGRADE_IN_CPI :: string where
  "FLAG_BPF_UPGRADE_IN_CPI = ''BPF_UPGRADE_IN_CPI''"
definition FLAG_BPF_SET_AUTHORITY_IN_CPI :: string where
  "FLAG_BPF_SET_AUTHORITY_IN_CPI = ''BPF_SET_AUTHORITY_IN_CPI''"
definition FLAG_BPF_CLOSE_IN_CPI :: string where
  "FLAG_BPF_CLOSE_IN_CPI = ''BPF_CLOSE_IN_CPI''"
definition FLAG_MULTISIG_ADMIN_HANDOFF_CANDIDATE :: string where
  "FLAG_MULTISIG_ADMIN_HANDOFF_CANDIDATE = ''MULTISIG_ADMIN_HANDOFF_CANDIDATE''"

definition SPL_TOKEN_DISC_INITIALIZE_ACCOUNT :: u8 where "SPL_TOKEN_DISC_INITIALIZE_ACCOUNT = 1"
definition SPL_TOKEN_DISC_SET_AUTHORITY :: u8 where "SPL_TOKEN_DISC_SET_AUTHORITY = 6"
definition SPL_TOKEN_DISC_CLOSE_ACCOUNT :: u8 where "SPL_TOKEN_DISC_CLOSE_ACCOUNT = 9"
definition SPL_TOKEN_DISC_INITIALIZE_ACCOUNT_2 :: u8 where "SPL_TOKEN_DISC_INITIALIZE_ACCOUNT_2 = 16"
definition SPL_TOKEN_DISC_INITIALIZE_ACCOUNT_3 :: u8 where "SPL_TOKEN_DISC_INITIALIZE_ACCOUNT_3 = 18"
definition BPF_DISC_UPGRADE :: u8 where "BPF_DISC_UPGRADE = 3"
definition BPF_DISC_SET_AUTHORITY :: u8 where "BPF_DISC_SET_AUTHORITY = 4"
definition BPF_DISC_CLOSE :: u8 where "BPF_DISC_CLOSE = 5"
definition BPF_DISC_SET_AUTHORITY_CHECKED :: u8 where "BPF_DISC_SET_AUTHORITY_CHECKED = 7"
definition SYSTEM_DISC_ADVANCE_NONCE_ACCOUNT :: u8 where "SYSTEM_DISC_ADVANCE_NONCE_ACCOUNT = 4"

subsection \<open>Matching a call\<close>

definition AUTHORITY_TYPE_NAMES :: "string list" where
  "AUTHORITY_TYPE_NAMES =
     [''MintTokens'', ''FreezeAccount'', ''AccountOwner'', ''CloseAccount'', ''TransferFeeConfig'',
      ''WithheldWithdraw'', ''CloseMint'', ''InterestRate'', ''PermanentDelegate'',
      ''ConfidentialTransferMint'', ''TransferHookProgramId'', ''ConfidentialTransferFeeConfig'',
      ''MetadataPointer'', ''GroupPointer'', ''GroupMemberPointer'', ''ScaledUiAmount'', ''Pause'',
      ''PermissionedBurn'']"

definition authority_type_name :: "u8 \<Rightarrow> string" where
  "authority_type_name b =
     (case get AUTHORITY_TYPE_NAMES (unat b) of
        Some n \<Rightarrow> n
      | None \<Rightarrow> ''Unknown('' @ show_nat (unat b) @ '')'')"

definition json_u8 :: "u8 \<Rightarrow> json" where "json_u8 b = JU64 (unat b)"

text \<open>The position suffix of the messages and the four fields every flag has.\<close>

definition call_position :: "cpi_call \<Rightarrow> string" where
  "call_position c =
     '' at instruction '' @ show_nat (instruction_index c) @ '', stack_height '' @ show_nat (unat (stack_height c))"

definition call_fields :: "cpi_call \<Rightarrow> pubkey option \<Rightarrow> (string \<times> json) list" where
  "call_fields c target =
     [(''instruction_index'', JU64 (instruction_index c)), (''stack_height'', json_u8 (stack_height c)),
      (''program_id'', JStr (pk_text (program_id c))),
      (''target_account'', json_opt (\<lambda>k. JStr (pk_text k)) target)]"

definition match_spl_token :: "cpi_call \<Rightarrow> flag option" where
  "match_spl_token c =
     (case first (cpi_data c) of
        None \<Rightarrow> None
      | Some disc \<Rightarrow>
          if disc = SPL_TOKEN_DISC_SET_AUTHORITY then
            (let authority_type = get (cpi_data c) 1
             in Some \<lparr>flag_code = FLAG_SPL_SET_AUTHORITY_IN_CPI,
                      flag_message = ''SPL Token SetAuthority'' @ call_position c,
                      flag_data = json_obj (call_fields c (first (cpi_accounts c)) @
                        [(''authority_type'', json_opt json_u8 authority_type),
                         (''authority_type_name'', json_opt (\<lambda>b. JStr (authority_type_name b)) authority_type)])\<rparr>)
          else if disc = SPL_TOKEN_DISC_CLOSE_ACCOUNT then
            Some \<lparr>flag_code = FLAG_SPL_CLOSE_ACCOUNT_IN_CPI,
                  flag_message = ''SPL Token CloseAccount'' @ call_position c,
                  flag_data = json_obj (call_fields c (first (cpi_accounts c)))\<rparr>
          else if disc = SPL_TOKEN_DISC_INITIALIZE_ACCOUNT \<or> disc = SPL_TOKEN_DISC_INITIALIZE_ACCOUNT_2 \<or>
                  disc = SPL_TOKEN_DISC_INITIALIZE_ACCOUNT_3 then
            Some \<lparr>flag_code = FLAG_SPL_INIT_ACCOUNT_IN_CPI,
                  flag_message = ''SPL Token InitializeAccount (disc '' @ show_nat (unat disc) @ '')'' @ call_position c,
                  flag_data = json_obj (call_fields c (first (cpi_accounts c)))\<rparr>
          else None)"

definition match_bpf_loader :: "cpi_call \<Rightarrow> flag option" where
  "match_bpf_loader c =
     (case first (cpi_data c) of
        None \<Rightarrow> None
      | Some disc \<Rightarrow>
          if disc = BPF_DISC_UPGRADE then
            Some \<lparr>flag_code = FLAG_BPF_UPGRADE_IN_CPI, flag_message = ''BPF Loader Upgrade'' @ call_position c,
                  flag_data = json_obj (call_fields c (get (cpi_accounts c) 1))\<rparr>
          else if disc = BPF_DISC_SET_AUTHORITY \<or> disc = BPF_DISC_SET_AUTHORITY_CHECKED then
            Some \<lparr>flag_code = FLAG_BPF_SET_AUTHORITY_IN_CPI,
                  flag_message = ''BPF Loader SetAuthority'' @
                    (if disc = BPF_DISC_SET_AUTHORITY_CHECKED then ''Checked'' else []) @ call_position c,
                  flag_data = json_obj (call_fields c (first (cpi_accounts c)) @
                    [(''checked'', JBool (disc = BPF_DISC_SET_AUTHORITY_CHECKED))])\<rparr>
          else if disc = BPF_DISC_CLOSE then
            Some \<lparr>flag_code = FLAG_BPF_CLOSE_IN_CPI, flag_message = ''BPF Loader Close'' @ call_position c,
                  flag_data = json_obj (call_fields c (first (cpi_accounts c)))\<rparr>
          else None)"

definition match_squads_proxy :: "cpi_call \<Rightarrow> program_registry \<Rightarrow> flag option" where
  "match_squads_proxy c reg =
     (case List.find (\<lambda>k. k \<noteq> SQUADS_V4_PROGRAM_ID \<and> is_known_protocol reg k \<noteq> None) (cpi_accounts c) of
        None \<Rightarrow> None
      | Some target \<Rightarrow>
          (case is_known_protocol reg target of
             None \<Rightarrow> None
           | Some protocol_name \<Rightarrow>
               Some \<lparr>flag_code = FLAG_MULTISIG_ADMIN_HANDOFF_CANDIDATE,
                     flag_message = ''Squads multisig CPI carries known protocol '' @ protocol_name @
                       '' in accounts at instruction '' @ show_nat (instruction_index c),
                     flag_data = json_obj (call_fields c (Some target) @
                       [(''target_protocol_name'', JStr protocol_name)])\<rparr>))"

definition match_call :: "cpi_call \<Rightarrow> program_registry \<Rightarrow> flag option" where
  "match_call c reg =
     (if program_id c = SPL_TOKEN_PROGRAM_ID \<or> program_id c = SPL_TOKEN_2022_PROGRAM_ID then match_spl_token c
      else if program_id c = BPF_LOADER_UPGRADEABLE_PROGRAM_ID then match_bpf_loader c
      else if program_id c = SQUADS_V4_PROGRAM_ID then match_squads_proxy c reg
      else None)"

subsection \<open>Severities\<close>

definition flag_severity :: "string \<Rightarrow> severity" where
  "flag_severity code =
     (if code = FLAG_SPL_SET_AUTHORITY_IN_CPI then High
      else if code = FLAG_SPL_CLOSE_ACCOUNT_IN_CPI then Medium
      else if code = FLAG_SPL_INIT_ACCOUNT_IN_CPI then Low
      else if code = FLAG_BPF_UPGRADE_IN_CPI then Critical
      else if code = FLAG_BPF_SET_AUTHORITY_IN_CPI then High
      else if code = FLAG_BPF_CLOSE_IN_CPI then High
      else if code = FLAG_MULTISIG_ADMIN_HANDOFF_CANDIDATE then Medium
      else Low)"

fun find_map :: "('a \<Rightarrow> 'b option) \<Rightarrow> 'a list \<Rightarrow> 'b option" where
  "find_map f [] = None"
| "find_map f (x # xs) = (case f x of Some y \<Rightarrow> Some y | None \<Rightarrow> find_map f xs)"

definition lookup_known_protocol_in_call :: "cpi_call \<Rightarrow> program_registry \<Rightarrow> string option" where
  "lookup_known_protocol_in_call c reg = find_map (is_known_protocol reg) (cpi_accounts c)"

definition severity_from_u8 :: "nat \<Rightarrow> severity" where
  "severity_from_u8 n =
     (if n = 0 then SevNone else if n = 1 then Low else if n = 2 then Medium else if n = 3 then High else Critical)"

definition shift_severity :: "severity \<Rightarrow> int \<Rightarrow> severity" where
  "shift_severity s delta = severity_from_u8 (nat (max 0 (min 4 (int (severity_u8 s) + delta))))"

definition shift_severity_with_floor :: "severity \<Rightarrow> int \<Rightarrow> severity \<Rightarrow> severity" where
  "shift_severity_with_floor s delta lo =
     (let shifted = shift_severity s delta
      in if severity_u8 shifted < severity_u8 lo then lo else shifted)"

definition modulate_by_stack_height :: "severity \<Rightarrow> u8 \<Rightarrow> severity" where
  "modulate_by_stack_height s h =
     (if h = 0 \<or> h = 1 then shift_severity_with_floor s (- 1) Low
      else if h = 2 then s else shift_severity s 1)"

definition recover_severity :: "json \<Rightarrow> severity" where
  "recover_severity d =
     (case Option.bind (json_get d ''computed_severity'') json_as_u64 of
        None \<Rightarrow> SevNone
      | Some n \<Rightarrow> severity_from_u8 (n mod 256))"

definition json_severity :: "severity \<Rightarrow> json" where "json_severity s = JU64 (severity_u8 s)"

definition has_durable_nonce_precursor :: "checker_context \<Rightarrow> bool" where
  "has_durable_nonce_precursor ctx =
     (case first (instructions (original_tx ctx)) of
        None \<Rightarrow> False
      | Some ix \<Rightarrow>
          (case get (account_keys (original_tx ctx)) (unat (program_id_index ix)) of
             None \<Rightarrow> False
           | Some pid \<Rightarrow>
               pid = system_program_id \<and> first (ci_data ix) = Some SYSTEM_DISC_ADVANCE_NONCE_ACCOUNT))"

subsection \<open>Intent acknowledgement\<close>

definition tokenize_lowercase :: "unicode \<Rightarrow> string \<Rightarrow> string list" where
  "tokenize_lowercase U text =
     split_whitespace U
       (concat (map (\<lambda>ch. if is_alphanumeric U ch then to_ascii_lowercase ch else '' '') (utf8_chars text)))"

definition all_tokens_present :: "unicode \<Rightarrow> string \<Rightarrow> string list \<Rightarrow> bool" where
  "all_tokens_present U keyword tokens =
     list_all (\<lambda>r. r \<in> set tokens) (map to_ascii_lowercase (split_whitespace U keyword))"

definition keywords_for :: "string \<Rightarrow> string list" where
  "keywords_for code =
     (if code = FLAG_SPL_SET_AUTHORITY_IN_CPI \<or> code = FLAG_BPF_SET_AUTHORITY_IN_CPI then
        [''set authority'', ''setauthority'', ''authority change'', ''transfer authority'',
         ''update admin'', ''updateadmin'', ''rotate authority'', ''change authority'']
      else if code = FLAG_BPF_UPGRADE_IN_CPI then [''upgrade'', ''deploy'', ''redeploy'']
      else if code = FLAG_SPL_CLOSE_ACCOUNT_IN_CPI \<or> code = FLAG_BPF_CLOSE_IN_CPI then
        [''close account'', ''close'']
      else if code = FLAG_SPL_INIT_ACCOUNT_IN_CPI then [''initialize'', ''init account'', ''create account'']
      else if code = FLAG_MULTISIG_ADMIN_HANDOFF_CANDIDATE then
        [''multisig'', ''squads'', ''governance proposal'']
      else [])"

definition intent_acknowledges :: "unicode \<Rightarrow> intent \<Rightarrow> string \<Rightarrow> bool" where
  "intent_acknowledges U i code =
     (let tokens = tokenize_lowercase U (join '' '' (description i # constraints i))
      in list_ex (\<lambda>kw. all_tokens_present U kw tokens) (keywords_for code))"

subsection \<open>The check\<close>

text \<open>The severity of a matched call, before any intent.\<close>

definition call_severity :: "bool \<Rightarrow> string option \<Rightarrow> u8 \<Rightarrow> string \<Rightarrow> severity" where
  "call_severity nonce known height code =
     (let s0 = flag_severity code;
          s1 = (if known \<noteq> None then Critical else s0);
          s2 = modulate_by_stack_height s1 height
      in if nonce then shift_severity s2 1 else s2)"

definition flag_call :: "bool \<Rightarrow> program_registry \<Rightarrow> cpi_call \<Rightarrow> flag option" where
  "flag_call nonce reg c =
     map_option (\<lambda>f.
       let known = lookup_known_protocol_in_call c reg;
           d1 = (case known of Some n \<Rightarrow> json_set ''known_protocol_name'' (JStr n) (flag_data f) | None \<Rightarrow> flag_data f);
           d2 = (if nonce then json_set ''durable_nonce_precursor'' (JBool True) d1 else d1);
           d3 = json_set ''computed_severity''
                  (json_severity (call_severity nonce known (stack_height c) (flag_code f))) d2
       in f\<lparr>flag_data := d3\<rparr>) (match_call c reg)"

definition acknowledge_flag :: "unicode \<Rightarrow> intent \<Rightarrow> flag \<Rightarrow> flag" where
  "acknowledge_flag U i f =
     (if intent_acknowledges U i (flag_code f) then
        (let known = (case json_get (flag_data f) ''known_protocol_name'' of None \<Rightarrow> False | Some v \<Rightarrow> v \<noteq> JNull);
             lo = (if known then High else Low);
             lowered = shift_severity_with_floor (recover_severity (flag_data f)) (- 1) lo
         in f\<lparr>flag_data := json_set ''intent_ack'' (JBool True)
                (json_set ''computed_severity'' (json_severity lowered) (flag_data f))\<rparr>)
      else f)"

definition authority_passed_output :: checker_output where
  "authority_passed_output =
     \<lparr>checker_name = ''authority_diff'', passed = True, out_severity = SevNone, flags = [],
      details = ''No authority-change instructions detected''\<rparr>"

definition authority_flags :: "unicode \<Rightarrow> checker_context \<Rightarrow> flag list" where
  "authority_flags U ctx =
     (let fs = List.map_filter (flag_call (has_durable_nonce_precursor ctx) (known_programs ctx))
                 (cpi_graph (ctx_trace ctx))
      in case ctx_intent ctx of None \<Rightarrow> fs | Some i \<Rightarrow> map (acknowledge_flag U i) fs)"

definition authority_check :: "unicode \<Rightarrow> checker_context \<Rightarrow> checker_output" where
  "authority_check U ctx =
     (if cpi_graph (ctx_trace ctx) = [] then authority_passed_output
      else let fs = authority_flags U ctx;
               sev = fold max (map (\<lambda>f. recover_severity (flag_data f)) fs) SevNone;
               out = map (\<lambda>f. f\<lparr>flag_data := json_remove ''computed_severity'' (flag_data f)\<rparr>) fs
           in \<lparr>checker_name = ''authority_diff'', passed = (out = []), out_severity = sev, flags = out,
               details = (if out = [] then ''No authority-change instructions detected''
                          else show_nat (length out) @ '' authority-change instruction(s) detected'')\<rparr>)"

definition authority_diff_checker :: "unicode \<Rightarrow> checker" where
  "authority_diff_checker U =
     \<lparr>name = ''authority_diff'', check = authority_check U, ready_after = (\<lambda>ctx. None)\<rparr>"

subsection \<open>The scratch field carries the severity\<close>

lemma severity_from_u8_u8 [simp]: "severity_from_u8 (severity_u8 s) = s"
  by (cases s) (simp_all add: severity_from_u8_def)

lemma severity_u8_less: "severity_u8 s < 256"
  by (cases s) simp_all

lemma recover_set [simp]: "recover_severity (json_set ''computed_severity'' (json_severity s) (JObj m)) = s"
  using severity_u8_less [of s]
  by (simp add: recover_severity_def json_severity_def lookup_bt_insert)

lemma match_call_object:
  assumes "match_call c reg = Some f"
  shows "\<exists>m. flag_data f = JObj m \<and> map_of m ''known_protocol_name'' = None"
proof -
  have "\<exists>kvs. flag_data f = json_obj kvs \<and> map_of (rev kvs) ''known_protocol_name'' = None"
    using assms
    by (auto simp: match_call_def match_spl_token_def match_bpf_loader_def match_squads_proxy_def
        call_fields_def Let_def split: if_splits option.splits)
  then show ?thesis by (metis json_get.simps(1) json_get_obj json_obj_def)
qed

text \<open>What a flag is after the first pass: severity, acknowledgeable code, and known protocol.\<close>

lemma flag_call_Some:
  assumes "flag_call nonce reg c = Some f"
  shows "\<exists>g m. match_call c reg = Some g \<and> flag_code f = flag_code g \<and> flag_data f = JObj m \<and>
    recover_severity (flag_data f) =
      call_severity nonce (lookup_known_protocol_in_call c reg) (stack_height c) (flag_code f) \<and>
    (map_of m ''known_protocol_name'' = map_option JStr (lookup_known_protocol_in_call c reg))"
proof -
  obtain g where g: "match_call c reg = Some g" using assms by (auto simp: flag_call_def)
  then obtain m where m: "flag_data g = JObj m" "map_of m ''known_protocol_name'' = None"
    using match_call_object by blast
  show ?thesis
    using assms g m
    by (cases "lookup_known_protocol_in_call c reg")
      (auto simp: flag_call_def Let_def lookup_bt_insert recover_set [simplified])
qed

lemma flag_call_None: "flag_call nonce reg c = None \<longleftrightarrow> match_call c reg = None"
  by (simp add: flag_call_def)

text \<open>The severity with which a call enters the result, with the intent's acknowledgement.\<close>

definition reported_severity :: "unicode \<Rightarrow> checker_context \<Rightarrow> cpi_call \<Rightarrow> flag \<Rightarrow> severity" where
  "reported_severity U ctx c f =
     (let known = lookup_known_protocol_in_call c (known_programs ctx);
          s = call_severity (has_durable_nonce_precursor ctx) known (stack_height c) (flag_code f)
      in case ctx_intent ctx of
           None \<Rightarrow> s
         | Some i \<Rightarrow>
             if intent_acknowledges U i (flag_code f)
             then shift_severity_with_floor s (- 1) (if known \<noteq> None then High else Low) else s)"

lemma acknowledge_recover:
  assumes "flag_call nonce reg c = Some f"
  shows "recover_severity (flag_data (acknowledge_flag U i f)) =
    (if intent_acknowledges U i (flag_code f)
     then shift_severity_with_floor (recover_severity (flag_data f)) (- 1)
            (if lookup_known_protocol_in_call c reg \<noteq> None then High else Low)
     else recover_severity (flag_data f))"
proof -
  obtain m where m: "flag_data f = JObj m"
      "map_of m ''known_protocol_name'' = map_option JStr (lookup_known_protocol_in_call c reg)"
    using flag_call_Some [OF assms] by auto
  have "recover_severity (json_set ''intent_ack'' v (json_set ''computed_severity'' (json_severity s) (JObj m))) = s" for v s
    using severity_u8_less [of s] by (simp add: recover_severity_def json_severity_def lookup_bt_insert)
  then show ?thesis
    using m by (auto simp: acknowledge_flag_def Let_def split: option.splits)
qed

lemma authority_flags_conv:
  "map (\<lambda>f. recover_severity (flag_data f)) (authority_flags U ctx) =
     map (\<lambda>(c, f). reported_severity U ctx c f)
       (List.map_filter (\<lambda>c. map_option (Pair c) (match_call c (known_programs ctx))) (cpi_graph (ctx_trace ctx)))"
proof -
  let ?n = "has_durable_nonce_precursor ctx" and ?reg = "known_programs ctx"
  have "map (\<lambda>f. recover_severity (flag_data (case ctx_intent ctx of None \<Rightarrow> f | Some i \<Rightarrow> acknowledge_flag U i f)))
          (List.map_filter (flag_call ?n ?reg) cs) =
        map (\<lambda>(c, f). reported_severity U ctx c f)
          (List.map_filter (\<lambda>c. map_option (Pair c) (match_call c ?reg)) cs)" for cs
  proof (induction cs)
    case (Cons c cs)
    show ?case
    proof (cases "flag_call ?n ?reg c")
      case None
      then show ?thesis using Cons flag_call_None [of ?n ?reg c] by (simp add: map_filter_simps)
    next
      case (Some f)
      obtain g where g: "match_call c ?reg = Some g" "flag_code f = flag_code g"
          "recover_severity (flag_data f) = call_severity ?n (lookup_known_protocol_in_call c ?reg) (stack_height c) (flag_code f)"
        using flag_call_Some [OF Some] by auto
      have "recover_severity (flag_data (case ctx_intent ctx of None \<Rightarrow> f | Some i \<Rightarrow> acknowledge_flag U i f)) =
          reported_severity U ctx c g"
        using acknowledge_recover [OF Some, of U] g(2,3) by (auto simp: reported_severity_def Let_def split: option.splits)
      then show ?thesis using Cons Some g(1) by (simp add: map_filter_simps)
    qed
  qed (simp add: map_filter_simps)
  from this [of "cpi_graph (ctx_trace ctx)"] show ?thesis
    by (cases "ctx_intent ctx") (simp_all add: authority_flags_def Let_def comp_def)
qed

text \<open>The calls that match, with their flags, in the order of the graph.\<close>

definition matched_calls :: "checker_context \<Rightarrow> (cpi_call \<times> flag) list" where
  "matched_calls ctx =
     List.map_filter (\<lambda>c. map_option (Pair c) (match_call c (known_programs ctx))) (cpi_graph (ctx_trace ctx))"

lemma matched_calls_iff:
  "(c, f) \<in> set (matched_calls ctx) \<longleftrightarrow>
     c \<in> set (cpi_graph (ctx_trace ctx)) \<and> match_call c (known_programs ctx) = Some f"
  by (force simp: matched_calls_def List.map_filter_def image_iff)

lemma authority_severity:
  "out_severity (authority_check U ctx) =
     Max (insert SevNone ((\<lambda>(c, f). reported_severity U ctx c f) ` set (matched_calls ctx)))"
proof -
  have "set (map (\<lambda>f. recover_severity (flag_data f)) (authority_flags U ctx)) =
      (\<lambda>(c, f). reported_severity U ctx c f) ` set (matched_calls ctx)"
    unfolding authority_flags_conv matched_calls_def by simp
  then have "fold max (map (\<lambda>f. recover_severity (flag_data f)) (authority_flags U ctx)) SevNone =
      Max (insert SevNone ((\<lambda>(c, f). reported_severity U ctx c f) ` set (matched_calls ctx)))"
    by (simp only: fold_max_Max)
  then show ?thesis
    by (auto simp: authority_check_def authority_passed_output_def matched_calls_def Let_def map_filter_simps)
qed

lemma length_authority_flags: "length (authority_flags U ctx) = length (matched_calls ctx)"
  using arg_cong [OF authority_flags_conv, of length U ctx] by (simp add: matched_calls_def)

lemma reported_le_severity:
  "(c, f) \<in> set (matched_calls ctx) \<Longrightarrow> reported_severity U ctx c f \<le> out_severity (authority_check U ctx)"
  unfolding authority_severity by (rule Max_ge) auto

lemma severity_attained:
  "out_severity (authority_check U ctx) = SevNone \<or>
   (\<exists>(c, f) \<in> set (matched_calls ctx). out_severity (authority_check U ctx) = reported_severity U ctx c f)"
proof -
  have "out_severity (authority_check U ctx) \<in>
      insert SevNone ((\<lambda>(c, f). reported_severity U ctx c f) ` set (matched_calls ctx))"
    unfolding authority_severity by (rule Max_in) auto
  then show ?thesis by auto
qed

subsection \<open>Severity arithmetic\<close>

lemma shift_severity_simps [simp]:
  "shift_severity Critical 1 = Critical" "shift_severity High 1 = Critical"
  "shift_severity_with_floor Critical (- 1) Low = High"
  by (simp_all add: shift_severity_def shift_severity_with_floor_def severity_from_u8_def)

lemma call_severity_critical:
  assumes "known \<noteq> None \<or> code = FLAG_BPF_UPGRADE_IN_CPI" "nonce \<or> h \<noteq> 0 \<and> h \<noteq> 1"
  shows "call_severity nonce known h code = Critical"
proof -
  have "flag_severity FLAG_BPF_UPGRADE_IN_CPI = Critical"
    by (simp add: flag_severity_def FLAG_SPL_SET_AUTHORITY_IN_CPI_def FLAG_SPL_CLOSE_ACCOUNT_IN_CPI_def
        FLAG_SPL_INIT_ACCOUNT_IN_CPI_def FLAG_BPF_UPGRADE_IN_CPI_def)
  then show ?thesis using assms by (auto simp: call_severity_def modulate_by_stack_height_def Let_def)
qed

lemma call_severity_top_level:
  assumes "\<not> nonce" "h = 0 \<or> h = 1"
  shows "call_severity nonce known h code < Critical"
proof -
  have "shift_severity_with_floor s (- 1) Low < Critical" for s
    by (cases s) (simp_all add: shift_severity_with_floor_def shift_severity_def severity_from_u8_def less_severity_def)
  then show ?thesis using assms by (auto simp: call_severity_def modulate_by_stack_height_def Let_def)
qed

lemma call_severity_known:
  "known \<noteq> None \<Longrightarrow> High \<le> call_severity nonce known h code"
  by (auto simp: call_severity_def modulate_by_stack_height_def Let_def)

lemma floor_shift_bounds:
  "severity_u8 s \<le> severity_u8 (shift_severity_with_floor s (- 1) lo) + 1"
  "lo \<le> shift_severity_with_floor s (- 1) lo"
  by (cases s; cases lo; simp add: shift_severity_with_floor_def shift_severity_def severity_from_u8_def less_eq_severity_def)+

lemma hidden_change_critical:
  assumes "ctx_intent ctx = None" "c \<in> set (cpi_graph (ctx_trace ctx))"
    and "match_call c (known_programs ctx) = Some f"
    and "lookup_known_protocol_in_call c (known_programs ctx) \<noteq> None \<or> flag_code f = FLAG_BPF_UPGRADE_IN_CPI"
    and "has_durable_nonce_precursor ctx \<or> stack_height c \<noteq> 0 \<and> stack_height c \<noteq> 1"
  shows "out_severity (authority_check U ctx) = Critical \<and> \<not> passed (authority_check U ctx)"
proof
  have m: "(c, f) \<in> set (matched_calls ctx)" using assms(2,3) by (simp add: matched_calls_iff)
  have "reported_severity U ctx c f = Critical"
    using call_severity_critical [OF assms(4,5)] assms(1) by (simp add: reported_severity_def)
  then show "out_severity (authority_check U ctx) = Critical"
    using reported_le_severity [OF m, of U] by simp
  have "authority_flags U ctx \<noteq> []" using length_authority_flags [of U ctx] m by auto
  then show "\<not> passed (authority_check U ctx)" using assms(2) by (auto simp: authority_check_def Let_def)
qed

text \<open>A hidden authority change is reported as critical. If, without an intent, the call graph holds a
  matched call that upgrades a program or touches an account of a known protocol, and the call is
  nested (a CPI) or the transaction starts by advancing a durable nonce, then the checker fails with
  critical severity; the shape of the Drift handoff is such a call.\<close>

theorem hidden_authority_change_critical:
  assumes "ctx_intent ctx = None" "c \<in> set (cpi_graph (ctx_trace ctx))"
    and "match_call c (known_programs ctx) = Some f"
    and "lookup_known_protocol_in_call c (known_programs ctx) \<noteq> None \<or> flag_code f = FLAG_BPF_UPGRADE_IN_CPI"
    and "has_durable_nonce_precursor ctx \<or> stack_height c \<noteq> 0 \<and> stack_height c \<noteq> 1"
  shows "out_severity (authority_check U ctx) = Critical \<and> \<not> passed (authority_check U ctx)"
  using hidden_change_critical [OF assms] .

text \<open>Calls the user signed directly are never critical by themselves: without a durable-nonce
  precursor, a graph with only top-level calls gets at most a high severity, even for a program
  upgrade or a known protocol.\<close>

theorem top_level_calls_not_critical:
  assumes "\<not> has_durable_nonce_precursor ctx" "\<forall>c \<in> set (cpi_graph (ctx_trace ctx)). stack_height c \<le> 1"
  shows "out_severity (authority_check U ctx) < Critical"
proof -
  have h: "h = 0 \<or> h = 1" if "h \<le> 1" for h :: u8
    using that by (metis antisym_conv2 word_less_1)
  have "reported_severity U ctx c f < Critical" if cf: "(c, f) \<in> set (matched_calls ctx)" for c f
  proof -
    have "call_severity (has_durable_nonce_precursor ctx) known (stack_height c) (flag_code f) < Critical" for known
      using call_severity_top_level assms cf h by (simp add: matched_calls_iff)
    moreover have "shift_severity_with_floor s (- 1) lo < Critical" if "s < Critical" "lo < Critical" for s lo
      using that by (cases s; cases lo)
        (simp_all add: shift_severity_with_floor_def shift_severity_def severity_from_u8_def less_severity_def)
    ultimately show ?thesis
      by (auto simp: reported_severity_def Let_def less_severity_def split: option.splits)
  qed
  then show ?thesis using severity_attained [of U ctx] by (fastforce simp: less_severity_def)
qed

text \<open>C25: An intent can soften a finding but not silence it. For any intent the checker reports as many
  flags as without it, fails as without it, and its severity is at most one level lower; when the
  account of a known protocol is involved it stays high or critical.\<close>

theorem intent_softens_one_level:
  assumes "ctx' = ctx\<lparr>ctx_intent := None\<rparr>"
  shows "length (flags (authority_check U ctx)) = length (flags (authority_check U ctx')) \<and>
    passed (authority_check U ctx) = passed (authority_check U ctx') \<and>
    severity_u8 (out_severity (authority_check U ctx')) \<le> severity_u8 (out_severity (authority_check U ctx)) + 1 \<and>
    (\<forall>c f. (c, f) \<in> set (matched_calls ctx) \<and> lookup_known_protocol_in_call c (known_programs ctx) \<noteq> None \<longrightarrow>
       High \<le> out_severity (authority_check U ctx))"
proof (intro conjI allI impI)
  have m: "matched_calls ctx' = matched_calls ctx" using assms by (simp add: matched_calls_def)
  have l: "length (authority_flags U ctx) = length (authority_flags U ctx')" by (simp add: length_authority_flags m)
  then show "length (flags (authority_check U ctx)) = length (flags (authority_check U ctx'))"
    using assms by (simp add: authority_check_def authority_passed_output_def Let_def)
  have "authority_flags U ctx = [] \<longleftrightarrow> authority_flags U ctx' = []" using l by (metis length_0_conv)
  then show "passed (authority_check U ctx) = passed (authority_check U ctx')"
    using assms by (simp add: authority_check_def authority_passed_output_def Let_def)
  have step: "severity_u8 (reported_severity U ctx' c f) \<le> severity_u8 (reported_severity U ctx c f) + 1" for c f
    using assms floor_shift_bounds(1)
    by (auto simp: reported_severity_def Let_def has_durable_nonce_precursor_def split: option.splits)
  show "severity_u8 (out_severity (authority_check U ctx')) \<le> severity_u8 (out_severity (authority_check U ctx)) + 1"
    using severity_attained [of U ctx']
  proof (elim disjE bexE)
    fix cf assume cf: "cf \<in> set (matched_calls ctx')" "case cf of (c, f) \<Rightarrow> out_severity (authority_check U ctx') = reported_severity U ctx' c f"
    obtain c f where "cf = (c, f)" by (cases cf)
    then have "(c, f) \<in> set (matched_calls ctx)" "out_severity (authority_check U ctx') = reported_severity U ctx' c f"
      using cf m by auto
    then show ?thesis using step [of c f] reported_le_severity [of c f ctx U] by (simp add: less_eq_severity_def)
  qed simp
  fix c f assume k: "(c, f) \<in> set (matched_calls ctx) \<and> lookup_known_protocol_in_call c (known_programs ctx) \<noteq> None"
  let ?s = "call_severity (has_durable_nonce_precursor ctx) (lookup_known_protocol_in_call c (known_programs ctx))
      (stack_height c) (flag_code f)"
  have "High \<le> ?s" using call_severity_known k by blast
  then have "High \<le> reported_severity U ctx c f"
    using k floor_shift_bounds(2) [of High ?s]
    by (simp add: reported_severity_def Let_def del: severity_le_simps split: option.splits)
  then show "High \<le> out_severity (authority_check U ctx)"
    using reported_le_severity [of c f ctx U] k by (blast intro: order_trans)
qed

subsection \<open>The shape of the Drift handoff\<close>

text \<open>An advanced nonce, then a top-level Squads call that carries the Drift program.\<close>

definition handoff_tx :: transaction where
  "handoff_tx =
     \<lparr>signatures = [], message_header = (1, 0, 3),
      account_keys = [system_program_id, SQUADS_V4_PROGRAM_ID, DRIFT_V2_PROGRAM_ID], recent_blockhash = [],
      instructions = [\<lparr>program_id_index = 0, ci_accounts = [], ci_data = [4, 0, 0, 0]\<rparr>,
                      \<lparr>program_id_index = 1, ci_accounts = [2], ci_data = []\<rparr>]\<rparr>"

definition squads_call :: cpi_call where
  "squads_call =
     \<lparr>program_id = SQUADS_V4_PROGRAM_ID, instruction_index = 1, stack_height = 1,
      cpi_accounts = [DRIFT_V2_PROGRAM_ID], cpi_data = []\<rparr>"

definition trace_of :: "cpi_call list \<Rightarrow> simulation_trace" where
  "trace_of cs =
     \<lparr>success = False, trace_error = None, balance_deltas = [], cpi_graph = cs, account_changes = [], logs = [],
      oracle_reads = [], token_approvals = [], token_balance_deltas = [], compute_units_consumed = 0, fee = 0\<rparr>"

definition context_of :: "transaction \<Rightarrow> cpi_call list \<Rightarrow> checker_context" where
  "context_of tx cs =
     \<lparr>ctx_trace = trace_of cs, original_tx = tx, ctx_intent = None, ctx_slot = 0,
      ctx_oracle_cache = oracle_cache_default, known_programs = with_mainnet_defaults\<rparr>"

lemma squads_distinct [simp]:
  "DRIFT_V2_PROGRAM_ID \<noteq> SQUADS_V4_PROGRAM_ID" "SQUADS_V4_PROGRAM_ID \<noteq> SPL_TOKEN_PROGRAM_ID"
  "SQUADS_V4_PROGRAM_ID \<noteq> SPL_TOKEN_2022_PROGRAM_ID" "SQUADS_V4_PROGRAM_ID \<noteq> BPF_LOADER_UPGRADEABLE_PROGRAM_ID"
  by (simp_all add: program_ids)

lemma squads_call_facts:
  "\<exists>f. match_call squads_call with_mainnet_defaults = Some f"
  "lookup_known_protocol_in_call squads_call with_mainnet_defaults = Some ''Drift v2''"
  by (simp_all add: squads_call_def match_call_def match_squads_proxy_def lookup_known_protocol_in_call_def)

lemma handoff_nonce: "has_durable_nonce_precursor (context_of handoff_tx cs)"
  by (simp add: has_durable_nonce_precursor_def context_of_def handoff_tx_def get_def
      SYSTEM_DISC_ADVANCE_NONCE_ACCOUNT_def)

definition ascii_tables :: unicode where
  "ascii_tables = \<lparr>u_alphanumeric = (\<lambda>c. False), u_whitespace = (\<lambda>c. False), u_to_lowercase = id, u_to_uppercase = id\<rparr>"

theorem hidden_authority_change_critical_witness:
  "out_severity (authority_check ascii_tables (context_of handoff_tx [squads_call])) = Critical"
proof -
  obtain f where f: "match_call squads_call with_mainnet_defaults = Some f" using squads_call_facts(1) by blast
  have kp: "known_programs (context_of handoff_tx [squads_call]) = with_mainnet_defaults"
    "ctx_intent (context_of handoff_tx [squads_call]) = None"
    "squads_call \<in> set (cpi_graph (ctx_trace (context_of handoff_tx [squads_call])))"
    by (simp_all add: context_of_def trace_of_def)
  have "match_call squads_call (known_programs (context_of handoff_tx [squads_call])) = Some f"
    "lookup_known_protocol_in_call squads_call (known_programs (context_of handoff_tx [squads_call])) \<noteq> None \<or>
       flag_code f = FLAG_BPF_UPGRADE_IN_CPI"
    using f squads_call_facts(2) kp by simp_all
  from hidden_authority_change_critical [OF kp(2,3) this, of ascii_tables] show ?thesis
    using handoff_nonce by blast
qed

theorem top_level_calls_not_critical_witness:
  "\<not> has_durable_nonce_precursor (context_of (handoff_tx\<lparr>instructions := []\<rparr>) [squads_call]) \<and>
   out_severity (authority_check ascii_tables (context_of (handoff_tx\<lparr>instructions := []\<rparr>) [squads_call])) < Critical"
proof -
  have 1: "\<not> has_durable_nonce_precursor (context_of (handoff_tx\<lparr>instructions := []\<rparr>) [squads_call])"
    by (simp add: has_durable_nonce_precursor_def context_of_def)
  have "\<forall>c \<in> set (cpi_graph (ctx_trace (context_of (handoff_tx\<lparr>instructions := []\<rparr>) [squads_call]))). stack_height c \<le> 1"
    by (simp add: context_of_def trace_of_def squads_call_def)
  from top_level_calls_not_critical [OF 1 this] 1 show ?thesis by blast
qed

theorem intent_softens_one_level_witness:
  "High \<le> out_severity (authority_check ascii_tables
     ((context_of handoff_tx [squads_call])\<lparr>ctx_intent := Some \<lparr>description = ''squads multisig'', constraints = [], spec = None\<rparr>\<rparr>))"
proof -
  let ?ctx = "(context_of handoff_tx [squads_call])\<lparr>ctx_intent := Some \<lparr>description = ''squads multisig'', constraints = [], spec = None\<rparr>\<rparr>"
  obtain f where "(squads_call, f) \<in> set (matched_calls ?ctx)"
    using squads_call_facts(1) by (auto simp: matched_calls_iff context_of_def trace_of_def)
  moreover have "lookup_known_protocol_in_call squads_call (known_programs ?ctx) \<noteq> None"
    using squads_call_facts(2) by (simp add: context_of_def)
  ultimately show ?thesis using intent_softens_one_level [OF refl, of ascii_tables ?ctx] by blast
qed

end
