(* ===== verification/Approval_Abuse.thy ===== *)
theory Approval_Abuse
  imports Authority_Diff Executor
begin

section \<open>The approval abuse checker\<close>

text \<open>
  \<^verbatim>\<open>crates/ciel-checkers/src/approval_abuse.rs\<close>: unlimited token approvals to delegates outside the
  registry, unless a later call of the graph revokes them. The lemmas characterise the flagged
  calls by position; a run on a graph of the executor shows where the order of the graph is not
  the order of execution.
\<close>

definition FLAG_UNLIMITED_APPROVAL_UNKNOWN_PROGRAM :: string where
  "FLAG_UNLIMITED_APPROVAL_UNKNOWN_PROGRAM = ''UNLIMITED_APPROVAL_UNKNOWN_PROGRAM''"

definition SPL_TOKEN_DISC_APPROVE :: u8 where "SPL_TOKEN_DISC_APPROVE = 4"
definition SPL_TOKEN_DISC_REVOKE :: u8 where "SPL_TOKEN_DISC_REVOKE = 5"
definition SPL_TOKEN_DISC_APPROVE_CHECKED :: u8 where "SPL_TOKEN_DISC_APPROVE_CHECKED = 13"

record approve_candidate =
  cand_disc :: u8
  cand_source :: pubkey
  cand_delegate :: pubkey
  cand_owner :: "pubkey option"
  cand_mint :: "pubkey option"
  spl_program_name :: string

definition parse_amount_u64_le :: "bytes \<Rightarrow> u64 option" where
  "parse_amount_u64_le d = (if 9 \<le> length d then Some (of_nat (le_nat (take 8 (drop 1 d)))) else None)"

definition approve_operands ::
    "u8 \<Rightarrow> cpi_call \<Rightarrow> (u64 \<times> pubkey \<times> pubkey \<times> pubkey option \<times> pubkey option) option" where
  "approve_operands disc c =
     (if disc = SPL_TOKEN_DISC_APPROVE then
        Option.bind (parse_amount_u64_le (cpi_data c)) (\<lambda>amount.
        Option.bind (first (cpi_accounts c)) (\<lambda>src.
        Option.bind (get (cpi_accounts c) 1) (\<lambda>delegate.
        Some (amount, src, delegate, get (cpi_accounts c) 2, None))))
      else if disc = SPL_TOKEN_DISC_APPROVE_CHECKED then
        Option.bind (parse_amount_u64_le (cpi_data c)) (\<lambda>amount.
        Option.bind (first (cpi_accounts c)) (\<lambda>src.
        Option.bind (get (cpi_accounts c) 2) (\<lambda>delegate.
        Some (amount, src, delegate, get (cpi_accounts c) 3, get (cpi_accounts c) 1))))
      else None)"

definition inspect_approve :: "cpi_call \<Rightarrow> program_registry \<Rightarrow> approve_candidate option" where
  "inspect_approve c reg =
     Option.bind (if program_id c = SPL_TOKEN_PROGRAM_ID then Some ''SPL Token''
                  else if program_id c = SPL_TOKEN_2022_PROGRAM_ID then Some ''SPL Token-2022'' else None) (\<lambda>nm.
     Option.bind (first (cpi_data c)) (\<lambda>disc.
     Option.bind (approve_operands disc c) (\<lambda>(amount, src, delegate, owner, mint).
     if amount \<noteq> - 1 then None
     else if is_known_protocol reg delegate \<noteq> None then None
     else Some \<lparr>cand_disc = disc, cand_source = src, cand_delegate = delegate, cand_owner = owner,
                cand_mint = mint, spl_program_name = nm\<rparr>)))"

definition is_revoke :: "pubkey \<Rightarrow> cpi_call \<Rightarrow> bool" where
  "is_revoke src c \<longleftrightarrow>
     (program_id c = SPL_TOKEN_PROGRAM_ID \<or> program_id c = SPL_TOKEN_2022_PROGRAM_ID) \<and>
     first (cpi_data c) = Some SPL_TOKEN_DISC_REVOKE \<and> first (cpi_accounts c) = Some src"

definition revoked_after :: "cpi_call list \<Rightarrow> nat \<Rightarrow> pubkey \<Rightarrow> bool" where
  "revoked_after graph approve_idx src = list_ex (is_revoke src) (drop (approve_idx + 1) graph)"

definition build_flag :: "cpi_call \<Rightarrow> approve_candidate \<Rightarrow> flag" where
  "build_flag call c =
     \<lparr>flag_code = FLAG_UNLIMITED_APPROVAL_UNKNOWN_PROGRAM,
      flag_message = ''Unlimited token approval granted to unrecognized program '' @ pk_text (cand_delegate c) @
        '' at instruction '' @ show_nat (instruction_index call) @ '', stack_height '' @
        show_nat (unat (stack_height call)),
      flag_data = json_obj
        [(''token_mint'', json_opt (\<lambda>k. JStr (pk_text k)) (cand_mint c)),
         (''delegate'', JStr (pk_text (cand_delegate c))),
         (''amount'', JStr (show_nat (unat (- 1 :: u64)))),
         (''in_known_registry'', JBool False),
         (''source_token_account'', JStr (pk_text (cand_source c))),
         (''owner'', json_opt (\<lambda>k. JStr (pk_text k)) (cand_owner c)),
         (''instruction_index'', JU64 (instruction_index call)),
         (''stack_height'', json_u8 (stack_height call)),
         (''via_cpi'', JBool (2 \<le> stack_height call)),
         (''spl_program_name'', JStr (spl_program_name c)),
         (''discriminator'', json_u8 (cand_disc c))]\<rparr>"

definition approval_flag :: "program_registry \<Rightarrow> cpi_call list \<Rightarrow> nat \<times> cpi_call \<Rightarrow> flag option" where
  "approval_flag reg graph ic =
     (case inspect_approve (snd ic) reg of
        None \<Rightarrow> None
      | Some cand \<Rightarrow>
          if revoked_after graph (fst ic) (cand_source cand) then None else Some (build_flag (snd ic) cand))"

definition approval_check :: "checker_context \<Rightarrow> checker_output" where
  "approval_check ctx =
     (let graph = cpi_graph (ctx_trace ctx);
          fs = List.map_filter (approval_flag (known_programs ctx) graph) (enumerate 0 graph)
      in \<lparr>checker_name = ''approval_abuse'', passed = (fs = []),
          out_severity = (if fs = [] then SevNone else High), flags = fs,
          details = (if fs = [] then ''No abusive token approvals detected''
                     else show_nat (length fs) @ '' unlimited approval(s) to unknown program(s) detected'')\<rparr>)"

definition approval_abuse_checker :: checker where
  "approval_abuse_checker =
     \<lparr>name = ''approval_abuse'', check = approval_check, ready_after = (\<lambda>ctx. None)\<rparr>"

subsection \<open>Which graphs fail\<close>

text \<open>
  What an unlimited approval is, read off the call: SPL Token or Token-2022, the tag and eight bytes
  of ones, a source, and a delegate the registry does not know.
\<close>

definition unlimited_approval :: "program_registry \<Rightarrow> cpi_call \<Rightarrow> pubkey \<Rightarrow> pubkey \<Rightarrow> bool" where
  "unlimited_approval reg c src delegate \<longleftrightarrow>
     program_id c \<in> {SPL_TOKEN_PROGRAM_ID, SPL_TOKEN_2022_PROGRAM_ID} \<and>
     9 \<le> length (cpi_data c) \<and> take 8 (drop 1 (cpi_data c)) = replicate 8 255 \<and>
     first (cpi_accounts c) = Some src \<and>
     (hd (cpi_data c) = 4 \<and> get (cpi_accounts c) 1 = Some delegate \<or>
      hd (cpi_data c) = 13 \<and> get (cpi_accounts c) 2 = Some delegate) \<and>
     is_known_protocol reg delegate = None"

lemma all_ones: "length bs = 8 \<Longrightarrow> of_nat (le_nat bs) = (- 1 :: u64) \<longleftrightarrow> bs = replicate 8 255"
proof -
  assume l: "length bs = 8"
  have "replicate 8 x = [x, x, x, x, x, x, x, x]" for x :: u8 by (simp add: numeral_eq_Suc)
  then have full: "le_nat (replicate 8 255) = 2 ^ 64 - 1" by simp
  have top: "unat (- 1 :: u64) = 2 ^ 64 - 1" by (simp add: unsigned_minus_1_eq_mask mask_eq_exp_minus_1)
  have "le_nat bs < 2 ^ 64" using le_nat_bound [of bs] l by simp
  then have "unat (of_nat (le_nat bs) :: u64) = le_nat bs" by (simp add: unat_of_nat)
  then have "of_nat (le_nat bs) = (- 1 :: u64) \<longleftrightarrow> le_nat bs = 2 ^ 64 - 1" using top by (metis word_unat_eq_iff)
  also have "\<dots> \<longleftrightarrow> bs = replicate 8 255" using full l le_bytes_le_nat by (metis length_replicate)
  finally show ?thesis .
qed

lemma inspect_approve_iff:
  "(\<exists>cand. inspect_approve c reg = Some cand \<and> cand_source cand = src \<and> cand_delegate cand = delegate) \<longleftrightarrow>
     unlimited_approval reg c src delegate"
  (is "?L \<longleftrightarrow> ?R")
proof -
  have hd: "first (cpi_data c) = Some x \<longleftrightarrow> cpi_data c \<noteq> [] \<and> hd (cpi_data c) = x" for x
    by (cases "cpi_data c") (simp_all add: get_def)
  have amount: "parse_amount_u64_le (cpi_data c) = Some (- 1) \<longleftrightarrow>
      9 \<le> length (cpi_data c) \<and> take 8 (drop 1 (cpi_data c)) = replicate 8 255"
    using all_ones [of "take 8 (drop 1 (cpi_data c))"] by (auto simp: parse_amount_u64_le_def)
  show ?thesis
  proof
    assume ?L
    then have "parse_amount_u64_le (cpi_data c) = Some (- 1)"
      by (auto simp: inspect_approve_def approve_operands_def bind_eq_Some_conv split: if_splits)
    note amount [THEN iffD1, OF this]
    then show ?R
      using \<open>?L\<close>
      by (auto simp: inspect_approve_def approve_operands_def unlimited_approval_def bind_eq_Some_conv hd
          SPL_TOKEN_DISC_APPROVE_def SPL_TOKEN_DISC_APPROVE_CHECKED_def split: if_splits)
  next
    assume R: ?R
    then have "cpi_data c \<noteq> []" "parse_amount_u64_le (cpi_data c) = Some (- 1)"
      using amount by (auto simp: unlimited_approval_def)
    then show ?L
      using R by (auto simp: inspect_approve_def approve_operands_def unlimited_approval_def bind_eq_Some_conv hd
          SPL_TOKEN_DISC_APPROVE_def SPL_TOKEN_DISC_APPROVE_CHECKED_def)
  qed
qed

lemma approval_passed_iff:
  "passed (approval_check ctx) \<longleftrightarrow>
     \<not> (\<exists>i src delegate. i < length (cpi_graph (ctx_trace ctx)) \<and>
         unlimited_approval (known_programs ctx) (cpi_graph (ctx_trace ctx) ! i) src delegate \<and>
         (\<forall>j. i < j \<longrightarrow> j < length (cpi_graph (ctx_trace ctx)) \<longrightarrow> \<not> is_revoke src (cpi_graph (ctx_trace ctx) ! j)))"
proof -
  let ?g = "cpi_graph (ctx_trace ctx)" and ?reg = "known_programs ctx"
  have rev: "revoked_after ?g i src \<longleftrightarrow> (\<exists>j. i < j \<and> j < length ?g \<and> is_revoke src (?g ! j))" for i src
  proof
    assume "revoked_after ?g i src"
    then obtain m where "m < length ?g - (i + 1)" "is_revoke src (?g ! (i + 1 + m))"
      by (auto simp: revoked_after_def list_ex_iff in_set_conv_nth)
    then show "\<exists>j. i < j \<and> j < length ?g \<and> is_revoke src (?g ! j)" by (intro exI [of _ "i + 1 + m"]) auto
  next
    assume "\<exists>j. i < j \<and> j < length ?g \<and> is_revoke src (?g ! j)"
    then obtain j where j: "i < j" "j < length ?g" "is_revoke src (?g ! j)" by blast
    then have "drop (i + 1) ?g ! (j - (i + 1)) = ?g ! j" "j - (i + 1) < length (drop (i + 1) ?g)" by auto
    then show "revoked_after ?g i src" using j(3) by (metis list_ex_iff nth_mem revoked_after_def)
  qed
  have "passed (approval_check ctx) \<longleftrightarrow> (\<forall>ic \<in> set (enumerate 0 ?g). approval_flag ?reg ?g ic = None)"
    by (simp add: approval_check_def Let_def List.map_filter_def filter_empty_conv)
  also have "\<dots> \<longleftrightarrow> (\<forall>i < length ?g. approval_flag ?reg ?g (i, ?g ! i) = None)"
    by (auto simp: in_set_enumerate_eq)
  also have "\<dots> \<longleftrightarrow> \<not> (\<exists>i src delegate. i < length ?g \<and> unlimited_approval ?reg (?g ! i) src delegate \<and> \<not> revoked_after ?g i src)"
    unfolding inspect_approve_iff [symmetric] by (auto simp: approval_flag_def split: option.splits)
  also have "\<dots> \<longleftrightarrow> \<not> (\<exists>i src delegate. i < length ?g \<and> unlimited_approval ?reg (?g ! i) src delegate \<and>
         (\<forall>j. i < j \<longrightarrow> j < length ?g \<longrightarrow> \<not> is_revoke src (?g ! j)))"
    unfolding rev by blast
  finally show ?thesis .
qed

subsection \<open>The order of the graph is not the order of execution\<close>

text \<open>
  Instruction 0 calls a program that revokes the delegation by a CPI; instruction 1 then approves
  without limit. The graph lists instruction 1 before the CPI of instruction 0.
\<close>

definition attacker_key :: pubkey where "attacker_key = Pubkey ''Attacker''"
definition wallet_key :: pubkey where "wallet_key = Pubkey ''Wallet''"

definition evasion_tx :: transaction where
  "evasion_tx =
     \<lparr>signatures = [], message_header = (1, 0, 2), account_keys = [wallet_key, attacker_key, SPL_TOKEN_PROGRAM_ID],
      recent_blockhash = [],
      instructions = [\<lparr>program_id_index = 1, ci_accounts = [0], ci_data = []\<rparr>,
                      \<lparr>program_id_index = 2, ci_accounts = [0, 1, 0], ci_data = 4 # replicate 8 255\<rparr>]\<rparr>"

definition evasion_inner :: "(compiled_instruction \<times> u8) list list" where
  "evasion_inner = [[(\<lparr>program_id_index = 2, ci_accounts = [0], ci_data = [5]\<rparr>, 2)], []]"

definition evasion_graph :: "cpi_call list" where
  "evasion_graph = extract_cpi_graph evasion_tx evasion_inner (account_keys evasion_tx)"

lemma evasion_graph_eq:
  "evasion_graph =
     [\<lparr>program_id = attacker_key, instruction_index = 0, stack_height = 1, cpi_accounts = [wallet_key], cpi_data = []\<rparr>,
      \<lparr>program_id = SPL_TOKEN_PROGRAM_ID, instruction_index = 1, stack_height = 1,
       cpi_accounts = [wallet_key, attacker_key, wallet_key], cpi_data = 4 # replicate 8 255\<rparr>,
      \<lparr>program_id = SPL_TOKEN_PROGRAM_ID, instruction_index = 0, stack_height = 2, cpi_accounts = [wallet_key], cpi_data = [5]\<rparr>]"
  by (simp add: evasion_graph_def extract_cpi_graph_def evasion_tx_def evasion_inner_def cpi_of_def key_at_def get_def)

lemma attacker_unknown: "is_known_protocol with_mainnet_defaults attacker_key = None"
  by (simp add: attacker_key_def with_mainnet_defaults_def is_known_protocol_def register_def registry_new_def program_ids)

text \<open>C26: The checker fails, with high severity, exactly on graphs with an unlimited approval to a
  delegate outside the registry that no later call of the graph revokes on the same source
  account. Any smaller amount, however large, passes.\<close>

theorem approval_check_exact:
  "(passed (approval_check ctx) \<longleftrightarrow>
     \<not> (\<exists>i src delegate. i < length (cpi_graph (ctx_trace ctx)) \<and>
         unlimited_approval (known_programs ctx) (cpi_graph (ctx_trace ctx) ! i) src delegate \<and>
         (\<forall>j. i < j \<longrightarrow> j < length (cpi_graph (ctx_trace ctx)) \<longrightarrow> \<not> is_revoke src (cpi_graph (ctx_trace ctx) ! j)))) \<and>
   out_severity (approval_check ctx) = (if passed (approval_check ctx) then SevNone else High)"
  using approval_passed_iff [of ctx] by (simp add: approval_check_def Let_def)

theorem approval_check_exact_witness:
  "\<not> passed (approval_check (context_of evasion_tx (take 2 evasion_graph))) \<and>
   out_severity (approval_check (context_of evasion_tx (take 2 evasion_graph))) = High"
proof -
  let ?ctx = "context_of evasion_tx (take 2 evasion_graph)"
  have "unlimited_approval with_mainnet_defaults (evasion_graph ! 1) wallet_key attacker_key"
    using attacker_unknown by (simp add: evasion_graph_eq unlimited_approval_def get_def numeral_eq_Suc)
  then have "1 < length (cpi_graph (ctx_trace ?ctx)) \<and>
      unlimited_approval (known_programs ?ctx) (cpi_graph (ctx_trace ?ctx) ! 1) wallet_key attacker_key \<and>
      (\<forall>j. 1 < j \<longrightarrow> j < length (cpi_graph (ctx_trace ?ctx)) \<longrightarrow> \<not> is_revoke wallet_key (cpi_graph (ctx_trace ?ctx) ! j))"
    by (simp add: context_of_def trace_of_def evasion_graph_eq)
  then have "\<not> passed (approval_check ?ctx)"
    unfolding approval_check_exact [THEN conjunct1] by blast
  then show ?thesis using approval_check_exact [THEN conjunct2, of ?ctx] by simp
qed

text \<open>An unlimited approval can be hidden behind an earlier revocation. For a call graph as the
  executor builds it, with a revocation inside instruction 0 and an unlimited approval to an unknown
  delegate in instruction 1, the checker passes, although the revocation is executed first and the
  approval stays in force: the graph lists all top-level calls before the nested ones.\<close>

theorem earlier_revoke_hides_approval:
  "\<exists>approve revoke. approve \<in> set evasion_graph \<and> revoke \<in> set evasion_graph \<and>
     unlimited_approval with_mainnet_defaults approve wallet_key attacker_key \<and> is_revoke wallet_key revoke \<and>
     instruction_index revoke < instruction_index approve \<and>
     passed (approval_check (context_of evasion_tx evasion_graph))"
proof -
  let ?g = evasion_graph
  have ap: "unlimited_approval with_mainnet_defaults (?g ! 1) wallet_key attacker_key"
    using attacker_unknown by (simp add: evasion_graph_eq unlimited_approval_def get_def numeral_eq_Suc)
  have rv: "is_revoke wallet_key (?g ! 2)"
    by (simp add: evasion_graph_eq is_revoke_def SPL_TOKEN_DISC_REVOKE_def)
  have other: "\<not> unlimited_approval with_mainnet_defaults (?g ! 0) src d"
    "\<not> unlimited_approval with_mainnet_defaults (?g ! 2) src d" for src d
    by (simp_all add: evasion_graph_eq unlimited_approval_def)
  have src: "src = wallet_key" if "unlimited_approval with_mainnet_defaults (?g ! 1) src d" for src d
    using that by (simp add: evasion_graph_eq unlimited_approval_def)
  have len: "length ?g = 3" by (simp add: evasion_graph_eq)
  have "passed (approval_check (context_of evasion_tx ?g))"
    unfolding approval_passed_iff
  proof (intro notI, elim exE conjE)
    fix i src d
    assume "i < length (cpi_graph (ctx_trace (context_of evasion_tx ?g)))"
      and u: "unlimited_approval (known_programs (context_of evasion_tx ?g)) (cpi_graph (ctx_trace (context_of evasion_tx ?g)) ! i) src d"
      and n: "\<forall>j. i < j \<longrightarrow> j < length (cpi_graph (ctx_trace (context_of evasion_tx ?g))) \<longrightarrow>
           \<not> is_revoke src (cpi_graph (ctx_trace (context_of evasion_tx ?g)) ! j)"
    then have "i = 0 \<or> i = 1 \<or> i = 2" by (auto simp: context_of_def trace_of_def len)
    then have "i = 1" "src = wallet_key" using u other src by (auto simp: context_of_def trace_of_def)
    then show False using n rv len by (auto simp: context_of_def trace_of_def)
  qed
  then show ?thesis
    using ap rv by (intro exI [of _ "?g ! 1"] exI [of _ "?g ! 2"]) (simp add: len, simp add: evasion_graph_eq)
qed

end
