(* ===== verification/Oracle_Sanity.thy ===== *)
theory Oracle_Sanity
  imports Checker_Core
begin

section \<open>The oracle sanity checker\<close>

text \<open>
  \<^verbatim>\<open>crates/ciel-checkers/src/oracle_sanity.rs\<close>: the reads of a trace against the price cache: feeds
  outside the canonical map, stale feeds, wide confidence intervals, and a deviation between the
  two feeds of an asset. The lemmas show that checking a pair of feeds only once loses nothing,
  and which feeds of the mainnet map can be cross-checked at all.
\<close>

definition FLAG_DEVIATION :: string where "FLAG_DEVIATION = ''ORACLE_DEVIATION_3_SIGMA''"
definition FLAG_UNKNOWN :: string where "FLAG_UNKNOWN = ''UNKNOWN_ORACLE_ACCOUNT''"
definition FLAG_STALE :: string where "FLAG_STALE = ''STALE_ORACLE_FEED''"
definition FLAG_WIDE_CONF :: string where "FLAG_WIDE_CONF = ''WIDE_CONFIDENCE_INTERVAL''"

lemmas oracle_flag_codes = FLAG_DEVIATION_def FLAG_UNKNOWN_def FLAG_STALE_def FLAG_WIDE_CONF_def

record oracle_sanity =
  sigma_threshold :: f64
  staleness_threshold_secs :: "64 word" \<comment> \<open>\<^verbatim>\<open>i64\<close>\<close>
  wide_confidence_ratio :: f64
  feed_map :: canonical_feed_map

definition oracle_sanity_new :: "canonical_feed_map \<Rightarrow> oracle_sanity" where
  "oracle_sanity_new fm =
     \<lparr>sigma_threshold = rnd 3, staleness_threshold_secs = 30, wide_confidence_ratio = rnd (5/100), feed_map = fm\<rparr>"

definition with_sigma_threshold :: "f64 \<Rightarrow> oracle_sanity \<Rightarrow> oracle_sanity" where
  "with_sigma_threshold t ck = ck\<lparr>sigma_threshold := t\<rparr>"

definition with_staleness_threshold :: "64 word \<Rightarrow> oracle_sanity \<Rightarrow> oracle_sanity" where
  "with_staleness_threshold secs ck = ck\<lparr>staleness_threshold_secs := secs\<rparr>"

definition with_wide_confidence_ratio :: "f64 \<Rightarrow> oracle_sanity \<Rightarrow> oracle_sanity" where
  "with_wide_confidence_ratio r ck = ck\<lparr>wide_confidence_ratio := r\<rparr>"

definition oracle_flag_severity :: "string \<Rightarrow> severity" where
  "oracle_flag_severity code =
     (if code = FLAG_DEVIATION then Critical
      else if code = FLAG_UNKNOWN then High
      else if code = FLAG_STALE then High
      else if code = FLAG_WIDE_CONF then Medium
      else Low)"

fun format_oracle_type :: "oracle_type \<Rightarrow> string" where
  "format_oracle_type Switchboard = ''Switchboard''"
| "format_oracle_type Pyth = ''Pyth''"

subsection \<open>The steps for one read\<close>

definition unknown_flags :: "oracle_sanity \<Rightarrow> oracle_read \<Rightarrow> flag list" where
  "unknown_flags ck rd =
     (let k = oracle_pubkey rd
      in if is_known (feed_map ck) k then []
         else [\<lparr>flag_code = FLAG_UNKNOWN,
                flag_message = ''Oracle account '' @ pk_text k @ '' (type: '' @ oracle_type_name rd @
                  '') is not a known canonical feed'',
                flag_data = json_obj [(''oracle_pubkey'', JStr (pk_text k)), (''oracle_type'', JStr (oracle_type_name rd))]\<rparr>])"

text \<open>The age is an \<^verbatim>\<open>i64\<close> difference, compared as a signed number.\<close>

definition stale_flags :: "oracle_sanity \<Rightarrow> oracle_cache \<Rightarrow> pubkey \<Rightarrow> oracle_price \<Rightarrow> flag list" where
  "stale_flags ck cache k p =
     (let age = reference_timestamp cache - op_timestamp p; t = format_oracle_type (op_oracle_type p)
      in if sint (staleness_threshold_secs ck) < sint age
         then [\<lparr>flag_code = FLAG_STALE,
                flag_message = t @ '' feed for '' @ asset p @ '' is stale (age: '' @ show_int (sint age) @
                  ''s, threshold: '' @ show_int (sint (staleness_threshold_secs ck)) @ ''s)'',
                flag_data = json_obj
                  [(''oracle_pubkey'', JStr (pk_text k)), (''oracle_type'', JStr t), (''asset'', JStr (asset p)),
                   (''age_seconds'', json_int (sint age)),
                   (''threshold_seconds'', json_int (sint (staleness_threshold_secs ck)))]\<rparr>]
         else [])"

definition wide_flags :: "oracle_sanity \<Rightarrow> pubkey \<Rightarrow> oracle_price \<Rightarrow> flag list" where
  "wide_flags ck k p =
     (let ratio = f_div (confidence p) (price p); t = format_oracle_type (op_oracle_type p)
      in if f_lt (rnd 0) (price p) \<and> f_lt (wide_confidence_ratio ck) ratio
         then [\<lparr>flag_code = FLAG_WIDE_CONF,
                flag_message = t @ '' feed for '' @ asset p @ '' has abnormally wide confidence ('' @
                  fmt_fixed 2 (f_mul ratio (rnd 100)) @ ''% of price)'',
                flag_data = json_obj
                  [(''oracle_pubkey'', JStr (pk_text k)), (''oracle_type'', JStr t), (''asset'', JStr (asset p)),
                   (''confidence'', json_f64 (confidence p)), (''price'', json_f64 (price p)),
                   (''ratio'', json_f64 ratio)]\<rparr>]
         else [])"

definition deviation_sigma :: "oracle_price \<Rightarrow> oracle_price \<Rightarrow> f64 option" where
  "deviation_sigma p q =
     (let deviation = f_abs (f_sub (price p) (price q)); max_uncertainty = f_max (confidence p) (confidence q)
      in if f_lt (rnd 0) max_uncertainty then Some (f_div deviation max_uncertainty) else None)"

definition deviation_flag :: "oracle_price \<Rightarrow> oracle_price \<Rightarrow> f64 \<Rightarrow> flag" where
  "deviation_flag p q sigma =
     (let (sb, py) = (case op_oracle_type p of Switchboard \<Rightarrow> (p, q) | Pyth \<Rightarrow> (q, p))
      in \<lparr>flag_code = FLAG_DEVIATION,
          flag_message = asset p @ '' price deviation '' @ fmt_fixed 1 sigma @ '' sigma between Switchboard and Pyth'',
          flag_data = json_obj
            [(''asset'', JStr (asset p)), (''switchboard_price'', json_f64 (price sb)),
             (''pyth_price'', json_f64 (price py)), (''deviation_sigma'', json_f64 sigma),
             (''switchboard_std_dev'', json_f64 (confidence sb)), (''pyth_confidence'', json_f64 (confidence py))]\<rparr>)"

definition deviation_flags :: "oracle_sanity \<Rightarrow> oracle_cache \<Rightarrow> oracle_price \<Rightarrow> pubkey \<Rightarrow> flag list" where
  "deviation_flags ck cache p cross =
     (case cache_get cache cross of
        None \<Rightarrow> []
      | Some q \<Rightarrow>
          (case deviation_sigma p q of
             None \<Rightarrow> []
           | Some sigma \<Rightarrow> if f_lt (sigma_threshold ck) sigma then [deviation_flag p q sigma] else []))"

definition pair_of :: "pubkey \<Rightarrow> pubkey \<Rightarrow> pubkey \<times> pubkey" where
  "pair_of k c = (if k < c then (k, c) else (c, k))"

text \<open>The flags so far and the pairs already checked.\<close>

type_synonym sanity_state = "flag list \<times> (pubkey \<times> pubkey) list"

definition check_read :: "oracle_sanity \<Rightarrow> oracle_cache \<Rightarrow> oracle_read \<Rightarrow> sanity_state \<Rightarrow> sanity_state" where
  "check_read ck cache rd st =
     (let k = oracle_pubkey rd; (fs, pairs) = st
      in case cache_get cache k of
           None \<Rightarrow> (fs @ unknown_flags ck rd, pairs)
         | Some p \<Rightarrow>
             (let fs2 = fs @ stale_flags ck cache k p @ wide_flags ck k p
              in case cross_reference (feed_map ck) k of
                   None \<Rightarrow> (fs2, pairs)
                 | Some c \<Rightarrow>
                     if pair_of k c \<in> set pairs then (fs2, pairs)
                     else (fs2 @ deviation_flags ck cache p c, pair_of k c # pairs)))"

definition oracle_check :: "oracle_sanity \<Rightarrow> checker_context \<Rightarrow> checker_output" where
  "oracle_check ck ctx =
     (let reads = oracle_reads (ctx_trace ctx)
      in if reads = []
         then \<lparr>checker_name = ''oracle_sanity'', passed = True, out_severity = SevNone, flags = [],
               details = ''No oracle reads in transaction''\<rparr>
         else let fs = fst (fold (check_read ck (ctx_oracle_cache ctx)) reads ([], []))
              in \<lparr>checker_name = ''oracle_sanity'', passed = (fs = []),
                  out_severity = fold max (map (\<lambda>f. oracle_flag_severity (flag_code f)) fs) SevNone,
                  flags = fs,
                  details = (if fs = [] then ''All oracle reads passed sanity checks''
                             else show_nat (length fs) @ '' oracle anomalies detected'')\<rparr>)"

definition oracle_sanity_checker :: "oracle_sanity \<Rightarrow> checker" where
  "oracle_sanity_checker ck = \<lparr>name = ''oracle_sanity'', check = oracle_check ck, ready_after = (\<lambda>ctx. None)\<rparr>"

subsection \<open>Checking a pair once loses nothing\<close>

lemma f_abs_rnd_minus: "f_abs (rnd (- z)) = f_abs (rnd z)"
  by (simp add: rnd_def rnd_to_def abs_mult abs_sgn_eq split: option.split)

lemma f_abs_sub_commute: "f_abs (f_sub a b) = f_abs (f_sub b a)"
proof -
  have "f_abs (rnd (x - y)) = f_abs (rnd (y - x))" for x y
    using f_abs_rnd_minus [of "x - y"] by simp
  then show ?thesis by (cases a; cases b) simp_all
qed

lemma f_max_commute: "f_max a b = f_max b a"
  by (cases a; cases b) (auto simp: f_max_def)

lemma deviation_sigma_commute: "deviation_sigma p q = deviation_sigma q p"
  unfolding deviation_sigma_def Let_def
  by (simp only: f_abs_sub_commute [of "price p"] f_max_commute [of "confidence p"])

lemma pair_of_eq: "pair_of a b = pair_of c d \<longleftrightarrow> a = c \<and> b = d \<or> a = d \<and> b = c"
  by (auto simp: pair_of_def)

text \<open>A feed deviates from its cross reference, in whichever order the two are read.\<close>

definition deviates :: "oracle_sanity \<Rightarrow> oracle_cache \<Rightarrow> pubkey \<Rightarrow> bool" where
  "deviates ck cache k \<longleftrightarrow>
     (\<exists>p c q sigma. cache_get cache k = Some p \<and> cross_reference (feed_map ck) k = Some c \<and>
        cache_get cache c = Some q \<and> deviation_sigma p q = Some sigma \<and> f_lt (sigma_threshold ck) sigma)"

definition is_stale :: "oracle_sanity \<Rightarrow> oracle_cache \<Rightarrow> pubkey \<Rightarrow> bool" where
  "is_stale ck cache k \<longleftrightarrow>
     (\<exists>p. cache_get cache k = Some p \<and>
        sint (staleness_threshold_secs ck) < sint (reference_timestamp cache - op_timestamp p))"

definition is_wide :: "oracle_sanity \<Rightarrow> oracle_cache \<Rightarrow> pubkey \<Rightarrow> bool" where
  "is_wide ck cache k \<longleftrightarrow>
     (\<exists>p. cache_get cache k = Some p \<and> f_lt (rnd 0) (price p) \<and>
        f_lt (wide_confidence_ratio ck) (f_div (confidence p) (price p)))"

definition is_unknown :: "oracle_sanity \<Rightarrow> oracle_cache \<Rightarrow> pubkey \<Rightarrow> bool" where
  "is_unknown ck cache k \<longleftrightarrow> cache_get cache k = None \<and> \<not> is_known (feed_map ck) k"

definition read_codes :: "oracle_sanity \<Rightarrow> oracle_cache \<Rightarrow> pubkey \<Rightarrow> string set" where
  "read_codes ck cache k =
     {code. code = FLAG_UNKNOWN \<and> is_unknown ck cache k \<or> code = FLAG_STALE \<and> is_stale ck cache k \<or>
            code = FLAG_WIDE_CONF \<and> is_wide ck cache k \<or> code = FLAG_DEVIATION \<and> deviates ck cache k}"

text \<open>Every checked pair that deviates has been flagged.\<close>

definition pairs_flagged :: "oracle_sanity \<Rightarrow> oracle_cache \<Rightarrow> sanity_state \<Rightarrow> bool" where
  "pairs_flagged ck cache st \<longleftrightarrow>
     (\<forall>k c. cross_reference (feed_map ck) k = Some c \<and> pair_of k c \<in> set (snd st) \<and> deviates ck cache k \<longrightarrow>
        FLAG_DEVIATION \<in> flag_code ` set (fst st))"

lemma deviation_flag_code [simp]: "flag_code (deviation_flag p q sigma) = FLAG_DEVIATION"
  by (simp add: deviation_flag_def split: prod.splits)

lemma deviation_flags_codes:
  assumes "cache_get cache k = Some p" "cross_reference (feed_map ck) k = Some c"
  shows "flag_code ` set (deviation_flags ck cache p c) = {code. code = FLAG_DEVIATION \<and> deviates ck cache k}"
proof -
  have "deviates ck cache k \<longleftrightarrow> deviation_flags ck cache p c \<noteq> []"
    using assms by (simp add: deviation_flags_def deviates_def split: option.splits)
  moreover have "flag_code f = FLAG_DEVIATION" if "f \<in> set (deviation_flags ck cache p c)" for f
    using that by (auto simp: deviation_flags_def split: option.splits if_splits)
  ultimately show ?thesis by (cases "deviation_flags ck cache p c") auto
qed

lemma stale_flags_codes:
  "cache_get cache k = Some p \<Longrightarrow>
     flag_code ` set (stale_flags ck cache k p) = {code. code = FLAG_STALE \<and> is_stale ck cache k}"
  by (auto simp: stale_flags_def is_stale_def Let_def)

lemma wide_flags_codes:
  "cache_get cache k = Some p \<Longrightarrow>
     flag_code ` set (wide_flags ck k p) = {code. code = FLAG_WIDE_CONF \<and> is_wide ck cache k}"
  by (auto simp: wide_flags_def is_wide_def Let_def)

lemma deviates_mirror:
  assumes "cross_reference (feed_map ck) k = Some c" "cross_reference (feed_map ck) c = Some k" "deviates ck cache k"
  shows "deviates ck cache c"
proof -
  from assms(1,3) obtain p q sigma where d: "cache_get cache k = Some p" "cache_get cache c = Some q"
    "deviation_sigma p q = Some sigma" "f_lt (sigma_threshold ck) sigma" by (auto simp: deviates_def)
  then show ?thesis
    unfolding deviates_def using assms(2) deviation_sigma_commute [of p q]
    by (intro exI [of _ q] exI [of _ k] exI [of _ p] exI [of _ sigma]) simp
qed

lemma check_read_step:
  assumes I: "pairs_flagged ck cache st"
  shows "pairs_flagged ck cache (check_read ck cache rd st) \<and>
    flag_code ` set (fst (check_read ck cache rd st)) =
      flag_code ` set (fst st) \<union> read_codes ck cache (oracle_pubkey rd)"
proof -
  let ?k = "oracle_pubkey rd" and ?st' = "check_read ck cache rd st"
  obtain fs pairs where st: "st = (fs, pairs)" by (cases st)
  show ?thesis
  proof (cases "cache_get cache ?k")
    case None
    then have r: "?st' = (fs @ unknown_flags ck rd, pairs)" by (simp add: check_read_def st Let_def)
    have "read_codes ck cache ?k = {code. code = FLAG_UNKNOWN \<and> is_unknown ck cache ?k}"
      using None by (auto simp: read_codes_def is_stale_def is_wide_def deviates_def)
    then show ?thesis
      using I None unfolding r
      by (auto simp: st unknown_flags_def is_unknown_def pairs_flagged_def Let_def)
  next
    case (Some p)
    note codes = stale_flags_codes [OF Some] wide_flags_codes [OF Some]
    let ?fs2 = "fs @ stale_flags ck cache ?k p @ wide_flags ck ?k p"
    show ?thesis
    proof (cases "cross_reference (feed_map ck) ?k")
      case None
      then have "?st' = (?fs2, pairs)" by (simp add: check_read_def st Some Let_def)
      moreover have "\<not> deviates ck cache ?k" using None by (simp add: deviates_def)
      ultimately show ?thesis
        using I Some by (auto simp: st codes image_Un read_codes_def is_unknown_def pairs_flagged_def)
    next
      case c: (Some c)
      note dev = deviation_flags_codes [OF Some c]
      show ?thesis
      proof (cases "pair_of ?k c \<in> set pairs")
        case True
        then have "?st' = (?fs2, pairs)" by (simp add: check_read_def st Some c Let_def)
        moreover have "deviates ck cache ?k \<longrightarrow> FLAG_DEVIATION \<in> flag_code ` set fs"
          using I c True by (auto simp: st pairs_flagged_def)
        ultimately show ?thesis
          using I Some by (auto simp: st codes image_Un read_codes_def is_unknown_def pairs_flagged_def)
      next
        case False
        then have r: "?st' = (?fs2 @ deviation_flags ck cache p c, pair_of ?k c # pairs)"
          by (simp add: check_read_def st Some c Let_def)
        have cs: "flag_code ` set (fst ?st') = flag_code ` set fs \<union> read_codes ck cache ?k"
          using Some unfolding r by (auto simp: codes dev image_Un read_codes_def is_unknown_def)
        have "FLAG_DEVIATION \<in> flag_code ` set (fst ?st')"
          if k': "cross_reference (feed_map ck) k' = Some c'" "pair_of k' c' \<in> set (snd ?st')" "deviates ck cache k'" for k' c'
        proof (cases "pair_of k' c' = pair_of ?k c")
          case True
          then have "deviates ck cache ?k" using k'(1,3) c deviates_mirror unfolding pair_of_eq by blast
          then show ?thesis unfolding cs by (auto simp: read_codes_def)
        next
          case False
          then have "pair_of k' c' \<in> set (snd st)" using k'(2) unfolding r by (simp add: st)
          then have "FLAG_DEVIATION \<in> flag_code ` set (fst st)" using k'(1,3) I unfolding pairs_flagged_def by blast
          then show ?thesis unfolding cs by (simp add: st)
        qed
        then show ?thesis using cs by (auto simp: pairs_flagged_def st)
      qed
    qed
  qed
qed

lemma fold_check_read_codes:
  "pairs_flagged ck cache st \<Longrightarrow>
     flag_code ` set (fst (fold (check_read ck cache) reads st)) =
       flag_code ` set (fst st) \<union> (\<Union>rd \<in> set reads. read_codes ck cache (oracle_pubkey rd))"
proof (induction reads arbitrary: st)
  case (Cons rd reads)
  then show ?case using check_read_step [OF Cons.prems, of rd] Cons.IH [of "check_read ck cache rd st"] by auto
qed simp

lemma oracle_check_codes:
  "flag_code ` set (flags (oracle_check ck ctx)) =
     (\<Union>rd \<in> set (oracle_reads (ctx_trace ctx)). read_codes ck (ctx_oracle_cache ctx) (oracle_pubkey rd))"
  using fold_check_read_codes [of ck "ctx_oracle_cache ctx" "([], [])" "oracle_reads (ctx_trace ctx)"]
  by (auto simp: oracle_check_def Let_def pairs_flagged_def)

lemma oracle_check_severity_Max:
  "out_severity (oracle_check ck ctx) =
     Max (insert SevNone (oracle_flag_severity ` flag_code ` set (flags (oracle_check ck ctx))))"
  by (auto simp: oracle_check_def Let_def fold_max_Max image_image)

lemma oracle_severities [simp]:
  "oracle_flag_severity FLAG_DEVIATION = Critical" "oracle_flag_severity FLAG_UNKNOWN = High"
  "oracle_flag_severity FLAG_STALE = High" "oracle_flag_severity FLAG_WIDE_CONF = Medium"
  by (simp_all add: oracle_flag_severity_def oracle_flag_codes)

lemma read_severities:
  "oracle_flag_severity ` read_codes ck cache k =
     {t. t = Critical \<and> deviates ck cache k \<or> t = High \<and> (is_unknown ck cache k \<or> is_stale ck cache k) \<or>
         t = Medium \<and> is_wide ck cache k}"
proof -
  have "read_codes ck cache k =
      (if is_unknown ck cache k then {FLAG_UNKNOWN} else {}) \<union> (if is_stale ck cache k then {FLAG_STALE} else {}) \<union>
      (if is_wide ck cache k then {FLAG_WIDE_CONF} else {}) \<union> (if deviates ck cache k then {FLAG_DEVIATION} else {})"
    by (auto simp: read_codes_def)
  then show ?thesis by (auto simp: image_Un)
qed

lemma severity_Max_eqI: "finite A \<Longrightarrow> s \<in> insert SevNone A \<Longrightarrow> (\<And>t. t \<in> A \<Longrightarrow> t \<le> s) \<Longrightarrow> Max (insert SevNone A) = s"
  by (rule Max_eqI) (auto simp: less_eq_severity_def)

lemma oracle_severity_exact:
  "out_severity (oracle_check ck ctx) =
     (let keys = map oracle_pubkey (oracle_reads (ctx_trace ctx)); cache = ctx_oracle_cache ctx
      in if \<exists>k \<in> set keys. deviates ck cache k then Critical
         else if \<exists>k \<in> set keys. is_unknown ck cache k \<or> is_stale ck cache k then High
         else if \<exists>k \<in> set keys. is_wide ck cache k then Medium else SevNone) \<and>
   (passed (oracle_check ck ctx) \<longleftrightarrow> out_severity (oracle_check ck ctx) = SevNone)"
proof -
  let ?keys = "set (map oracle_pubkey (oracle_reads (ctx_trace ctx)))" and ?cache = "ctx_oracle_cache ctx"
  let ?codes = "flag_code ` set (flags (oracle_check ck ctx))" and ?sevs = "oracle_flag_severity ` flag_code ` set (flags (oracle_check ck ctx))"
  have codes: "?codes = (\<Union>k \<in> ?keys. read_codes ck ?cache k)" using oracle_check_codes [of ck ctx] by auto
  have sev: "t \<in> ?sevs \<longleftrightarrow>
      t = Critical \<and> (\<exists>k \<in> ?keys. deviates ck ?cache k) \<or>
      t = High \<and> (\<exists>k \<in> ?keys. is_unknown ck ?cache k \<or> is_stale ck ?cache k) \<or>
      t = Medium \<and> (\<exists>k \<in> ?keys. is_wide ck ?cache k)" for t
    unfolding codes by (simp add: image_UN read_severities) blast
  have fin: "finite ?sevs" by simp
  have "out_severity (oracle_check ck ctx) =
      (if \<exists>k \<in> ?keys. deviates ck ?cache k then Critical
       else if \<exists>k \<in> ?keys. is_unknown ck ?cache k \<or> is_stale ck ?cache k then High
       else if \<exists>k \<in> ?keys. is_wide ck ?cache k then Medium else SevNone)"
    unfolding oracle_check_severity_Max
    by (rule severity_Max_eqI [OF fin]) (auto simp: sev less_eq_severity_def)
  moreover have "passed (oracle_check ck ctx) \<longleftrightarrow> ?sevs = {}"
    by (auto simp: oracle_check_def Let_def)
  moreover have "(\<forall>t. t \<notin> ?sevs) \<longleftrightarrow> ?sevs = {}" by (rule all_not_in_conv)
  ultimately show ?thesis unfolding sev Let_def by auto
qed

lemma oracle_critical_iff:
  "out_severity (oracle_check ck ctx) = Critical \<longleftrightarrow>
     (\<exists>rd \<in> set (oracle_reads (ctx_trace ctx)). deviates ck (ctx_oracle_cache ctx) (oracle_pubkey rd))"
  using oracle_severity_exact [of ck ctx] by (simp add: Let_def split: if_splits)

text \<open>C27: The verdict of the oracle checker is the worst anomaly among the reads, and no anomaly is lost
  although each pair of feeds is compared once: it is critical exactly when some read feed deviates
  from its cross reference by more than the threshold, high when none does but some feed is
  unknown or stale, medium when the confidence of some feed is wide, and the check passes exactly
  when there is no anomaly.\<close>

theorem oracle_check_exact:
  "out_severity (oracle_check ck ctx) =
     (let keys = map oracle_pubkey (oracle_reads (ctx_trace ctx)); cache = ctx_oracle_cache ctx
      in if \<exists>k \<in> set keys. deviates ck cache k then Critical
         else if \<exists>k \<in> set keys. is_unknown ck cache k \<or> is_stale ck cache k then High
         else if \<exists>k \<in> set keys. is_wide ck cache k then Medium else SevNone) \<and>
   (passed (oracle_check ck ctx) \<longleftrightarrow> out_severity (oracle_check ck ctx) = SevNone)"
  by (rule oracle_severity_exact)

subsection \<open>Which mainnet feeds can be cross-checked\<close>

lemma self_reference_never_deviates:
  assumes "cross_reference (feed_map ck) k = Some k" "\<not> f_lt (sigma_threshold ck) (Fin 0)"
  shows "\<not> deviates ck cache k"
proof -
  have zero: "f_abs (f_sub x x) \<in> {NaN, Fin 0}" for x by (cases x) simp_all
  have "f_div z m \<in> {NaN, Fin 0}" if "z \<in> {NaN, Fin 0}" for z m using that by (cases m) (auto split: if_splits)
  then have "f_div (f_abs (f_sub x x)) m \<in> {NaN, Fin 0}" for x m using zero by blast
  moreover have "\<not> f_lt t NaN" for t by (cases t) simp_all
  ultimately have "\<not> f_lt (sigma_threshold ck) (f_div (f_abs (f_sub x x)) m)" for x m
    using assms(2) by (metis empty_iff insert_iff)
  then show ?thesis using assms(1) by (auto simp: deviates_def deviation_sigma_def Let_def split: if_splits)
qed

lemma default_threshold: "rnd 3 = Fin 3"
  by (rule rnd_evalI [where e = 1 and n = "3 * 2 ^ 51", simplified]) (simp_all add: pow2_def)

lemma not_below_zero: "\<not> f_lt (sigma_threshold (oracle_sanity_new fm)) (Fin 0)"
  by (simp add: oracle_sanity_new_def default_threshold)

lemma mainnet_deviation:
  assumes "deviates (oracle_sanity_new default_mainnet) cache k"
  shows "\<exists>(a, sb, py) \<in> set mainnet_feeds. sb \<noteq> py \<and> (k = sb \<or> k = py)"
proof -
  let ?ck = "oracle_sanity_new default_mainnet"
  have fm: "feed_map ?ck = default_mainnet" by (simp add: oracle_sanity_new_def)
  from assms obtain c where c: "cross_reference default_mainnet k = Some c" by (auto simp: deviates_def fm)
  then have "is_known default_mainnet k" by (rule cross_reference_known)
  then obtain a sb py where row: "(a, sb, py) \<in> set mainnet_feeds" "k = sb \<or> k = py" using mainnet_facts by auto
  have sp: "cross_reference default_mainnet sb = Some py" using mainnet_facts row(1) by auto
  have "sb \<noteq> py"
  proof
    assume "sb = py"
    then have "cross_reference (feed_map ?ck) k = Some k" using sp row(2) fm by auto
    then show False using self_reference_never_deviates [OF _ not_below_zero] assms by blast
  qed
  then show ?thesis using row by auto
qed

text \<open>C28: Manipulation is detected for seven of the twenty mainnet assets only. With the mainnet map and the
  default thresholds a critical finding always comes from a read of an asset whose two feeds have
  different keys; the other thirteen rows name one key in both roles, so their feeds are compared
  with themselves.\<close>

theorem mainnet_critical_needs_two_feeds:
  assumes "out_severity (oracle_check (oracle_sanity_new default_mainnet) ctx) = Critical"
  shows "(\<exists>rd \<in> set (oracle_reads (ctx_trace ctx)). \<exists>(a, sb, py) \<in> set mainnet_feeds.
            sb \<noteq> py \<and> (oracle_pubkey rd = sb \<or> oracle_pubkey rd = py)) \<and>
         length mainnet_feeds = 20 \<and> length (filter (\<lambda>(a, sb, py). sb = py) mainnet_feeds) = 13"
proof -
  obtain rd where rd: "rd \<in> set (oracle_reads (ctx_trace ctx))"
    "deviates (oracle_sanity_new default_mainnet) (ctx_oracle_cache ctx) (oracle_pubkey rd)"
    using assms by (auto simp: oracle_critical_iff)
  note rd(1) mainnet_deviation [OF rd(2)]
  moreover have "length mainnet_feeds = 20" "length (filter (\<lambda>(a, sb, py). sb = py) mainnet_feeds) = 13"
    by (simp_all add: mainnet_feeds_def)
  ultimately show ?thesis by blast
qed

text \<open>Two SOL/USD prices far apart, read through the Switchboard feed.\<close>

definition sol_switchboard :: pubkey where "sol_switchboard = fst (snd (mainnet_feeds ! 0))"
definition sol_pyth :: pubkey where "sol_pyth = snd (snd (mainnet_feeds ! 0))"

definition sol_price :: "oracle_type \<Rightarrow> rat \<Rightarrow> oracle_price" where
  "sol_price t v = \<lparr>op_oracle_type = t, price = Fin v, confidence = Fin 1, op_timestamp = 0, asset = ''SOL/USD''\<rparr>"

definition manipulated_ctx :: checker_context where
  "manipulated_ctx =
     \<lparr>ctx_trace = \<lparr>success = True, trace_error = None, balance_deltas = [], cpi_graph = [], account_changes = [], logs = [],
        oracle_reads = [\<lparr>oracle_pubkey = sol_switchboard, oracle_type_name = ''switchboard''\<rparr>],
        token_approvals = [], token_balance_deltas = [], compute_units_consumed = 0, fee = 0\<rparr>,
      original_tx = \<lparr>signatures = [], message_header = (1, 0, 0), account_keys = [], recent_blockhash = [], instructions = []\<rparr>,
      ctx_intent = None, ctx_slot = 0,
      ctx_oracle_cache = \<lparr>prices = [(sol_switchboard, sol_price Switchboard 10000), (sol_pyth, sol_price Pyth 0)], reference_timestamp = 0\<rparr>,
      known_programs = with_mainnet_defaults\<rparr>"

lemma manipulated_critical: "out_severity (oracle_check (oracle_sanity_new default_mainnet) manipulated_ctx) = Critical"
proof -
  have row: "(''SOL/USD'', sol_switchboard, sol_pyth) \<in> set mainnet_feeds" "sol_switchboard \<noteq> sol_pyth"
    by (simp_all add: mainnet_feeds_def sol_switchboard_def sol_pyth_def)
  then have "cross_reference default_mainnet sol_switchboard = Some sol_pyth" using mainnet_facts by auto
  then have "deviates (oracle_sanity_new default_mainnet) (ctx_oracle_cache manipulated_ctx) sol_switchboard"
    using row(2)
    by (simp add: deviates_def oracle_sanity_new_def manipulated_ctx_def cache_get_def sol_price_def
        deviation_sigma_def f_max_def Let_def default_threshold)
  then show ?thesis by (simp add: oracle_critical_iff manipulated_ctx_def)
qed

theorem mainnet_critical_needs_two_feeds_witness:
  "\<exists>rd \<in> set (oracle_reads (ctx_trace manipulated_ctx)). \<exists>(a, sb, py) \<in> set mainnet_feeds.
     sb \<noteq> py \<and> (oracle_pubkey rd = sb \<or> oracle_pubkey rd = py)"
  using mainnet_critical_needs_two_feeds [OF manipulated_critical] by (rule conjunct1)

end
