(* ===== verification/Intent_Rules.thy ===== *)
theory Intent_Rules
  imports Checker_Core
begin

section \<open>The intent rules\<close>

text \<open>
  \<^verbatim>\<open>crates/ciel-checkers/src/intent_rules.rs\<close>: the token registry and the parser of free-text goals.
  \<open>U\<close> holds the Unicode tables beyond ASCII. The lemmas show that a goal written from its parts is
  parsed back into them, and that nothing but the four sentence shapes is recognised.
\<close>

definition RULE_TABLE_VERSION :: string where "RULE_TABLE_VERSION = ''v1''"

definition SWAP_TOLERANCE_BPS :: nat where "SWAP_TOLERANCE_BPS = 100"
definition TRANSFER_TOLERANCE_BPS :: nat where "TRANSFER_TOLERANCE_BPS = 10"
definition DEPOSIT_TOLERANCE_BPS :: nat where "DEPOSIT_TOLERANCE_BPS = 100"

definition TOKEN_REGISTRY :: "(string \<times> string \<times> nat) list" where
  "TOKEN_REGISTRY =
     [(''SOL'', ''So11111111111111111111111111111111111111112'', 9),
      (''USDC'', ''EPjFWdd5AufqSSqeM2qN1xzybapC8G4wEGGkZwyTDt1v'', 6),
      (''USDT'', ''Es9vMFrzaCERmJfrF4H2FYD4KCoNkY11McCe8BenwNYB'', 6),
      (''ETH'', ''7vfCXTUXx5WJV5JADk17DUJ4ksgau7utNKj4b963voxs'', 8),
      (''BTC'', ''9n4nbM75f5Ui33ZbPYXn59EwSgE8CGsHtAeTH5YFeJ9E'', 8),
      (''BONK'', ''DezXAZ8z7PnrnRJjz3wXBoRgixCa6xjnB7YaB1pPB263'', 5)]"

definition WSOL_MINT :: string where "WSOL_MINT = ''So11111111111111111111111111111111111111112''"

text \<open>The texts of the registry are canonical keys, so \<^verbatim>\<open>Pubkey::from_str\<close> succeeds on each.\<close>

definition token_info :: "unicode \<Rightarrow> string \<Rightarrow> (pubkey \<times> nat) option" where
  "token_info U symbol =
     (let sym_upper = to_uppercase U symbol
      in map_option (\<lambda>(s, mint_str, decimals). (Pubkey mint_str, decimals))
           (List.find (\<lambda>(s, mint_str, decimals). s = sym_upper) TOKEN_REGISTRY))"

datatype intent_pattern =
    PSwap f64 string string
  | PTransfer f64 string string
  | PDeposit f64 string string
  | Unrecognized

definition parse_amount :: "string \<Rightarrow> f64 option" where
  "parse_amount s =
     (case parse_f64 s of
        None \<Rightarrow> None
      | Some v \<Rightarrow> if is_finite v \<and> f_lt (rnd 0) v then Some v else None)"

definition parse_swap :: "unicode \<Rightarrow> string list \<Rightarrow> intent_pattern" where
  "parse_swap U tokens =
     (if length tokens \<noteq> 5 \<or> tokens ! 3 \<noteq> ''for'' then Unrecognized
      else case parse_amount (tokens ! 1) of
             None \<Rightarrow> Unrecognized
           | Some amount \<Rightarrow> PSwap amount (to_uppercase U (tokens ! 2)) (to_uppercase U (tokens ! 4)))"

definition parse_transfer :: "unicode \<Rightarrow> string list \<Rightarrow> intent_pattern" where
  "parse_transfer U tokens =
     (if length tokens < 5 \<or> tokens ! 3 \<noteq> ''to'' then Unrecognized
      else case parse_amount (tokens ! 1) of
             None \<Rightarrow> Unrecognized
           | Some amount \<Rightarrow> PTransfer amount (to_uppercase U (tokens ! 2)) (join '' '' (drop 4 tokens)))"

definition parse_deposit :: "unicode \<Rightarrow> string list \<Rightarrow> intent_pattern" where
  "parse_deposit U tokens =
     (if length tokens < 5 \<or> tokens ! 3 \<noteq> ''into'' then Unrecognized
      else case parse_amount (tokens ! 1) of
             None \<Rightarrow> Unrecognized
           | Some amount \<Rightarrow> PDeposit amount (to_uppercase U (tokens ! 2)) (join '' '' (drop 4 tokens)))"

definition parse_intent_goal :: "unicode \<Rightarrow> string \<Rightarrow> intent_pattern" where
  "parse_intent_goal U goal =
     (let tokens = map (to_lowercase U) (split_whitespace U goal)
      in if tokens = [] then Unrecognized
         else if tokens ! 0 = ''swap'' then parse_swap U tokens
         else if tokens ! 0 = ''transfer'' \<or> tokens ! 0 = ''send'' then parse_transfer U tokens
         else if tokens ! 0 = ''deposit'' then parse_deposit U tokens
         else Unrecognized)"

subsection \<open>Words of a sentence\<close>

text \<open>An ASCII word: not empty, without white space.\<close>

definition ascii_word :: "string \<Rightarrow> bool" where
  "ascii_word w \<longleftrightarrow> w \<noteq> [] \<and> list_all (\<lambda>c. is_ascii c \<and> code_of c \<noteq> 32 \<and> \<not> (9 \<le> code_of c \<and> code_of c \<le> 13)) w"

lemma ascii_not_continuation: "is_ascii c \<Longrightarrow> \<not> is_continuation c"
  by (simp add: is_ascii_def is_continuation_def)

lemma utf8_chars_ascii: "list_all is_ascii s \<Longrightarrow> utf8_chars s = map (\<lambda>c. [c]) s"
proof (induction s rule: utf8_chars.induct)
  case (2 c cs)
  have "takeWhile is_continuation cs = []" "dropWhile is_continuation cs = cs"
    using 2(2) by (cases cs; auto simp: ascii_not_continuation)+
  then show ?case using 2 by simp
qed simp

lemma split_runs_word:
  "list_all (\<lambda>c. \<not> sep [c]) w \<Longrightarrow>
     split_runs sep (map (\<lambda>c. [c]) w @ chs) acc = split_runs sep chs (acc @ w)"
  by (induction w arbitrary: acc) simp_all

lemma split_runs_join:
  assumes "list_all (\<lambda>w. w \<noteq> [] \<and> list_all (\<lambda>c. \<not> sep [c]) w) ws" "sep [c]"
  shows "split_runs sep (map (\<lambda>c. [c]) (join [c] ws)) [] = ws"
  using assms
proof (induction "[c]" ws rule: join.induct)
  case (2 w)
  then show ?case using split_runs_word [of sep w "[]" "[]"] by simp
next
  case (3 w v ws)
  then show ?case by (simp add: split_runs_word)
qed simp

lemma split_whitespace_join:
  assumes "list_all ascii_word ws"
  shows "split_whitespace U (join '' '' ws) = ws"
proof -
  have "list_all is_ascii (join '' '' ws)" using assms
    by (induction "'' ''" ws rule: join.induct)
      (auto simp: ascii_word_def list_all_iff is_ascii_def code_of_def)
  moreover have "list_all (\<lambda>w. w \<noteq> [] \<and> list_all (\<lambda>c. \<not> is_whitespace U [c]) w) ws"
    using assms by (fastforce simp: list_all_iff ascii_word_def)
  moreover have "is_whitespace U '' ''" by (simp add: is_ascii_def code_of_def)
  ultimately show ?thesis
    by (simp add: split_whitespace_def utf8_chars_ascii split_runs_join)
qed

lemma ascii_word_ascii: "ascii_word w \<Longrightarrow> list_all is_ascii w"
  by (auto simp: ascii_word_def list_all_iff)

text \<open>
  The shape a goal must have: what a recognised pattern says of the words of the goal.
\<close>

lemma parse_intent_goal_swap:
  assumes "list_all ascii_word [verb, amt, a, prep, b]"
    and "map char_lower verb = ''swap''" "map char_lower prep = ''for''" "parse_amount (map char_lower amt) = Some v"
  shows "parse_intent_goal U (join '' '' [verb, amt, a, prep, b]) =
    PSwap v (to_uppercase U (map char_lower a)) (to_uppercase U (map char_lower b))"
proof -
  have "split_whitespace U (join '' '' [verb, amt, a, prep, b]) = [verb, amt, a, prep, b]"
    by (rule split_whitespace_join [OF assms(1)])
  moreover have "to_lowercase U w = map char_lower w" if "ascii_word w" for w
    using that by (simp add: to_lowercase_def ascii_word_ascii)
  ultimately show ?thesis
    using assms by (simp add: parse_intent_goal_def parse_swap_def Let_def del: join.simps)
qed

lemma parse_recognised_shape:
  assumes "parse_intent_goal U goal \<noteq> Unrecognized"
  shows "let ws = map (to_lowercase U) (split_whitespace U goal)
    in 5 \<le> length ws \<and> (\<exists>v. parse_amount (ws ! 1) = Some v) \<and>
       (ws ! 0, ws ! 3) \<in> {(''swap'', ''for''), (''transfer'', ''to''), (''send'', ''to''), (''deposit'', ''into'')}"
  using assms
  by (auto simp: parse_intent_goal_def parse_swap_def parse_transfer_def parse_deposit_def Let_def
      split: if_splits option.splits)

lemma parse_amount_positive: "parse_amount s = Some v \<Longrightarrow> \<exists>x. v = Fin x \<and> 0 < x"
  by (cases v) (auto simp: parse_amount_def split: option.splits if_splits)

end
