(* ===== verification/Intent_Diff.thy ===== *)
theory Intent_Diff
  imports Intent_Rules
begin

section \<open>The intent diff checker\<close>

text \<open>
  \<^verbatim>\<open>crates/ciel-checkers/src/intent_diff.rs\<close>: the simulated balance changes against what the user
  stated. Amounts are \<^verbatim>\<open>i128\<close> with release-mode wrap-around and \<^verbatim>\<open>saturating_mul\<close>; \<open>powi10\<close> stands for
  \<^verbatim>\<open>10f64.powi\<close>. The lemmas relate the checks to exact arithmetic on the summed changes and show
  where the summation over all owners, and the saturation, part from the stated intent.
\<close>

definition FLAG_INTENT_BALANCE_MISMATCH :: string where "FLAG_INTENT_BALANCE_MISMATCH = ''INTENT_BALANCE_MISMATCH''"
definition FLAG_INTENT_VERIFICATION_INCONCLUSIVE :: string where
  "FLAG_INTENT_VERIFICATION_INCONCLUSIVE = ''INTENT_VERIFICATION_INCONCLUSIVE''"

definition CHECKER_NAME :: string where "CHECKER_NAME = ''intent_diff''"

datatype intent_source = Spec | ParsedGoal string

fun source_label :: "intent_source \<Rightarrow> string" where
  "source_label Spec = ''spec''"
| "source_label (ParsedGoal s) = ''parsed_goal''"

fun goal_text :: "intent_source \<Rightarrow> string \<Rightarrow> string" where
  "goal_text Spec fallback = fallback"
| "goal_text (ParsedGoal s) fallback = s"

text \<open>The UTF-8 bytes of the arrow, the ellipsis and the dash in the messages.\<close>

definition utf8_arrow :: string where "utf8_arrow = [CHR 0xE2, CHR 0x86, CHR 0x92]"
definition utf8_ellipsis :: string where "utf8_ellipsis = [CHR 0xE2, CHR 0x80, CHR 0xA6]"
definition utf8_dash :: string where "utf8_dash = [CHR 0xE2, CHR 0x80, CHR 0x94]"

subsection \<open>Sums, tolerance and outputs\<close>

definition i128_sum :: "int list \<Rightarrow> int" where
  "i128_sum xs = foldl (\<lambda>acc x. i128_wrap (acc + x)) 0 xs"

definition sum_mint_delta :: "simulation_trace \<Rightarrow> pubkey \<Rightarrow> int" where
  "sum_mint_delta trace mint =
     (let token_sum = i128_sum (map tbd_delta (filter (\<lambda>d. tbd_mint d = mint) (token_balance_deltas trace)))
      in if pk_text mint = WSOL_MINT
         then i128_wrap (token_sum + i128_sum (map (\<lambda>(k, v). sint v) (balance_deltas trace)))
         else token_sum)"

definition to_raw_units :: "(int \<Rightarrow> f64) \<Rightarrow> f64 \<Rightarrow> nat \<Rightarrow> int" where
  "to_raw_units powi10 amount decimals =
     f_cast i128_min i128_max (f_round (f_mul amount (powi10 (int decimals))))"

definition within_tolerance :: "int \<Rightarrow> int \<Rightarrow> nat \<Rightarrow> bool" where
  "within_tolerance actual expected tolerance_bps =
     (let diff = i128_wrap \<bar>i128_wrap (actual - expected)\<bar>;
          abs_expected = i128_wrap \<bar>expected\<bar>
      in i128_saturating_mul diff 10000 \<le> i128_saturating_mul abs_expected (int tolerance_bps))"

definition short_mint :: "pubkey \<Rightarrow> string" where
  "short_mint mint =
     (let s = pk_text mint
      in if 8 < length s then take 4 s @ utf8_ellipsis @ drop (length s - 4) s else s)"

definition passed_noop :: "string \<Rightarrow> checker_output" where
  "passed_noop d = \<lparr>checker_name = CHECKER_NAME, passed = True, out_severity = SevNone, flags = [], details = d\<rparr>"

definition inconclusive :: "string \<Rightarrow> string \<Rightarrow> string \<Rightarrow> checker_output" where
  "inconclusive goal reason msg =
     \<lparr>checker_name = CHECKER_NAME, passed = True, out_severity = SevNone,
      flags = [\<lparr>flag_code = FLAG_INTENT_VERIFICATION_INCONCLUSIVE, flag_message = msg,
                flag_data = json_obj [(''intent_goal'', JStr goal), (''reason'', JStr reason)]\<rparr>],
      details = ''Intent verification inconclusive '' @ utf8_dash @ '' goal pattern not in deterministic rule table''\<rparr>"

definition failed_output :: "string \<Rightarrow> string \<Rightarrow> json \<Rightarrow> severity \<Rightarrow> string \<Rightarrow> checker_output" where
  "failed_output code msg data sev d =
     \<lparr>checker_name = CHECKER_NAME, passed = False, out_severity = sev,
      flags = [\<lparr>flag_code = code, flag_message = msg, flag_data = data\<rparr>], details = d\<rparr>"

subsection \<open>The verifiers\<close>

definition verify_swap ::
    "simulation_trace \<Rightarrow> int \<Rightarrow> pubkey \<Rightarrow> pubkey \<Rightarrow> int option \<Rightarrow> nat \<Rightarrow> intent_source \<Rightarrow> string \<Rightarrow> checker_output" where
  "verify_swap trace expected_amount_in mi mo min_out bps src desc =
     (let actual_in = sum_mint_delta trace mi;
          actual_out = sum_mint_delta trace mo;
          expected_in = i128_wrap (- expected_amount_in);
          input_ok = within_tolerance actual_in expected_in bps;
          output_direction_ok = 0 < actual_out;
          output_min_ok = (case min_out of None \<Rightarrow> True | Some m \<Rightarrow> m \<le> actual_out);
          goal = goal_text src desc
      in if input_ok \<and> output_direction_ok \<and> output_min_ok
         then passed_noop (''Intent '' @ [CHR 0x27] @ goal @ [CHR 0x27] @ '' matches simulation: '' @ short_mint mi @
                '' in delta '' @ show_int actual_in @ '', '' @ short_mint mo @ '' out delta '' @ show_int actual_out)
         else let reason = (if \<not> input_ok then ''input_amount_outside_tolerance''
                            else if \<not> output_direction_ok then ''output_direction_or_token_mismatch''
                            else ''output_below_min_amount'')
              in failed_output FLAG_INTENT_BALANCE_MISMATCH
                   (''Intent expects swap '' @ short_mint mi @ '' '' @ utf8_arrow @ '' '' @ short_mint mo @
                    '' but simulation shows in-delta='' @ show_int actual_in @ '', out-delta='' @ show_int actual_out)
                   (json_obj
                     [(''expected_mint_in'', JStr (pk_text mi)),
                      (''expected_amount_in'', JStr (show_int expected_amount_in)),
                      (''actual_in_delta'', JStr (show_int actual_in)),
                      (''expected_mint_out'', JStr (pk_text mo)),
                      (''actual_out_delta'', JStr (show_int actual_out)),
                      (''min_amount_out'', json_opt (\<lambda>v. JStr (show_int v)) min_out),
                      (''tolerance_bps'', JU64 bps), (''intent_source'', JStr (source_label src)),
                      (''intent_goal'', JStr goal), (''reason'', JStr reason)])
                   High
                   (''Intent '' @ [CHR 0x27] @ goal @ [CHR 0x27] @ '' does NOT match simulation ('' @ reason @ '')''))"

definition mismatch_data :: "pubkey \<Rightarrow> int \<Rightarrow> int \<Rightarrow> nat \<Rightarrow> intent_source \<Rightarrow> string \<Rightarrow> string \<Rightarrow> json" where
  "mismatch_data mint expected_amount actual bps src goal reason =
     json_obj
       [(''expected_mint'', JStr (pk_text mint)), (''expected_amount'', JStr (show_int expected_amount)),
        (''actual_delta'', JStr (show_int actual)), (''tolerance_bps'', JU64 bps),
        (''intent_source'', JStr (source_label src)), (''intent_goal'', JStr goal), (''reason'', JStr reason)]"

definition verify_transfer ::
    "simulation_trace \<Rightarrow> int \<Rightarrow> pubkey \<Rightarrow> nat \<Rightarrow> intent_source \<Rightarrow> string \<Rightarrow> checker_output" where
  "verify_transfer trace expected_amount mint bps src desc =
     (let actual = sum_mint_delta trace mint; expected = i128_wrap (- expected_amount); goal = goal_text src desc
      in if within_tolerance actual expected bps
         then passed_noop (''Intent '' @ [CHR 0x27] @ goal @ [CHR 0x27] @ '' matches simulation: '' @ short_mint mint @
                '' delta '' @ show_int actual @ '' (transfer outflow)'')
         else failed_output FLAG_INTENT_BALANCE_MISMATCH
                (''Intent expects transfer of '' @ show_int expected_amount @ '' '' @ short_mint mint @
                 '' but simulation shows delta '' @ show_int actual)
                (mismatch_data mint expected_amount actual bps src goal ''transfer_amount_outside_tolerance'')
                High
                (''Intent '' @ [CHR 0x27] @ goal @ [CHR 0x27] @ '' does NOT match simulation (transfer)''))"

definition verify_deposit ::
    "simulation_trace \<Rightarrow> int \<Rightarrow> pubkey \<Rightarrow> nat \<Rightarrow> intent_source \<Rightarrow> string \<Rightarrow> checker_output" where
  "verify_deposit trace expected_amount mint bps src desc =
     (let actual = sum_mint_delta trace mint; expected = i128_wrap (- expected_amount); goal = goal_text src desc
      in if \<not> within_tolerance actual expected bps
         then failed_output FLAG_INTENT_BALANCE_MISMATCH
                (''Intent expects deposit of '' @ show_int expected_amount @ '' '' @ short_mint mint @
                 '' but simulation shows outflow '' @ show_int actual)
                (mismatch_data mint expected_amount actual bps src goal ''deposit_outflow_outside_tolerance'')
                High
                (''Intent '' @ [CHR 0x27] @ goal @ [CHR 0x27] @ '' does NOT match simulation (deposit outflow)'')
         else \<lparr>checker_name = CHECKER_NAME, passed = True, out_severity = SevNone,
               flags = [\<lparr>flag_code = FLAG_INTENT_VERIFICATION_INCONCLUSIVE,
                         flag_message = ''Deposit outflow verified; receipt-token verification not in rule table'',
                         flag_data = json_obj
                           [(''intent_goal'', JStr goal), (''intent_source'', JStr (source_label src)),
                            (''reason'', JStr ''deposit_receipt_unverified''),
                            (''verified_outflow_mint'', JStr (pk_text mint)),
                            (''verified_outflow_delta'', JStr (show_int actual))]\<rparr>],
               details = ''Intent '' @ [CHR 0x27] @ goal @ [CHR 0x27] @
                 '' outflow verified; receipt inconclusive (no protocol registry)''\<rparr>)"

subsection \<open>Free text and dispatch\<close>

definition unknown_symbol :: "string \<Rightarrow> string \<Rightarrow> string \<Rightarrow> checker_output" where
  "unknown_symbol goal role symbol =
     inconclusive goal ''unknown_token_symbol'' (role @ '' symbol '' @ [CHR 0x27] @ symbol @ [CHR 0x27] @ '' not in registry'')"

definition verify_swap_from_text ::
    "unicode \<Rightarrow> (int \<Rightarrow> f64) \<Rightarrow> simulation_trace \<Rightarrow> f64 \<Rightarrow> string \<Rightarrow> string \<Rightarrow> string \<Rightarrow> checker_output" where
  "verify_swap_from_text U powi10 trace amount token_in token_out goal =
     (case token_info U token_in of
        None \<Rightarrow> unknown_symbol goal ''token_in'' token_in
      | Some (mi, decimals_in) \<Rightarrow>
          (case token_info U token_out of
             None \<Rightarrow> unknown_symbol goal ''token_out'' token_out
           | Some (mo, decimals_out) \<Rightarrow>
               verify_swap trace (to_raw_units powi10 amount decimals_in) mi mo None SWAP_TOLERANCE_BPS
                 (ParsedGoal goal) goal))"

definition verify_transfer_from_text ::
    "unicode \<Rightarrow> (int \<Rightarrow> f64) \<Rightarrow> simulation_trace \<Rightarrow> f64 \<Rightarrow> string \<Rightarrow> string \<Rightarrow> checker_output" where
  "verify_transfer_from_text U powi10 trace amount token goal =
     (case token_info U token of
        None \<Rightarrow> unknown_symbol goal ''token'' token
      | Some (mint, decimals) \<Rightarrow>
          verify_transfer trace (to_raw_units powi10 amount decimals) mint TRANSFER_TOLERANCE_BPS (ParsedGoal goal) goal)"

definition verify_deposit_from_text ::
    "unicode \<Rightarrow> (int \<Rightarrow> f64) \<Rightarrow> simulation_trace \<Rightarrow> f64 \<Rightarrow> string \<Rightarrow> string \<Rightarrow> checker_output" where
  "verify_deposit_from_text U powi10 trace amount token goal =
     (case token_info U token of
        None \<Rightarrow> unknown_symbol goal ''token'' token
      | Some (mint, decimals) \<Rightarrow>
          verify_deposit trace (to_raw_units powi10 amount decimals) mint DEPOSIT_TOLERANCE_BPS (ParsedGoal goal) goal)"

text \<open>The cast of a \<^verbatim>\<open>u128\<close> amount to \<^verbatim>\<open>i128\<close> wraps.\<close>

fun verify_spec :: "simulation_trace \<Rightarrow> intent_spec \<Rightarrow> string \<Rightarrow> checker_output" where
  "verify_spec trace (SpecSwap amt mi mo min_out) desc =
     verify_swap trace (i128_wrap (int amt)) mi mo (map_option (\<lambda>v. i128_wrap (int v)) min_out) SWAP_TOLERANCE_BPS Spec desc"
| "verify_spec trace (SpecTransfer amt mint rcpt) desc =
     verify_transfer trace (i128_wrap (int amt)) mint TRANSFER_TOLERANCE_BPS Spec desc"
| "verify_spec trace (SpecDeposit amt mint prot) desc =
     verify_deposit trace (i128_wrap (int amt)) mint DEPOSIT_TOLERANCE_BPS Spec desc"

definition intent_check :: "unicode \<Rightarrow> (int \<Rightarrow> f64) \<Rightarrow> checker_context \<Rightarrow> checker_output" where
  "intent_check U powi10 ctx =
     (case ctx_intent ctx of
        None \<Rightarrow> passed_noop ''intent_diff: no intent supplied (raw tx mode)''
      | Some i \<Rightarrow>
          (case spec i of
             Some sp \<Rightarrow> verify_spec (ctx_trace ctx) sp (description i)
           | None \<Rightarrow>
               (case parse_intent_goal U (description i) of
                  PSwap amount token_in token_out \<Rightarrow>
                    verify_swap_from_text U powi10 (ctx_trace ctx) amount token_in token_out (description i)
                | PTransfer amount token rcpt \<Rightarrow>
                    verify_transfer_from_text U powi10 (ctx_trace ctx) amount token (description i)
                | PDeposit amount token prot \<Rightarrow>
                    verify_deposit_from_text U powi10 (ctx_trace ctx) amount token (description i)
                | Unrecognized \<Rightarrow>
                    inconclusive (description i) ''multi_leg_unrecognized_pattern''
                      ''Intent goal does not match a recognized verifiable pattern; balance-delta comparison cannot confirm or refute'')))"

definition intent_diff_checker :: "unicode \<Rightarrow> (int \<Rightarrow> f64) \<Rightarrow> checker" where
  "intent_diff_checker U powi10 = \<lparr>name = CHECKER_NAME, check = intent_check U powi10, ready_after = (\<lambda>ctx. None)\<rparr>"

text \<open>The stub of the model enrichment.\<close>

definition intent_diff_llm_analyze :: "intent \<Rightarrow> simulation_trace \<Rightarrow> (bool \<times> f64 \<times> string) option" where
  "intent_diff_llm_analyze i trace = None"

subsection \<open>What the checks mean in exact arithmetic\<close>

definition net_change :: "simulation_trace \<Rightarrow> pubkey \<Rightarrow> int" where
  "net_change trace mint =
     sum_list (map tbd_delta (filter (\<lambda>d. tbd_mint d = mint) (token_balance_deltas trace))) +
     (if pk_text mint = WSOL_MINT then sum_list (map (\<lambda>(k, v). sint v) (balance_deltas trace)) else 0)"

lemma i128_wrap_add: "i128_wrap (i128_wrap a + b) = i128_wrap (a + b)"
  by (simp add: i128_wrap_def wrap_signed_def mod_simps algebra_simps)

lemma i128_wrap_add2: "i128_wrap (i128_wrap a + i128_wrap b) = i128_wrap (a + b)"
  using i128_wrap_add [of a "i128_wrap b"] i128_wrap_add [of b a] by (simp add: add.commute)

lemma i128_wrap_idem: "i128_wrap (i128_wrap a) = i128_wrap a"
  using i128_wrap_add [of a 0] by simp

lemma i128_sum_wrap: "i128_sum xs = i128_wrap (sum_list xs)"
proof -
  have "foldl (\<lambda>acc x. i128_wrap (acc + x)) (i128_wrap a) xs = i128_wrap (a + sum_list xs)" for a
    by (induction xs arbitrary: a) (simp_all add: i128_wrap_add add.assoc i128_wrap_idem)
  from this [of 0] show ?thesis by (simp add: i128_sum_def i128_wrap_id i128_min_def i128_max_def)
qed

lemma sum_mint_delta_wrap: "sum_mint_delta trace mint = i128_wrap (net_change trace mint)"
  by (simp add: sum_mint_delta_def net_change_def i128_sum_wrap i128_wrap_add2 Let_def)

text \<open>Amounts up to \<open>2\<^sup>1\<^sup>1\<^sup>2\<close> leave room for the factor 10000.\<close>

abbreviation small :: "int \<Rightarrow> bool" where
  "small x \<equiv> \<bar>x\<bar> \<le> 2 ^ 112"

lemma i128_wrap_small: "\<bar>x\<bar> \<le> 2 ^ 113 \<Longrightarrow> i128_wrap x = x"
  by (rule i128_wrap_id) (auto simp: i128_min_def i128_max_def)

lemma saturating_mul_small: "\<bar>x\<bar> \<le> 2 ^ 113 \<Longrightarrow> 0 \<le> b \<Longrightarrow> b \<le> 10000 \<Longrightarrow> i128_saturating_mul x b = x * b"
proof -
  assume x: "\<bar>x\<bar> \<le> 2 ^ 113" and b: "0 \<le> b" "b \<le> 10000"
  have "\<bar>x * b\<bar> \<le> 2 ^ 113 * 10000" unfolding abs_mult by (rule mult_mono) (use x b in auto)
  then show ?thesis by (auto simp: i128_saturating_mul_def i128_min_def i128_max_def)
qed

lemma within_tolerance_exact:
  assumes "small a" "small e" "bps \<le> 10000"
  shows "within_tolerance a e bps \<longleftrightarrow> \<bar>a - e\<bar> * 10000 \<le> \<bar>e\<bar> * int bps"
proof -
  have "(2 :: int) ^ 113 = 2 * 2 ^ 112" by simp
  then have d: "\<bar>a - e\<bar> \<le> 2 ^ 113" using assms(1,2) by linarith
  then show ?thesis
    using assms by (simp add: within_tolerance_def Let_def i128_wrap_small saturating_mul_small)
qed

text \<open>What a structured intent asks of the net changes.\<close>

fun spec_met :: "simulation_trace \<Rightarrow> intent_spec \<Rightarrow> bool" where
  "spec_met t (SpecSwap amt mi mo min_out) \<longleftrightarrow>
     \<bar>net_change t mi + int amt\<bar> * 100 \<le> int amt \<and> 0 < net_change t mo \<and>
     (case min_out of None \<Rightarrow> True | Some m \<Rightarrow> int m \<le> net_change t mo)"
| "spec_met t (SpecTransfer amt mint rcpt) \<longleftrightarrow> \<bar>net_change t mint + int amt\<bar> * 1000 \<le> int amt"
| "spec_met t (SpecDeposit amt mint prot) \<longleftrightarrow> \<bar>net_change t mint + int amt\<bar> * 100 \<le> int amt"

text \<open>The amounts a structured intent and a trace put into the comparison.\<close>

fun spec_amounts :: "intent_spec \<Rightarrow> nat list" where
  "spec_amounts (SpecSwap amt mi mo min_out) = amt # (case min_out of None \<Rightarrow> [] | Some m \<Rightarrow> [m])"
| "spec_amounts (SpecTransfer amt mint rcpt) = [amt]"
| "spec_amounts (SpecDeposit amt mint prot) = [amt]"

fun spec_mints :: "intent_spec \<Rightarrow> pubkey list" where
  "spec_mints (SpecSwap amt mi mo min_out) = [mi, mo]"
| "spec_mints (SpecTransfer amt mint rcpt) = [mint]"
| "spec_mints (SpecDeposit amt mint prot) = [mint]"

definition comparable :: "simulation_trace \<Rightarrow> intent_spec \<Rightarrow> bool" where
  "comparable t sp \<longleftrightarrow> list_all (\<lambda>a. a \<le> 2 ^ 112) (spec_amounts sp) \<and> list_all (\<lambda>m. small (net_change t m)) (spec_mints sp)"

lemma outflow_ok:
  assumes "small (net_change t mint)" "amt \<le> 2 ^ 112" "bps \<le> 10000"
  shows "within_tolerance (sum_mint_delta t mint) (i128_wrap (- i128_wrap (int amt))) bps \<longleftrightarrow>
    \<bar>net_change t mint + int amt\<bar> * 10000 \<le> int amt * int bps"
proof -
  have a: "small (int amt)" using assms(2) by (simp add: of_nat_le_iff [of amt "2 ^ 112", symmetric])
  then have "i128_wrap (- i128_wrap (int amt)) = - int amt" by (simp add: i128_wrap_small)
  then show ?thesis
    using assms(1,3) a by (simp add: sum_mint_delta_wrap i128_wrap_small within_tolerance_exact)
qed

lemma verify_spec_exact:
  assumes "comparable t sp"
  shows "passed (verify_spec t sp d) \<longleftrightarrow> spec_met t sp"
proof (cases sp)
  case (SpecSwap amt mi mo min_out)
  have b: "amt \<le> 2 ^ 112" "small (net_change t mi)" "small (net_change t mo)"
    using assms by (auto simp: comparable_def SpecSwap)
  have m: "i128_wrap (int m) = int m" if "min_out = Some m" for m
  proof -
    have "m \<le> 2 ^ 112" using assms that by (simp add: comparable_def SpecSwap)
    then have "small (int m)" by (simp add: of_nat_le_iff [of m "2 ^ 112", symmetric])
    then show ?thesis by (simp add: i128_wrap_small)
  qed
  have "sum_mint_delta t mo = net_change t mo" using b(3) by (simp add: sum_mint_delta_wrap i128_wrap_small)
  then show ?thesis
    using outflow_ok [OF b(2,1), of 100] m
    by (auto simp: SpecSwap verify_swap_def passed_noop_def failed_output_def SWAP_TOLERANCE_BPS_def Let_def
        split: option.splits)
next
  case (SpecTransfer amt mint rcpt)
  then show ?thesis
    using assms outflow_ok [of t mint amt 10]
    by (auto simp: comparable_def verify_transfer_def passed_noop_def failed_output_def TRANSFER_TOLERANCE_BPS_def Let_def)
next
  case (SpecDeposit amt mint prot)
  then show ?thesis
    using assms outflow_ok [of t mint amt 100]
    by (auto simp: comparable_def verify_deposit_def failed_output_def DEPOSIT_TOLERANCE_BPS_def Let_def)
qed

lemma intent_severity:
  "out_severity (intent_check U powi10 ctx) = (if passed (intent_check U powi10 ctx) then SevNone else High)"
proof -
  note outs = passed_noop_def inconclusive_def failed_output_def unknown_symbol_def Let_def
  have v: "out_severity (verify_swap t a mi mo m b src d) = (if passed (verify_swap t a mi mo m b src d) then SevNone else High)"
    "out_severity (verify_transfer t a mi b src d) = (if passed (verify_transfer t a mi b src d) then SevNone else High)"
    "out_severity (verify_deposit t a mi b src d) = (if passed (verify_deposit t a mi b src d) then SevNone else High)"
    for t a mi mo m b src d
    by (simp_all add: verify_swap_def verify_transfer_def verify_deposit_def outs)
  have sp: "out_severity (verify_spec t sp d) = (if passed (verify_spec t sp d) then SevNone else High)" for t sp d
    by (cases sp) (simp_all add: v)
  have tx: "out_severity (verify_swap_from_text U powi10 t x ti to g) =
      (if passed (verify_swap_from_text U powi10 t x ti to g) then SevNone else High)"
    "out_severity (verify_transfer_from_text U powi10 t x ti g) =
      (if passed (verify_transfer_from_text U powi10 t x ti g) then SevNone else High)"
    "out_severity (verify_deposit_from_text U powi10 t x ti g) =
      (if passed (verify_deposit_from_text U powi10 t x ti g) then SevNone else High)" for t x ti to g
    by (simp_all add: verify_swap_from_text_def verify_transfer_from_text_def verify_deposit_from_text_def v outs
        split: option.split prod.split)
  show ?thesis
    by (simp add: intent_check_def sp tx outs split: option.split intent_pattern.split)
qed

text \<open>C29: A structured intent is checked against the net change of its mints, exactly. For amounts up to
  2^112 the check passes if and only if the outflow is within the tolerance of the stated amount (1%
  for a swap or a deposit, 0.1% for a transfer) and, for a swap, the other mint increases by at least
  the stated minimum; otherwise it fails with high severity. The free text has no influence.\<close>

theorem structured_intent_exact:
  assumes "ctx_intent ctx = Some i" "spec i = Some sp" "comparable (ctx_trace ctx) sp"
  shows "(passed (intent_check U powi10 ctx) \<longleftrightarrow> spec_met (ctx_trace ctx) sp) \<and>
    out_severity (intent_check U powi10 ctx) = (if spec_met (ctx_trace ctx) sp then SevNone else High)"
proof -
  have "passed (intent_check U powi10 ctx) \<longleftrightarrow> spec_met (ctx_trace ctx) sp"
    using assms verify_spec_exact [OF assms(3)] by (simp add: intent_check_def)
  then show ?thesis using intent_severity [of U powi10 ctx] by simp
qed

subsection \<open>Where the net change is not the user's change\<close>

text \<open>The transfer the user asked for does not verify. A trace in which the sender loses exactly the
  stated positive amount of a token and the recipient gains it has no net change, so the intent to
  transfer that amount fails with high severity: the changes are summed over all owners, and the
  recipient of the intent is not looked at.\<close>

theorem exact_transfer_rejected:
  assumes "ctx_intent ctx = Some i" "spec i = Some (SpecTransfer amt mint rcpt)" "0 < amt" "amt \<le> 2 ^ 112"
    and "pk_text mint \<noteq> WSOL_MINT"
    and "token_balance_deltas (ctx_trace ctx) =
      [\<lparr>tbd_owner = sender, tbd_mint = mint, tbd_delta = - int amt\<rparr>, \<lparr>tbd_owner = rcpt, tbd_mint = mint, tbd_delta = int amt\<rparr>]"
  shows "\<not> passed (intent_check U powi10 ctx) \<and> out_severity (intent_check U powi10 ctx) = High"
proof -
  have n: "net_change (ctx_trace ctx) mint = 0" using assms(5,6) by (simp add: net_change_def)
  have c: "comparable (ctx_trace ctx) (SpecTransfer amt mint rcpt)" using assms(4) n by (simp add: comparable_def)
  have "\<not> passed (verify_spec (ctx_trace ctx) (SpecTransfer amt mint rcpt) (description i))"
    unfolding verify_spec_exact [OF c] using assms(3) n by simp
  then have "\<not> passed (intent_check U powi10 ctx)" using assms(1,2) by (simp add: intent_check_def)
  then show ?thesis using intent_severity [of U powi10 ctx] by simp
qed

text \<open>Amounts near the top of \<^verbatim>\<open>i128\<close>: both products saturate and any change is within tolerance.\<close>

lemma saturated_amount_accepted: "within_tolerance 0 (i128_wrap (- i128_wrap (2 ^ 125))) TRANSFER_TOLERANCE_BPS"
  by (simp add: within_tolerance_def i128_wrap_def wrap_signed_def i128_saturating_mul_def i128_max_def i128_min_def
      TRANSFER_TOLERANCE_BPS_def)

subsection \<open>A transfer of a thousand units\<close>

definition usdc_mint :: pubkey where "usdc_mint = Pubkey ''EPjFWdd5AufqSSqeM2qN1xzybapC8G4wEGGkZwyTDt1v''"

definition transfer_ctx :: "token_balance_delta list \<Rightarrow> checker_context" where
  "transfer_ctx ds =
     \<lparr>ctx_trace = \<lparr>success = True, trace_error = None, balance_deltas = [], cpi_graph = [], account_changes = [], logs = [],
        oracle_reads = [], token_approvals = [], token_balance_deltas = ds, compute_units_consumed = 0, fee = 0\<rparr>,
      original_tx = \<lparr>signatures = [], message_header = (1, 0, 0), account_keys = [], recent_blockhash = [], instructions = []\<rparr>,
      ctx_intent = Some \<lparr>description = ''pay Bob'', constraints = [], spec = Some (SpecTransfer 1000 usdc_mint (Pubkey ''Bob''))\<rparr>,
      ctx_slot = 0, ctx_oracle_cache = oracle_cache_default, known_programs = with_mainnet_defaults\<rparr>"

definition outflow_only :: "token_balance_delta list" where
  "outflow_only = [\<lparr>tbd_owner = Pubkey ''Alice'', tbd_mint = usdc_mint, tbd_delta = - 1000\<rparr>]"

definition both_sides :: "token_balance_delta list" where
  "both_sides = [\<lparr>tbd_owner = Pubkey ''Alice'', tbd_mint = usdc_mint, tbd_delta = - 1000\<rparr>,
                 \<lparr>tbd_owner = Pubkey ''Bob'', tbd_mint = usdc_mint, tbd_delta = 1000\<rparr>]"

lemma usdc_not_wsol [simp]: "pk_text usdc_mint \<noteq> WSOL_MINT"
  by (simp add: usdc_mint_def WSOL_MINT_def)

theorem structured_intent_exact_witness:
  "passed (intent_check \<lparr>u_alphanumeric = (\<lambda>c. False), u_whitespace = (\<lambda>c. False), u_to_lowercase = id, u_to_uppercase = id\<rparr>
     (\<lambda>k. Fin 1) (transfer_ctx outflow_only))"
proof -
  let ?t = "ctx_trace (transfer_ctx outflow_only)" and ?sp = "SpecTransfer 1000 usdc_mint (Pubkey ''Bob'')"
  have n: "net_change ?t usdc_mint = - 1000" by (simp add: net_change_def transfer_ctx_def outflow_only_def)
  have "comparable ?t ?sp" using n by (simp add: comparable_def)
  moreover have "spec_met ?t ?sp" using n by simp
  ultimately show ?thesis
    using structured_intent_exact [of "transfer_ctx outflow_only"] by (auto simp: transfer_ctx_def)
qed

theorem exact_transfer_rejected_witness:
  "\<not> passed (intent_check \<lparr>u_alphanumeric = (\<lambda>c. False), u_whitespace = (\<lambda>c. False), u_to_lowercase = id, u_to_uppercase = id\<rparr>
     (\<lambda>k. Fin 1) (transfer_ctx both_sides))"
proof -
  have "ctx_intent (transfer_ctx both_sides) =
      Some \<lparr>description = ''pay Bob'', constraints = [], spec = Some (SpecTransfer 1000 usdc_mint (Pubkey ''Bob''))\<rparr>"
    "token_balance_deltas (ctx_trace (transfer_ctx both_sides)) =
      [\<lparr>tbd_owner = Pubkey ''Alice'', tbd_mint = usdc_mint, tbd_delta = - int 1000\<rparr>,
       \<lparr>tbd_owner = Pubkey ''Bob'', tbd_mint = usdc_mint, tbd_delta = int 1000\<rparr>]"
    by (simp_all add: transfer_ctx_def both_sides_def)
  from exact_transfer_rejected [OF this(1) _ _ _ usdc_not_wsol this(2)] show ?thesis by simp
qed

end
