(* ===== verification/Drift_Fixture.thy ===== *)
theory Drift_Fixture
  imports Executor Oracle_Cache Pea "HOL-Library.Countable"
begin

section \<open>The Drift exploit fixture\<close>

text \<open>
  \<^verbatim>\<open>crates/ciel-fixtures/src\<close>: the synthetic replay of the Drift exploit (its transaction, account
  states and metadata) and the files that hold it. Key derivation, the compilation and signing of
  a message, base58, base64, bincode and the JSON text are parameters (\<open>fixture_env\<close>); file
  operations can fail. The lemmas show the round trip through the files and what the oracle
  parsers make of the generated accounts; what the pipeline answers to the fixture is in the root
  theory.
\<close>

subsection \<open>Types\<close>

datatype fixture_error =
    FileNotFound string
  | DeserializationFailed string
  | Base64Failed string
  | BincodeFailed string
  | IoFailed string
  | MissingAccount string

record fixture_metadata =
  fm_description :: string
  fm_slot :: u64
  fm_blockhash :: string
  fm_transaction_signature :: "string option"
  fm_exploit_type :: string
  fm_expected_checkers :: "string list"
  fm_expected_verdict :: string
  fm_is_synthetic :: bool

record exploit_fixture =
  fx_transaction :: transaction
  fx_accounts :: "(pubkey, account) hashmap"
  fx_metadata :: fixture_metadata

record serialized_transaction =
  st_encoding :: string
  st_data :: string

record serialized_account =
  sa_lamports :: u64
  sa_data :: "string \<times> string"
  sa_owner :: string
  sa_executable :: bool
  sa_rent_epoch :: u64

text \<open>Instructions and account metas of the Solana SDK.\<close>

record account_meta =
  am_pubkey :: pubkey
  am_is_signer :: bool
  am_is_writable :: bool

record instruction =
  ix_program_id :: pubkey
  ix_accounts :: "account_meta list"
  ix_data :: bytes

definition meta_new :: "pubkey \<Rightarrow> bool \<Rightarrow> account_meta" where
  "meta_new k is_sig = \<lparr>am_pubkey = k, am_is_signer = is_sig, am_is_writable = True\<rparr>"

definition meta_new_readonly :: "pubkey \<Rightarrow> bool \<Rightarrow> account_meta" where
  "meta_new_readonly k is_sig = \<lparr>am_pubkey = k, am_is_signer = is_sig, am_is_writable = False\<rparr>"

text \<open>
  The outside of the fixture code. \<open>keypair_key\<close> is the public key of the key pair of a 32-byte
  seed; the derivation fails only for shorter seeds, which a SHA-256 hash is not.
\<close>

record fixture_env =
  fx_sha256 :: "bytes \<Rightarrow> bytes"
  keypair_key :: "bytes \<Rightarrow> pubkey"
  key_bytes :: "pubkey \<Rightarrow> bytes"
  message_new :: "instruction list \<Rightarrow> pubkey \<Rightarrow> transaction"
  partial_sign :: "pubkey list \<Rightarrow> bytes \<Rightarrow> transaction \<Rightarrow> transaction"
  bs58_encode :: "bytes \<Rightarrow> string"
  parse_pubkey :: "string \<Rightarrow> pubkey option"
  fx_codecs :: text_codecs
  bincode_ser :: "transaction \<Rightarrow> (string, bytes) result"
  bincode_de :: "bytes \<Rightarrow> (string, transaction) result"
  to_string_pretty :: "json \<Rightarrow> string"
  from_str :: "string \<Rightarrow> (string, json) result"

subsection \<open>Constants\<close>

definition drift_program_id :: pubkey where
  "drift_program_id = Pubkey ''dRiftyHA39MWEi3m9aunc5MzRF1JYuBsbn6VPcn33UH''"
definition spl_token_program_id :: pubkey where
  "spl_token_program_id = Pubkey ''TokenkegQfeZyiNwAJbNbGKPFXCWuBvf9Ss623VQ5DA''"
definition switchboard_v2_program_id :: pubkey where
  "switchboard_v2_program_id = Pubkey ''SW1TCH7qEPTdLsDHRgPuMQjbQxKdH2aBStViMFnt64f''"
definition pyth_program_id :: pubkey where
  "pyth_program_id = Pubkey ''FsJ3A3u2vn5cTVofAjvy6y5kwABJAqYWpe4975bi2epH''"
definition squads_program_id :: pubkey where
  "squads_program_id = Pubkey ''SQDS4ep65T869zMMBKyuUq6aD6EgTu8psMjkvj52pCf''"

definition SYNTHETIC_SLOT :: u64 where "SYNTHETIC_SLOT = 350000000"
definition DRAIN_AMOUNT :: u64 where "DRAIN_AMOUNT = 285000000 * 1000000"
definition SWITCHBOARD_PRICE :: f64 where "SWITCHBOARD_PRICE = rnd 200"
definition SWITCHBOARD_STD_DEV :: f64 where "SWITCHBOARD_STD_DEV = rnd (45/100)"
definition PYTH_PRICE :: u64 where "PYTH_PRICE = 14250"
definition PYTH_CONFIDENCE :: u64 where "PYTH_CONFIDENCE = 38"
definition PYTH_EXPONENT :: u32 where "PYTH_EXPONENT = - 2"

text \<open>\<^verbatim>\<open>to_le_bytes\<close> of words and of an \<^verbatim>\<open>f64\<close> (its IEEE bit pattern).\<close>

definition le64 :: "u64 \<Rightarrow> bytes" where "le64 w = le_bytes 8 (unat w)"
definition le32 :: "u32 \<Rightarrow> bytes" where "le32 w = le_bytes 4 (unat w)"

fun f64_bits :: "f64 \<Rightarrow> nat" where
  "f64_bits NaN = 2047 * 2 ^ 52 + 2 ^ 51"
| "f64_bits (Inf s) = (if s then 2 ^ 63 else 0) + 2047 * 2 ^ 52"
| "f64_bits (Fin x) =
     (let ax = \<bar>x\<bar>; e = max (- 1022) (ilog2 ax); m = nat \<lfloor>ax / pow2 (e - 52)\<rfloor>
      in (if x < 0 then 2 ^ 63 else 0) +
         (if x = 0 then 0 else if m < 2 ^ 52 then m else nat (e + 1023) * 2 ^ 52 + (m - 2 ^ 52)))"

definition f64_le_bytes :: "f64 \<Rightarrow> bytes" where
  "f64_le_bytes x = le_bytes 8 (f64_bits x)"

text \<open>\<^verbatim>\<open>data[off..off+n].copy_from_slice(src)\<close> within bounds.\<close>

definition copy_at :: "nat \<Rightarrow> bytes \<Rightarrow> bytes \<Rightarrow> bytes" where
  "copy_at off src d = take off d @ src @ drop (off + length src) d"

subsection \<open>Account data\<close>

definition build_synthetic_switchboard_data :: bytes where
  "build_synthetic_switchboard_data = replicate 8 0 @ f64_le_bytes SWITCHBOARD_PRICE"

definition build_switchboard_account_data :: bytes where
  "build_switchboard_account_data =
     copy_at 16 (le64 SYNTHETIC_SLOT)
       (copy_at 8 (f64_le_bytes SWITCHBOARD_STD_DEV)
         (copy_at 0 (f64_le_bytes SWITCHBOARD_PRICE) (replicate 128 0)))"

definition build_pyth_account_data :: bytes where
  "build_pyth_account_data =
     copy_at 20 (le64 SYNTHETIC_SLOT)
       (copy_at 16 (le32 PYTH_EXPONENT)
         (copy_at 8 (le64 PYTH_CONFIDENCE) (copy_at 0 (le64 PYTH_PRICE) (replicate 128 0))))"

definition build_mint_data :: "u8 \<Rightarrow> bytes" where
  "build_mint_data decimals =
     (let supply = 10000000000 * (10 :: u64) ^ unat decimals
      in ((copy_at 36 (le64 supply) (copy_at 0 (le32 0) (replicate 82 0)))[44 := decimals])[45 := 1])"

definition build_token_account_data :: "fixture_env \<Rightarrow> pubkey \<Rightarrow> pubkey \<Rightarrow> u64 \<Rightarrow> bytes" where
  "build_token_account_data X mint owner amount =
     (copy_at 64 (le64 amount) (copy_at 32 (key_bytes X owner) (copy_at 0 (key_bytes X mint) (replicate 165 0))))[108 := 1]"

subsection \<open>The fixture\<close>

definition deterministic_key :: "fixture_env \<Rightarrow> string \<Rightarrow> pubkey" where
  "deterministic_key X seed_phrase = keypair_key X (fx_sha256 X (str_bytes seed_phrase))"

definition switchboard_update_ix :: "fixture_env \<Rightarrow> instruction" where
  "switchboard_update_ix X =
     \<lparr>ix_program_id = switchboard_v2_program_id,
      ix_accounts = [meta_new (deterministic_key X ''ciel-drift-fixture-switchboard-feed'') False,
                     meta_new_readonly (deterministic_key X ''ciel-drift-fixture-oracle-authority'') True],
      ix_data = build_synthetic_switchboard_data\<rparr>"

definition set_authority_ix :: "fixture_env \<Rightarrow> instruction" where
  "set_authority_ix X =
     \<lparr>ix_program_id = spl_token_program_id,
      ix_accounts = [meta_new (deterministic_key X ''ciel-drift-fixture-vault-token'') False,
                     meta_new_readonly (deterministic_key X ''ciel-drift-fixture-vault-authority'') True],
      ix_data = [6, 2, 1] @ key_bytes X (deterministic_key X ''ciel-drift-fixture-attacker'')\<rparr>"

definition transfer_ix :: "fixture_env \<Rightarrow> instruction" where
  "transfer_ix X =
     \<lparr>ix_program_id = spl_token_program_id,
      ix_accounts = [meta_new (deterministic_key X ''ciel-drift-fixture-vault-token'') False,
                     meta_new (deterministic_key X ''ciel-drift-fixture-attacker-token'') False,
                     meta_new_readonly (deterministic_key X ''ciel-drift-fixture-attacker'') True],
      ix_data = 3 # le64 DRAIN_AMOUNT\<rparr>"

definition drift_transaction :: "fixture_env \<Rightarrow> transaction" where
  "drift_transaction X =
     (let attacker = deterministic_key X ''ciel-drift-fixture-attacker''
      in partial_sign X
           [attacker, deterministic_key X ''ciel-drift-fixture-oracle-authority'',
            deterministic_key X ''ciel-drift-fixture-vault-authority''] (replicate 32 1)
           (message_new X [switchboard_update_ix X, set_authority_ix X, transfer_ix X] attacker))"

definition plain_account :: "u64 \<Rightarrow> bytes \<Rightarrow> pubkey \<Rightarrow> bool \<Rightarrow> account" where
  "plain_account l d own ex = \<lparr>lamports = l, acct_data = d, acct_owner = own, executable = ex, rent_epoch = 0\<rparr>"

definition drift_account_list :: "fixture_env \<Rightarrow> (pubkey \<times> account) list" where
  "drift_account_list X =
     (let key = deterministic_key X; mint = key ''ciel-drift-fixture-usdc-mint'';
          loader = Pubkey ''BPFLoaderUpgradeab1e11111111111111111111111''
      in [(key ''ciel-drift-fixture-attacker'', plain_account 10000000000 [] system_program_id False),
         (key ''ciel-drift-fixture-oracle-authority'', plain_account 1000000000 [] system_program_id False),
         (key ''ciel-drift-fixture-vault-authority'', plain_account 1000000000 [] system_program_id False),
         (key ''ciel-drift-fixture-switchboard-feed'',
            plain_account 6124800 build_switchboard_account_data switchboard_v2_program_id False),
         (key ''ciel-drift-fixture-pyth-feed'', plain_account 6124800 build_pyth_account_data pyth_program_id False),
         (mint, plain_account 1461600 (build_mint_data 6) spl_token_program_id False),
         (key ''ciel-drift-fixture-vault-token'',
            plain_account 2039280 (build_token_account_data X mint (key ''ciel-drift-fixture-vault-authority'') DRAIN_AMOUNT)
              spl_token_program_id False),
         (key ''ciel-drift-fixture-attacker-token'',
            plain_account 2039280 (build_token_account_data X mint (key ''ciel-drift-fixture-attacker'') 0)
              spl_token_program_id False),
         (spl_token_program_id, plain_account 1141440 (str_bytes ''spl-token'') loader True),
         (switchboard_v2_program_id, plain_account 1141440 (str_bytes ''switchboard-v2'') loader True),
         (pyth_program_id, plain_account 1141440 (str_bytes ''pyth'') loader True),
         (drift_program_id, plain_account 1141440 (str_bytes ''drift-v2'') loader True),
         (system_program_id, plain_account 1 [] (Pubkey ''NativeLoader1111111111111111111111111111111'') True)])"

definition drift_accounts :: "fixture_env \<Rightarrow> (pubkey, account) hashmap" where
  "drift_accounts X = hm_collect (drift_account_list X)"

definition drift_metadata :: "fixture_env \<Rightarrow> fixture_metadata" where
  "drift_metadata X =
     \<lparr>fm_description = ''Synthetic Drift Protocol exploit fixture '' @ [CHR 0xE2, CHR 0x80, CHR 0x94] @
        '' oracle price manipulation + admin key transfer (April 1, 2026 scenario)'',
      fm_slot = SYNTHETIC_SLOT, fm_blockhash = bs58_encode X (replicate 32 1), fm_transaction_signature = None,
      fm_exploit_type = ''oracle_manipulation + authority_transfer'',
      fm_expected_checkers = [''oracle_sanity'', ''authority_diff''], fm_expected_verdict = ''BLOCK'',
      fm_is_synthetic = True\<rparr>"

definition generate_drift_fixture :: "fixture_env \<Rightarrow> exploit_fixture" where
  "generate_drift_fixture X =
     \<lparr>fx_transaction = drift_transaction X, fx_accounts = drift_accounts X, fx_metadata = drift_metadata X\<rparr>"

subsection \<open>Files\<close>

text \<open>The derived JSON forms of the on-disk types.\<close>

definition tx_json :: "serialized_transaction \<Rightarrow> json" where
  "tx_json t = json_obj [(''encoding'', JStr (st_encoding t)), (''data'', JStr (st_data t))]"

definition account_json :: "serialized_account \<Rightarrow> json" where
  "account_json a =
     json_obj [(''lamports'', JU64 (unat (sa_lamports a))),
       (''data'', JArr [JStr (fst (sa_data a)), JStr (snd (sa_data a))]), (''owner'', JStr (sa_owner a)),
       (''executable'', JBool (sa_executable a)), (''rent_epoch'', JU64 (unat (sa_rent_epoch a)))]"

definition metadata_json :: "fixture_metadata \<Rightarrow> json" where
  "metadata_json m =
     json_obj [(''description'', JStr (fm_description m)), (''slot'', JU64 (unat (fm_slot m))),
       (''blockhash'', JStr (fm_blockhash m)),
       (''transaction_signature'', json_opt JStr (fm_transaction_signature m)),
       (''exploit_type'', JStr (fm_exploit_type m)),
       (''expected_checkers'', JArr (map JStr (fm_expected_checkers m))),
       (''expected_verdict'', JStr (fm_expected_verdict m)), (''is_synthetic'', JBool (fm_is_synthetic m))]"

fun json_as_strings :: "json \<Rightarrow> string list option" where
  "json_as_strings (JArr vs) = those (map json_as_str vs)"
| "json_as_strings v = None"

definition u64_field :: "json \<Rightarrow> string \<Rightarrow> u64 option" where
  "u64_field v k =
     (case Option.bind (json_get v k) json_as_u64 of
        None \<Rightarrow> None
      | Some n \<Rightarrow> if n < 2 ^ 64 then Some (of_nat n) else None)"

definition str_of :: "json \<Rightarrow> string \<Rightarrow> string option" where
  "str_of v k = Option.bind (json_get v k) json_as_str"

definition json_tx :: "json \<Rightarrow> serialized_transaction option" where
  "json_tx v =
     Option.bind (str_of v ''encoding'') (\<lambda>e. map_option (\<lambda>d. \<lparr>st_encoding = e, st_data = d\<rparr>) (str_of v ''data''))"

definition json_account :: "json \<Rightarrow> serialized_account option" where
  "json_account v =
     Option.bind (u64_field v ''lamports'') (\<lambda>l.
     Option.bind (Option.bind (json_get v ''data'') json_as_strings) (\<lambda>ds.
     Option.bind (str_of v ''owner'') (\<lambda>own.
     Option.bind (Option.bind (json_get v ''executable'') json_as_bool) (\<lambda>ex.
     Option.bind (u64_field v ''rent_epoch'') (\<lambda>re.
       case ds of
         [d, e] \<Rightarrow> Some \<lparr>sa_lamports = l, sa_data = (d, e), sa_owner = own, sa_executable = ex, sa_rent_epoch = re\<rparr>
       | _ \<Rightarrow> None)))))"

text \<open>An optional field may be absent or \<^verbatim>\<open>null\<close>.\<close>

definition opt_str_of :: "json \<Rightarrow> string \<Rightarrow> string option option" where
  "opt_str_of v k =
     (case json_get v k of
        None \<Rightarrow> Some None
      | Some x \<Rightarrow> if x = JNull then Some None else map_option Some (json_as_str x))"

definition json_metadata :: "json \<Rightarrow> fixture_metadata option" where
  "json_metadata v =
     Option.bind (str_of v ''description'') (\<lambda>d.
     Option.bind (u64_field v ''slot'') (\<lambda>sl.
     Option.bind (str_of v ''blockhash'') (\<lambda>bh.
     Option.bind (opt_str_of v ''transaction_signature'') (\<lambda>sg.
     Option.bind (str_of v ''exploit_type'') (\<lambda>et.
     Option.bind (Option.bind (json_get v ''expected_checkers'') json_as_strings) (\<lambda>cs.
     Option.bind (str_of v ''expected_verdict'') (\<lambda>ev.
     map_option (\<lambda>syn. \<lparr>fm_description = d, fm_slot = sl, fm_blockhash = bh, fm_transaction_signature = sg,
         fm_exploit_type = et, fm_expected_checkers = cs, fm_expected_verdict = ev, fm_is_synthetic = syn\<rparr>)
       (Option.bind (json_get v ''is_synthetic'') json_as_bool))))))))"

definition serialized_account_of :: "fixture_env \<Rightarrow> account \<Rightarrow> serialized_account" where
  "serialized_account_of X a =
     \<lparr>sa_lamports = lamports a, sa_data = (b64_encode (fx_codecs X) (acct_data a), ''base64''),
      sa_owner = pk_text (acct_owner a), sa_executable = executable a, sa_rent_epoch = rent_epoch a\<rparr>"

type_synonym directory = "(string, string) hashmap"

text \<open>Writing a file, which can fail; the files written before a failure stay.\<close>

definition write_file ::
    "(string \<Rightarrow> string option) \<Rightarrow> string \<Rightarrow> string \<Rightarrow> directory \<Rightarrow> directory \<times> (fixture_error, unit) result" where
  "write_file fault f text dir =
     (case fault f of Some e \<Rightarrow> (dir, Inl (IoFailed e)) | None \<Rightarrow> (hm_insert f text dir, Inr ()))"

definition write_fixture_to_disk ::
    "fixture_env \<Rightarrow> (string \<Rightarrow> string option) \<Rightarrow> exploit_fixture \<Rightarrow> directory \<Rightarrow>
     directory \<times> (fixture_error, unit) result" where
  "write_fixture_to_disk X fault fx dir =
     (case fault ''.'' of
        Some e \<Rightarrow> (dir, Inl (IoFailed e))
      | None \<Rightarrow>
          (case bincode_ser X (fx_transaction fx) of
             Inl e \<Rightarrow> (dir, Inl (BincodeFailed e))
           | Inr bs \<Rightarrow>
               (case write_file fault ''transaction.json''
                   (to_string_pretty X (tx_json \<lparr>st_encoding = ''base64+bincode'', st_data = b64_encode (fx_codecs X) bs\<rparr>)) dir of
                  (d1, Inl e) \<Rightarrow> (d1, Inl e)
                | (d1, Inr u1) \<Rightarrow>
                    (case write_file fault ''accounts.json''
                        (to_string_pretty X
                          (json_obj (map (\<lambda>(k, a). (pk_text k, account_json (serialized_account_of X a))) (fx_accounts fx)))) d1 of
                       (d2, Inl e) \<Rightarrow> (d2, Inl e)
                     | (d2, Inr u2) \<Rightarrow>
                         write_file fault ''metadata.json'' (to_string_pretty X (metadata_json (fx_metadata fx))) d2))))"

definition read_json :: "fixture_env \<Rightarrow> directory \<Rightarrow> string \<Rightarrow> (fixture_error, json) result" where
  "read_json X dir f =
     bind_result (ok_or (IoFailed f) (hm_get dir f)) (\<lambda>text. map_err DeserializationFailed (from_str X text))"

definition load_account_entry ::
    "fixture_env \<Rightarrow> string \<times> serialized_account \<Rightarrow> (fixture_error, pubkey \<times> account) result" where
  "load_account_entry X ks =
     (case ks of (key_str, sa) \<Rightarrow>
        bind_result (ok_or (MissingAccount key_str) (parse_pubkey X key_str)) (\<lambda>k.
        bind_result (map_err Base64Failed (b64_decode (fx_codecs X) (fst (sa_data sa)))) (\<lambda>d.
        bind_result (ok_or (MissingAccount (sa_owner sa)) (parse_pubkey X (sa_owner sa))) (\<lambda>own.
        Inr (k, \<lparr>lamports = sa_lamports sa, acct_data = d, acct_owner = own, executable = sa_executable sa,
                 rent_epoch = sa_rent_epoch sa\<rparr>)))))"

fun load_account_map ::
    "fixture_env \<Rightarrow> (string \<times> serialized_account) list \<Rightarrow> (pubkey, account) hashmap \<Rightarrow>
     (fixture_error, (pubkey, account) hashmap) result" where
  "load_account_map X [] m = Inr m"
| "load_account_map X (e # es) m =
     bind_result (load_account_entry X e) (\<lambda>(k, a). load_account_map X es (hm_insert k a m))"

fun json_account_map :: "json \<Rightarrow> (string \<times> serialized_account) list option" where
  "json_account_map (JObj kvs) = those (map (\<lambda>(k, v). map_option (Pair k) (json_account v)) kvs)"
| "json_account_map v = None"

definition load_from_disk :: "fixture_env \<Rightarrow> directory \<Rightarrow> (fixture_error, exploit_fixture) result" where
  "load_from_disk X dir =
     bind_result (read_json X dir ''transaction.json'') (\<lambda>tj.
     bind_result (ok_or (DeserializationFailed ''transaction.json'') (json_tx tj)) (\<lambda>st.
     bind_result (map_err Base64Failed (b64_decode (fx_codecs X) (st_data st))) (\<lambda>bs.
     bind_result (map_err BincodeFailed (bincode_de X bs)) (\<lambda>tx.
     bind_result (read_json X dir ''accounts.json'') (\<lambda>aj.
     bind_result (ok_or (DeserializationFailed ''accounts.json'') (json_account_map aj)) (\<lambda>sas.
     bind_result (load_account_map X sas []) (\<lambda>accounts.
     bind_result (read_json X dir ''metadata.json'') (\<lambda>mj.
     bind_result (ok_or (DeserializationFailed ''metadata.json'') (json_metadata mj)) (\<lambda>md.
     case List.find (\<lambda>k. hm_get accounts k = None) (account_keys tx) of
       Some k \<Rightarrow> Inl (MissingAccount (pk_text k))
     | None \<Rightarrow> Inr \<lparr>fx_transaction = tx, fx_accounts = accounts, fx_metadata = md\<rparr>)))))))))"

definition fixture_files_present :: "directory \<Rightarrow> bool" where
  "fixture_files_present dir \<longleftrightarrow>
     hm_get dir ''transaction.json'' \<noteq> None \<and> hm_get dir ''accounts.json'' \<noteq> None \<and> hm_get dir ''metadata.json'' \<noteq> None"

definition load_drift_fixture :: "fixture_env \<Rightarrow> directory \<Rightarrow> (fixture_error, exploit_fixture) result" where
  "load_drift_fixture X dir =
     (if fixture_files_present dir then load_from_disk X dir else Inr (generate_drift_fixture X))"

definition load_drift_real_fixture :: "fixture_env \<Rightarrow> string \<Rightarrow> directory \<Rightarrow> (fixture_error, exploit_fixture) result" where
  "load_drift_real_fixture X path dir =
     (if fixture_files_present dir then load_from_disk X dir else Inl (FileNotFound path))"

subsection \<open>Reading back what was written\<close>

text \<open>What the outside documents: the codecs, the JSON text of values without floats, bincode and base58 keys read back.\<close>

definition env_roundtrips :: "fixture_env \<Rightarrow> bool" where
  "env_roundtrips X \<longleftrightarrow> codecs_roundtrip (fx_codecs X) \<and>
     (\<forall>v. exact_text v \<longrightarrow> from_str X (to_string_pretty X v) = Inr v) \<and>
     (\<forall>tx bs. bincode_ser X tx = Inr bs \<longrightarrow> bincode_de X bs = Inr tx) \<and>
     (\<forall>k. parse_pubkey X (pk_text k) = Some k)"

lemma fixture_json_exact:
  "json_exact (Suc d) (tx_json t)" "json_exact (Suc (Suc d)) (account_json a)" "json_exact (Suc (Suc d)) (metadata_json m)"
  by (auto simp: tx_json_def account_json_def metadata_json_def list_all_iff unat_u64_less intro!: json_exact_obj split: option.splits)
    (cases "fm_transaction_signature m"; simp)

lemma fixture_exact_text: "exact_text (tx_json t)" "exact_text (account_json a)" "exact_text (metadata_json m)"
  by (rule exact_textI [OF fixture_json_exact(1) [of 0]] exact_textI [OF fixture_json_exact(2) [of 0]]
      exact_textI [OF fixture_json_exact(3) [of 0]], simp)+

lemma those_map_Some: "those (map (\<lambda>x. Some (f x)) xs) = Some (map f xs)"
  by (induction xs) simp_all

lemma fixture_json_read:
  "json_tx (tx_json t) = Some t" "json_account (account_json a) = Some a" "json_metadata (metadata_json m) = Some m"
proof -
  have "opt_str_of (metadata_json m) ''transaction_signature'' = Some (fm_transaction_signature m)"
    by (cases "fm_transaction_signature m") (simp_all add: opt_str_of_def metadata_json_def)
  moreover have "those (map json_as_str (map JStr ss)) = Some ss" for ss by (induction ss) simp_all
  ultimately show "json_metadata (metadata_json m) = Some m"
    by (simp add: json_metadata_def str_of_def u64_field_def) (simp add: metadata_json_def unat_u64_less)
qed (simp_all add: json_tx_def tx_json_def str_of_def json_account_def account_json_def u64_field_def unat_u64_less)

lemma list_from_image: "set xs \<subseteq> f ` set ms \<Longrightarrow> \<exists>ms'. xs = map f ms' \<and> set ms' \<subseteq> set ms"
proof (induction xs)
  case (Cons x xs)
  then obtain ms' m where "xs = map f ms'" "set ms' \<subseteq> set ms" "x = f m" "m \<in> set ms" by auto
  then show ?case by (intro exI [of _ "m # ms'"]) simp
qed simp

text \<open>The map that is read back has the accounts that were written.\<close>

lemma load_account_map_collect:
  assumes "env_roundtrips X"
  shows "load_account_map X (map (\<lambda>ka. (pk_text (fst ka), serialized_account_of X (snd ka))) kas) m =
    Inr (fold (\<lambda>(k, a) m. hm_insert k a m) kas m)"
proof -
  have "load_account_entry X (pk_text k, serialized_account_of X a) = Inr (k, a)" for k a
    using assms by (cases a) (simp add: load_account_entry_def serialized_account_of_def env_roundtrips_def codecs_roundtrip_def)
  then show ?thesis by (induction kas arbitrary: m) auto
qed

lemma map_of_rev_keys: "distinct (map fst xs) \<Longrightarrow> map_of (rev xs) = map_of xs"
proof -
  assume d: "distinct (map fst xs)"
  then have "distinct (map fst (rev xs))" by (metis distinct_rev rev_map)
  from map_of_inject_set [OF this d] show ?thesis by simp
qed

lemma account_map_read:
  assumes "env_roundtrips X" "hm_ok m"
  shows "\<exists>sas m'. json_account_map (json_obj (map (\<lambda>(k, a). (pk_text k, account_json (serialized_account_of X a))) m)) = Some sas \<and>
    load_account_map X sas [] = Inr m' \<and> map_of m' = map_of m"
proof -
  let ?H = "\<lambda>(k, a). (pk_text k, account_json (serialized_account_of X a))"
  let ?kvs = "bt_collect (map ?H m)"
  have inj: "pk_text k = pk_text k' \<longleftrightarrow> k = k'" for k k' by (metis pubkey.expand)
  have "map fst (map ?H m) = map pk_text (map fst m)" by (simp add: case_prod_beta)
  then have dist: "distinct (map fst (map ?H m))"
    using assms(2) inj by (simp only: hm_ok_def distinct_map inj_on_def) blast
  have kvs: "distinct (map fst ?kvs)" using bt_collect_ok [of "map ?H m"] by (simp add: bt_ok_def strict_sorted_iff)
  have "map_of ?kvs = map_of (rev (map ?H m))" using lookup_bt_collect by blast
  then have "map_of ?kvs = map_of (map ?H m)" unfolding map_of_rev_keys [OF dist] .
  then have sets: "set ?kvs = set (map ?H m)" using map_of_inject_set [OF kvs dist] by (rule iffD1 [rotated])
  then obtain m' where m': "?kvs = map ?H m'" "set m' \<subseteq> set m" using list_from_image [of ?kvs ?H m] by auto
  have "map fst ?kvs = map pk_text (map fst m')" unfolding m'(1) by (simp add: case_prod_beta)
  then have dist': "distinct (map fst m')" using kvs by (simp only: distinct_map [of pk_text])
  have "set m \<subseteq> set m'"
  proof
    fix e assume e: "e \<in> set m"
    obtain k a where ka: "e = (k, a)" by (cases e)
    have "?H e \<in> set (map ?H m')" using e sets m'(1) by auto
    then obtain a' where "(k, a') \<in> set m'" using ka inj by auto
    then show "e \<in> set m'" using m'(2) e ka assms(2) by (metis eq_key_imp_eq_value hm_ok_def subsetD)
  qed
  then have "map_of m' = map_of m"
    using m'(2) dist' assms(2) by (simp add: map_of_inject_set hm_ok_def subset_antisym)
  moreover have "map_of (rev m') = map_of m'" by (rule map_of_rev_keys [OF dist'])
  ultimately have look: "map_of (hm_collect m') = map_of m" using lookup_hm_collect [of m'] by (intro ext) simp
  have "map (\<lambda>(k, v). map_option (Pair k) (json_account v)) (map ?H m') =
      map (\<lambda>ka. Some (pk_text (fst ka), serialized_account_of X (snd ka))) m'"
    by (simp add: fixture_json_read case_prod_beta)
  then have "json_account_map (JObj ?kvs) = Some (map (\<lambda>ka. (pk_text (fst ka), serialized_account_of X (snd ka))) m')"
    unfolding m'(1) json_account_map.simps by (simp only: those_map_Some)
  then show ?thesis
    using load_account_map_collect [OF assms(1), of m' "[]"] look
    by (auto simp: json_obj_def hm_collect_def case_prod_beta)
qed

text \<open>C34: A fixture survives its files. When writing succeeds, loading the directory gives back the same
  transaction and metadata and a map with the same accounts, provided every account key of the
  transaction has an account; the synthetic fixture is such a fixture.\<close>

theorem fixture_roundtrip:
  assumes "env_roundtrips X" "hm_ok (fx_accounts fx)"
    and "\<forall>k \<in> set (account_keys (fx_transaction fx)). hm_get (fx_accounts fx) k \<noteq> None"
    and "write_fixture_to_disk X fault fx dir = (dir', Inr ())"
  shows "\<exists>fx'. load_drift_fixture X dir' = Inr fx' \<and> fx_transaction fx' = fx_transaction fx \<and>
    fx_metadata fx' = fx_metadata fx \<and> map_of (fx_accounts fx') = map_of (fx_accounts fx)"
proof -
  let ?aj = "json_obj (map (\<lambda>(k, a). (pk_text k, account_json (serialized_account_of X a))) (fx_accounts fx))"
  obtain bs where bs: "bincode_ser X (fx_transaction fx) = Inr bs"
    using assms(4) by (auto simp: write_fixture_to_disk_def split: option.splits sum.splits)
  let ?tj = "tx_json \<lparr>st_encoding = ''base64+bincode'', st_data = b64_encode (fx_codecs X) bs\<rparr>"
  have f: "hm_get dir' ''transaction.json'' = Some (to_string_pretty X ?tj)"
    "hm_get dir' ''accounts.json'' = Some (to_string_pretty X ?aj)"
    "hm_get dir' ''metadata.json'' = Some (to_string_pretty X (metadata_json (fx_metadata fx)))"
    using assms(4) bs by (auto simp: write_fixture_to_disk_def write_file_def update_conv' split: option.splits)
  have "json_exact (Suc (Suc (Suc 0))) ?aj" using fixture_json_exact(2) by (auto intro!: json_exact_obj)
  then have "exact_text ?aj" by (rule exact_textI) simp
  then have r: "read_json X dir' ''transaction.json'' = Inr ?tj" "read_json X dir' ''accounts.json'' = Inr ?aj"
    "read_json X dir' ''metadata.json'' = Inr (metadata_json (fx_metadata fx))"
    using f assms(1) fixture_exact_text by (simp_all add: read_json_def env_roundtrips_def)
  obtain sas m' where m': "json_account_map ?aj = Some sas" "load_account_map X sas [] = Inr m'" "map_of m' = map_of (fx_accounts fx)"
    using account_map_read [OF assms(1,2)] by blast
  have "List.find (\<lambda>k. hm_get m' k = None) (account_keys (fx_transaction fx)) = None"
    using assms(3) by (auto simp: find_None_iff m'(3))
  moreover have "bincode_de X bs = Inr (fx_transaction fx)" "b64_decode (fx_codecs X) (b64_encode (fx_codecs X) bs) = Inr bs"
    using assms(1) bs by (auto simp: env_roundtrips_def codecs_roundtrip_def)
  ultimately have "load_from_disk X dir' = Inr \<lparr>fx_transaction = fx_transaction fx, fx_accounts = m', fx_metadata = fx_metadata fx\<rparr>"
    by (simp add: load_from_disk_def r fixture_json_read m')
  then show ?thesis using f m'(3) by (simp add: load_drift_fixture_def fixture_files_present_def)
qed

subsection \<open>The synthetic fixture\<close>

text \<open>
  What the SDK documents of compiling and signing: the compiled instructions name the same program,
  accounts and data through the key list, which holds the payer and the named keys; signing changes
  neither.
\<close>

definition names :: "pubkey list \<Rightarrow> compiled_instruction \<Rightarrow> instruction \<Rightarrow> bool" where
  "names ks c ix \<longleftrightarrow> get ks (unat (program_id_index c)) = Some (ix_program_id ix) \<and>
     map (\<lambda>a. get ks (unat a)) (ci_accounts c) = map (\<lambda>m. Some (am_pubkey m)) (ix_accounts ix) \<and> ci_data c = ix_data ix"

definition mentioned :: "instruction list \<Rightarrow> pubkey set" where
  "mentioned ixs = (\<Union>ix \<in> set ixs. insert (ix_program_id ix) (am_pubkey ` set (ix_accounts ix)))"

definition sdk_compiles :: "fixture_env \<Rightarrow> bool" where
  "sdk_compiles X \<longleftrightarrow>
     (\<forall>ixs payer. length ixs + sum_list (map (\<lambda>ix. length (ix_accounts ix)) ixs) < 256 \<longrightarrow>
        list_all2 (names (account_keys (message_new X ixs payer))) (instructions (message_new X ixs payer)) ixs \<and>
        set (account_keys (message_new X ixs payer)) = insert payer (mentioned ixs)) \<and>
     (\<forall>ks h tx. account_keys (partial_sign X ks h tx) = account_keys tx \<and>
        instructions (partial_sign X ks h tx) = instructions tx)"

lemma drift_transaction_compiled:
  assumes "sdk_compiles X"
  shows "list_all2 (names (account_keys (drift_transaction X))) (instructions (drift_transaction X))
      [switchboard_update_ix X, set_authority_ix X, transfer_ix X]"
    "set (account_keys (drift_transaction X)) =
       insert (deterministic_key X ''ciel-drift-fixture-attacker'') (mentioned [switchboard_update_ix X, set_authority_ix X, transfer_ix X])"
proof -
  let ?ixs = "[switchboard_update_ix X, set_authority_ix X, transfer_ix X]"
  have "length ?ixs + sum_list (map (\<lambda>ix. length (ix_accounts ix)) ?ixs) < 256"
    by (simp add: switchboard_update_ix_def set_authority_ix_def transfer_ix_def)
  then have m: "list_all2 (names (account_keys (message_new X ?ixs k))) (instructions (message_new X ?ixs k)) ?ixs"
    "set (account_keys (message_new X ?ixs k)) = insert k (mentioned ?ixs)" for k
    using assms unfolding sdk_compiles_def by blast+
  show "list_all2 (names (account_keys (drift_transaction X))) (instructions (drift_transaction X)) ?ixs"
    "set (account_keys (drift_transaction X)) = insert (deterministic_key X ''ciel-drift-fixture-attacker'') (mentioned ?ixs)"
    using m assms by (simp_all add: drift_transaction_def sdk_compiles_def Let_def)
qed

lemma names_call:
  assumes "names ks c ix"
  shows "cpi_of ks i h c = \<lparr>program_id = ix_program_id ix, instruction_index = i, stack_height = h,
    cpi_accounts = map am_pubkey (ix_accounts ix), cpi_data = ix_data ix\<rparr>"
proof -
  have "map (key_at ks) as = map f ms" if "map (\<lambda>a. get ks (unat a)) as = map (\<lambda>m. Some (f m)) ms"
    for as :: "u8 list" and f :: "account_meta \<Rightarrow> pubkey" and ms
    using that by (induction as arbitrary: ms) (auto simp: key_at_def Cons_eq_map_conv)
  then show ?thesis using assms by (simp add: cpi_of_def names_def key_at_def)
qed

definition drift_keys :: "fixture_env \<Rightarrow> pubkey set" where
  "drift_keys X =
     {spl_token_program_id, switchboard_v2_program_id, pyth_program_id, drift_program_id, system_program_id} \<union>
     deterministic_key X ` {''ciel-drift-fixture-attacker'', ''ciel-drift-fixture-oracle-authority'',
       ''ciel-drift-fixture-vault-authority'', ''ciel-drift-fixture-switchboard-feed'', ''ciel-drift-fixture-pyth-feed'',
       ''ciel-drift-fixture-usdc-mint'', ''ciel-drift-fixture-vault-token'', ''ciel-drift-fixture-attacker-token''}"

lemma drift_accounts_lookup:
  "hm_ok (drift_accounts X)" "hm_get (drift_accounts X) k \<noteq> None \<longleftrightarrow> k \<in> drift_keys X"
proof -
  show "hm_ok (drift_accounts X)" by (simp add: drift_accounts_def hm_collect_ok)
  have "hm_get (drift_accounts X) k \<noteq> None \<longleftrightarrow> k \<in> set (map fst (drift_account_list X))"
    by (simp add: drift_accounts_def lookup_hm_collect map_of_eq_None_iff)
  moreover have "set (map fst (drift_account_list X)) = drift_keys X"
    unfolding drift_account_list_def drift_keys_def Let_def by auto
  ultimately show "hm_get (drift_accounts X) k \<noteq> None \<longleftrightarrow> k \<in> drift_keys X" by simp
qed

lemma drift_fixture_complete:
  assumes "sdk_compiles X"
  shows "\<forall>k \<in> set (account_keys (fx_transaction (generate_drift_fixture X))). hm_get (fx_accounts (generate_drift_fixture X)) k \<noteq> None"
  unfolding generate_drift_fixture_def exploit_fixture.select_convs drift_transaction_compiled(2) [OF assms] drift_accounts_lookup(2)
  by (auto simp: drift_keys_def mentioned_def switchboard_update_ix_def set_authority_ix_def transfer_ix_def meta_new_def meta_new_readonly_def)

text \<open>The generated oracle accounts are too short for the parsers of the oracle cache.\<close>

lemma length_copy_at: "off + length src \<le> length d \<Longrightarrow> length (copy_at off src d) = length d"
  by (simp add: copy_at_def)

lemma fixture_oracles_unreadable:
  "parse_switchboard_v2 powi10 build_switchboard_account_data a = Inl (TooShort 128 SB_MIN_SIZE)"
  "parse_pyth_price powi10 build_pyth_account_data a = Inl (TooShort 128 PYTH_MIN_SIZE)"
proof -
  have "length build_switchboard_account_data = 128" "length build_pyth_account_data = 128"
    by (simp_all add: build_switchboard_account_data_def build_pyth_account_data_def length_copy_at le64_def le32_def f64_le_bytes_def)
  then show "parse_switchboard_v2 powi10 build_switchboard_account_data a = Inl (TooShort 128 SB_MIN_SIZE)"
    "parse_pyth_price powi10 build_pyth_account_data a = Inl (TooShort 128 PYTH_MIN_SIZE)"
    by (simp_all add: parse_switchboard_v2_def parse_pyth_price_def SB_MIN_SIZE_def PYTH_MIN_SIZE_def)
qed

text \<open>The bit patterns of the two prices.\<close>

lemma fixture_price_bits: "f64_bits SWITCHBOARD_PRICE = 0x4069000000000000"
proof -
  have p: "rnd 200 = Fin 200"
    by (rule rnd_evalI [where e = 7 and n = "200 * 2 ^ 45"]) (simp_all add: pow2_def)
  have l: "ilog2 200 = 7" by (rule ilog2_eqI) (simp_all add: pow2_def)
  show "f64_bits SWITCHBOARD_PRICE = 0x4069000000000000"
    by (simp add: SWITCHBOARD_PRICE_def p l pow2_def)
qed

subsection \<open>An outside for the runs\<close>

text \<open>Keys are the seed texts, JSON texts are unary codes, and messages are compiled in order of mention.\<close>

instance f64 :: countable
  by countable_datatype

instance json :: countable
  by countable_datatype

definition message_keys :: "instruction list \<Rightarrow> pubkey \<Rightarrow> pubkey list" where
  "message_keys ixs payer =
     remdups (payer # concat (map (\<lambda>ix. ix_program_id ix # map am_pubkey (ix_accounts ix)) ixs))"

definition key_index :: "pubkey list \<Rightarrow> pubkey \<Rightarrow> u8" where
  "key_index ks k = of_nat (length (takeWhile (\<lambda>x. x \<noteq> k) ks))"

definition compile_message :: "instruction list \<Rightarrow> pubkey \<Rightarrow> transaction" where
  "compile_message ixs payer =
     (let ks = message_keys ixs payer
      in \<lparr>signatures = [], message_header = (1, 0, 0), account_keys = ks, recent_blockhash = [],
          instructions = map (\<lambda>ix. \<lparr>program_id_index = key_index ks (ix_program_id ix),
             ci_accounts = map (\<lambda>m. key_index ks (am_pubkey m)) (ix_accounts ix), ci_data = ix_data ix\<rparr>) ixs\<rparr>)"

definition base_env :: fixture_env where
  "base_env =
     \<lparr>fx_sha256 = (\<lambda>bs. bs), keypair_key = (\<lambda>bs. Pubkey (bytes_str bs)), key_bytes = (\<lambda>k. str_bytes (pk_text k)),
      message_new = compile_message, partial_sign = (\<lambda>ks h tx. tx\<lparr>recent_blockhash := h\<rparr>), bs58_encode = bytes_str,
      parse_pubkey = (\<lambda>s. Some (Pubkey s)), fx_codecs = plain_codecs, bincode_ser = (\<lambda>tx. Inl []),
      bincode_de = (\<lambda>bs. Inl []), to_string_pretty = (\<lambda>v. replicate (to_nat v) CHR ''1''),
      from_str = (\<lambda>s. Inr (from_nat (length s)))\<rparr>"

text \<open>Bincode knows one transaction.\<close>

definition demo_env :: fixture_env where
  "demo_env =
     base_env\<lparr>bincode_ser := \<lambda>tx. if tx = drift_transaction base_env then Inr [] else Inl ''unsupported'',
              bincode_de := \<lambda>bs. Inr (drift_transaction base_env)\<rparr>"

lemma key_index_get:
  assumes "k \<in> set ks" "length ks \<le> 256"
  shows "get ks (unat (key_index ks k)) = Some k"
proof -
  let ?i = "length (takeWhile (\<lambda>x. x \<noteq> k) ks)"
  have i: "?i < length ks" using assms(1) by (induction ks) auto
  then have "unat (of_nat ?i :: u8) = ?i" using assms(2) by (simp add: unat_of_nat)
  moreover have "ks ! ?i = k" using nth_length_takeWhile [OF i] by simp
  ultimately show ?thesis using i by (simp add: key_index_def get_def)
qed

lemma length_message_keys:
  "length (message_keys ixs payer) \<le> 1 + (length ixs + sum_list (map (\<lambda>ix. length (ix_accounts ix)) ixs))"
proof -
  have "length (concat (map (\<lambda>ix. ix_program_id ix # map am_pubkey (ix_accounts ix)) ixs)) =
      length ixs + sum_list (map (\<lambda>ix. length (ix_accounts ix)) ixs)"
    by (induction ixs) auto
  then show ?thesis
    using length_remdups_leq [of "payer # concat (map (\<lambda>ix. ix_program_id ix # map am_pubkey (ix_accounts ix)) ixs)"]
    unfolding message_keys_def by simp
qed

lemma set_message_keys: "set (message_keys ixs payer) = insert payer (mentioned ixs)"
  by (auto simp: message_keys_def mentioned_def)

lemma compile_message_ok:
  assumes "length ixs + sum_list (map (\<lambda>ix. length (ix_accounts ix)) ixs) < 256"
  shows "list_all2 (names (account_keys (compile_message ixs payer))) (instructions (compile_message ixs payer)) ixs"
proof -
  let ?ks = "message_keys ixs payer"
  have l: "length ?ks \<le> 256" using length_message_keys [of ixs payer] assms by linarith
  have "get ?ks (unat (key_index ?ks (ix_program_id z))) = Some (ix_program_id z)"
    "x \<in> set (ix_accounts z) \<Longrightarrow> get ?ks (unat (key_index ?ks (am_pubkey x))) = Some (am_pubkey x)" if "z \<in> set ixs" for z x
    using that set_message_keys [of ixs payer] by (auto simp: mentioned_def intro!: key_index_get [OF _ l])
  then show ?thesis
    by (auto simp: compile_message_def Let_def list_all2_map1 names_def intro!: list.rel_refl_strong)
qed

lemma demo_env_ok: "env_roundtrips demo_env" "sdk_compiles demo_env"
proof -
  have "account_keys (compile_message ixs payer) = message_keys ixs payer" for ixs payer
    by (simp add: compile_message_def Let_def)
  then show "sdk_compiles demo_env"
    using compile_message_ok set_message_keys by (simp add: sdk_compiles_def demo_env_def base_env_def)
  have "from_nat (length (replicate (to_nat v) CHR ''1'')) = v" for v :: json by simp
  then show "env_roundtrips demo_env"
    by (simp add: env_roundtrips_def demo_env_def base_env_def codecs_roundtrip_def plain_codecs_def str_bytes_bytes_str)
qed

lemma demo_env_serializes: "bincode_ser demo_env (drift_transaction demo_env) = Inr []"
proof -
  have "drift_transaction (X\<lparr>bincode_ser := f, bincode_de := g\<rparr>) = drift_transaction X" for X f g
    by (simp add: drift_transaction_def switchboard_update_ix_def set_authority_ix_def transfer_ix_def deterministic_key_def)
  then show ?thesis unfolding demo_env_def by simp
qed

theorem fixture_roundtrip_witness:
  "\<exists>dir' fx'. write_fixture_to_disk demo_env (\<lambda>f. None) (generate_drift_fixture demo_env) [] = (dir', Inr ()) \<and>
     load_drift_fixture demo_env dir' = Inr fx' \<and> fx_metadata fx' = drift_metadata demo_env"
proof -
  obtain dir' where d: "write_fixture_to_disk demo_env (\<lambda>f. None) (generate_drift_fixture demo_env) [] = (dir', Inr ())"
    using demo_env_serializes by (simp add: write_fixture_to_disk_def write_file_def generate_drift_fixture_def)
  have "hm_ok (fx_accounts (generate_drift_fixture demo_env))" by (simp add: generate_drift_fixture_def drift_accounts_lookup)
  from fixture_roundtrip [OF demo_env_ok(1) this drift_fixture_complete [OF demo_env_ok(2)] d] d show ?thesis
    by (auto simp: generate_drift_fixture_def)
qed

end
