(* ===== verification/Real_Checkers.thy ===== *)
theory Real_Checkers
  imports Pipeline Authority_Diff Approval_Abuse Oracle_Sanity Intent_Diff Drift_Fixture
begin

section \<open>The implemented checkers in the pipeline\<close>

text \<open>
  The four implemented checkers, with the stubs of the other three, as the checkers of a pipeline:
  what the context of the pipeline leaves them, the exact score of a set of checkers that answer at
  once, and the answer to the synthetic Drift fixture.
\<close>

subsection \<open>Findings in the pipeline's context\<close>

text \<open>A checker that answers at once has its output among the results.\<close>

lemma synchronous_result:
  "ready_after c ctx = None \<Longrightarrow> snd (run_one ctx c) = Completed (check c ctx)"
  by (simp add: run_one_def)

lemma empty_cache [simp]: "cache_get oracle_cache_default k = None"
  by (simp add: cache_get_def oracle_cache_default_def)

lemma context_oracle_severity:
  "out_severity (oracle_check ck (checker_ctx tx pe)) =
     (if \<exists>rd \<in> set (oracle_reads (pe_trace pe)). \<not> is_known (feed_map ck) (oracle_pubkey rd) then High else SevNone)"
proof -
  have "\<not> deviates ck oracle_cache_default k" "\<not> is_stale ck oracle_cache_default k" "\<not> is_wide ck oracle_cache_default k" for k
    by (simp_all add: deviates_def is_stale_def is_wide_def)
  moreover have "is_unknown ck oracle_cache_default k \<longleftrightarrow> \<not> is_known (feed_map ck) k" for k by (simp add: is_unknown_def)
  ultimately show ?thesis
    using oracle_severity_exact [of ck "checker_ctx tx pe"] by (simp add: checker_ctx_def Let_def)
qed

lemma context_intent_passes: "passed (intent_check U powi10 (checker_ctx tx pe))"
  by (simp add: checker_ctx_def intent_check_def passed_noop_def)

subsection \<open>The exact score of checkers that answer at once\<close>

lemma synchronous_exact_score:
  assumes "distinct (map name (vp_checkers p))" "\<forall>c \<in> set (vp_checkers p). \<forall>ctx. ready_after c ctx = None"
  shows "exact_score (checked_results shuffle p T tx pe) =
    max 0 (min 1 (1 - (\<Sum>c \<leftarrow> vp_checkers p. exact_penalty (Completed (check c (checker_ctx tx pe))))))"
proof -
  let ?rs = "map (run_one (checker_ctx tx pe)) (vp_checkers p)"
  have "distinct (map fst ?rs)" using assms(1) by (simp add: comp_def)
  then have "mset (outputs (checked_results shuffle p T tx pe)) = mset (outputs \<lparr>outputs = ?rs, total_duration_ms = 0\<rparr>)"
    by (simp add: checked_results_def Let_def run_checkers_def hm_collect_distinct)
  from exact_score_mset [OF this] have "exact_score (checked_results shuffle p T tx pe) =
      max 0 (min 1 (1 - (\<Sum>c \<leftarrow> vp_checkers p. exact_penalty (snd (run_one (checker_ctx tx pe) c)))))"
    by (simp add: exact_score_def exact_sum_def comp_def)
  moreover have "map (\<lambda>c. exact_penalty (snd (run_one (checker_ctx tx pe) c))) (vp_checkers p) =
      map (\<lambda>c. exact_penalty (Completed (check c (checker_ctx tx pe)))) (vp_checkers p)"
    using assms(2) by (intro map_cong) (simp_all add: synchronous_result)
  ultimately show ?thesis by simp
qed

definition real_checkers :: "unicode \<Rightarrow> (int \<Rightarrow> f64) \<Rightarrow> checker list" where
  "real_checkers U powi10 =
     [oracle_sanity_checker (oracle_sanity_new default_mainnet), authority_diff_checker U,
      intent_diff_checker U powi10, stub_checker ''contagion_map'', stub_checker ''mev_sandwich'',
      approval_abuse_checker, stub_checker ''sim_spoof'']"

lemma real_checkers_shape:
  "map name (real_checkers U powi10) = map name all_stub_checkers" "distinct (map name (real_checkers U powi10))"
  "\<forall>c \<in> set (real_checkers U powi10). \<forall>ctx. ready_after c ctx = None"
  by (simp_all add: real_checkers_def all_stub_checkers_def stub_checker_def oracle_sanity_checker_def
      authority_diff_checker_def intent_diff_checker_def approval_abuse_checker_def CHECKER_NAME_def)

lemma checked_results_set:
  assumes "distinct (map name (vp_checkers p))"
  shows "set (outputs (checked_results shuffle p T tx pe)) = run_one (checker_ctx tx pe) ` set (vp_checkers p)"
proof -
  have "distinct (map fst (map (run_one (checker_ctx tx pe)) (vp_checkers p)))" using assms by (simp add: comp_def)
  then show ?thesis by (simp add: checked_results_def Let_def run_checkers_def hm_collect_distinct)
qed

text \<open>
  The answer of the implemented checkers from the three severities that can differ from none: what each
  checker reports, the score, the attested score and the verdict.
\<close>

lemma real_checkers_verdict:
  assumes "vp_checkers p = real_checkers U powi10"
    and "before_checkers S p T tx = Inr pe" "evaluate_raw_tx S shuffle p T tx = Some (Inr (resp, lg))"
    and "out_severity (oracle_check (oracle_sanity_new default_mainnet) (checker_ctx tx pe)) = High"
    and "out_severity (authority_check U (checker_ctx tx pe)) = Medium"
    and "out_severity (approval_check (checker_ctx tx pe)) = SevNone"
  shows "resp_verdict resp = Warn" "encode_score_u16 (resp_safety_score resp) = 4500"
    "\<exists>y. resp_safety_score resp = Fin y \<and> \<bar>y - 45/100\<bar> \<le> pow2 (- 32)"
    "(\<lambda>(n, st). (n, map_option out_severity (status_completed st))) ` set (outputs (resp_checker_results resp)) =
      {(''oracle_sanity'', Some High), (''authority_diff'', Some Medium), (''intent_diff'', Some SevNone),
       (''contagion_map'', Some SevNone), (''mev_sandwich'', Some SevNone), (''approval_abuse'', Some SevNone),
       (''sim_spoof'', Some SevNone)}"
proof -
  let ?r = "checked_results shuffle p T tx pe"
  note sh = real_checkers_shape [of U powi10, folded assms(1)]
  have "evaluate_raw_tx_inner S shuffle p T tx = Some (Inr (resp, lg))"
    using synchronous_checkers_no_deadline [OF sh(3)] assms(3) by metis
  then have "after_checkers S p T tx pe ?r = Some (Inr (resp, lg))"
    using assms(2) by (simp add: evaluate_raw_tx_inner_def)
  then have v: "resp_verdict resp = final_verdict (pe_downgrade pe) ?r" "resp_safety_score resp = compute_safety_score ?r"
    "resp_checker_results resp = ?r" using after_checkers_facts by blast+
  have none: "out_severity (intent_check U powi10 (checker_ctx tx pe)) = SevNone"
    using intent_severity [of U powi10 "checker_ctx tx pe"] context_intent_passes by simp
  have ex: "exact_score ?r = 45/100"
    using synchronous_exact_score [OF sh(2,3), of shuffle T tx pe] assms(4-6) none
    unfolding assms(1) real_checkers_def
    by (simp add: oracle_sanity_checker_def authority_diff_checker_def intent_diff_checker_def
        approval_abuse_checker_def stub_checker_def)
  have len: "length (outputs ?r) \<le> 1000"
    using sh(2) unfolding checked_results_def Let_def run_checkers_def
    by (simp add: hm_collect_distinct comp_def length_reorder assms(1) real_checkers_def)
  have "score_to_verdict (compute_safety_score ?r) ?r = Warn"
    using verdict_exact [OF len] has_critical_score [of ?r] ex
    by (cases "score_to_verdict (compute_safety_score ?r) ?r") auto
  then show "resp_verdict resp = Warn" by (simp add: v final_verdict_def)
  have "(of_nat (unat (encode_score_u16 (compute_safety_score ?r))) :: rat) = of_nat 4500"
    unfolding encode_score_exact [OF len] ex by simp
  then have "unat (encode_score_u16 (compute_safety_score ?r)) = unat (4500 :: u16)" by (simp only: of_nat_eq_iff) simp
  then show "encode_score_u16 (resp_safety_score resp) = 4500" by (simp add: v word_unat_eq_iff)
  show "\<exists>y. resp_safety_score resp = Fin y \<and> \<bar>y - 45/100\<bar> \<le> pow2 (- 32)"
    using compute_safety_score_error [OF len] unfolding v ex by blast
  show "(\<lambda>(n, st). (n, map_option out_severity (status_completed st))) ` set (outputs (resp_checker_results resp)) =
      {(''oracle_sanity'', Some High), (''authority_diff'', Some Medium), (''intent_diff'', Some SevNone),
       (''contagion_map'', Some SevNone), (''mev_sandwich'', Some SevNone), (''approval_abuse'', Some SevNone),
       (''sim_spoof'', Some SevNone)}"
    unfolding v checked_results_set [OF sh(2)] assms(1) real_checkers_def
    using assms(4-6) none
    by (simp add: run_one_def oracle_sanity_checker_def authority_diff_checker_def intent_diff_checker_def
        approval_abuse_checker_def stub_checker_def CHECKER_NAME_def)
qed

subsection \<open>The trace of the fixture\<close>

definition top_call :: "nat \<Rightarrow> instruction \<Rightarrow> cpi_call" where
  "top_call i ix = \<lparr>program_id = ix_program_id ix, instruction_index = i, stack_height = 1,
     cpi_accounts = map am_pubkey (ix_accounts ix), cpi_data = ix_data ix\<rparr>"

lemma fixture_graph:
  assumes "sdk_compiles X" "before_checkers S p T (drift_transaction X) = Inr pe" "length (cpi_graph (pe_trace pe)) = 3"
  shows "cpi_graph (pe_trace pe) = [top_call 0 (switchboard_update_ix X), top_call 1 (set_authority_ix X), top_call 2 (transfer_ix X)]"
proof -
  let ?tx = "drift_transaction X" and ?ixs = "[switchboard_update_ix X, set_authority_ix X, transfer_ix X]"
  have n: "list_all2 (names (account_keys ?tx)) (instructions ?tx) ?ixs" by (rule drift_transaction_compiled(1) [OF assms(1)])
  then have len: "length (instructions ?tx) = 3" by (auto dest: list_all2_lengthD)
  have call: "cpi_of (account_keys ?tx) i 1 (instructions ?tx ! i) = top_call i (?ixs ! i)" if "i < 3" for i
    using names_call list_all2_nthD [OF n] that len by (metis top_call_def)
  have "cpi_graph (pe_trace pe) = map (\<lambda>i. cpi_of (account_keys ?tx) i 1 (instructions ?tx ! i)) [0..<3]"
    using trace_signed_calls [OF before_checkers_facts(3) [OF assms(2)]] assms(3) len by simp
  also have "\<dots> = map (\<lambda>i. top_call i (?ixs ! i)) [0..<3]" using call by (intro map_cong) auto
  finally show ?thesis by (simp add: numeral_eq_Suc)
qed

text \<open>
  The derived keys the answer depends on are ordinary: no known protocol, oracle program or listed
  feed.
\<close>

definition fresh_keys :: "fixture_env \<Rightarrow> bool" where
  "fresh_keys X \<longleftrightarrow>
     is_known_protocol with_mainnet_defaults (deterministic_key X ''ciel-drift-fixture-vault-token'') = None \<and>
     is_known_protocol with_mainnet_defaults (deterministic_key X ''ciel-drift-fixture-vault-authority'') = None \<and>
     deterministic_key X ''ciel-drift-fixture-switchboard-feed'' \<notin> oracle_programs \<and>
     \<not> is_known default_mainnet (deterministic_key X ''ciel-drift-fixture-switchboard-feed'')"

lemma fixture_program_ids:
  "spl_token_program_id = SPL_TOKEN_PROGRAM_ID" "switchboard_v2_program_id \<in> oracle_programs"
  "switchboard_v2_program_id \<notin> {SPL_TOKEN_PROGRAM_ID, SPL_TOKEN_2022_PROGRAM_ID, BPF_LOADER_UPGRADEABLE_PROGRAM_ID, SQUADS_V4_PROGRAM_ID, system_program_id}"
  by (simp_all add: spl_token_program_id_def switchboard_v2_program_id_def program_ids oracle_programs_def
      SWITCHBOARD_V2_PROGRAM_ID_def)

lemma fixture_matches:
  "match_call (top_call i (switchboard_update_ix X)) reg = None" "match_call (top_call i (transfer_ix X)) reg = None"
  "\<exists>f. match_call (top_call i (set_authority_ix X)) reg = Some f \<and> flag_code f = FLAG_SPL_SET_AUTHORITY_IN_CPI"
  using fixture_program_ids
  by (simp_all add: match_call_def top_call_def switchboard_update_ix_def transfer_ix_def set_authority_ix_def match_spl_token_def
      SPL_TOKEN_DISC_SET_AUTHORITY_def SPL_TOKEN_DISC_CLOSE_ACCOUNT_def SPL_TOKEN_DISC_INITIALIZE_ACCOUNT_def
      SPL_TOKEN_DISC_INITIALIZE_ACCOUNT_2_def SPL_TOKEN_DISC_INITIALIZE_ACCOUNT_3_def)

lemma fixture_no_nonce:
  assumes "sdk_compiles X"
  shows "\<not> has_durable_nonce_precursor (checker_ctx (drift_transaction X) pe)"
proof -
  obtain c cs where "instructions (drift_transaction X) = c # cs" "names (account_keys (drift_transaction X)) c (switchboard_update_ix X)"
    using drift_transaction_compiled(1) [OF assms] by (auto simp: list_all2_Cons2)
  then show ?thesis using fixture_program_ids(3)
    by (simp add: has_durable_nonce_precursor_def checker_ctx_def names_def switchboard_update_ix_def get_def)
qed

lemma fixture_authority_severity:
  assumes "sdk_compiles X" "fresh_keys X" "before_checkers S p T (drift_transaction X) = Inr pe"
    and "length (cpi_graph (pe_trace pe)) = 3"
  shows "out_severity (authority_check U (checker_ctx (drift_transaction X) pe)) = Medium"
proof -
  let ?ctx = "checker_ctx (drift_transaction X) pe" and ?c = "top_call 1 (set_authority_ix X)"
  obtain f where f: "match_call ?c with_mainnet_defaults = Some f" "flag_code f = FLAG_SPL_SET_AUTHORITY_IN_CPI"
    using fixture_matches(3) by blast
  have "matched_calls ?ctx = [(?c, f)]"
    using fixture_graph [OF assms(1,3,4)] f(1) fixture_matches(1,2)
    by (simp add: matched_calls_def checker_ctx_def List.map_filter_simps)
  moreover have "lookup_known_protocol_in_call ?c with_mainnet_defaults = None"
    using assms(2) by (simp add: lookup_known_protocol_in_call_def top_call_def set_authority_ix_def meta_new_def meta_new_readonly_def fresh_keys_def)
  moreover have "call_severity False None 1 FLAG_SPL_SET_AUTHORITY_IN_CPI = Medium"
    by (simp add: call_severity_def flag_severity_def modulate_by_stack_height_def shift_severity_with_floor_def
        shift_severity_def severity_from_u8_def)
  ultimately show ?thesis
    using fixture_no_nonce [OF assms(1), of pe] f(2)
    by (simp add: authority_severity reported_severity_def checker_ctx_def top_call_def max_def less_eq_severity_def)
qed

lemma fixture_oracle_severity:
  assumes "sdk_compiles X" "fresh_keys X" "before_checkers S p T (drift_transaction X) = Inr pe"
  shows "out_severity (oracle_check (oracle_sanity_new default_mainnet) (checker_ctx (drift_transaction X) pe)) = High"
proof -
  let ?tx = "drift_transaction X" and ?feed = "deterministic_key X ''ciel-drift-fixture-switchboard-feed''"
  obtain c cs where c: "instructions ?tx = c # cs" "names (account_keys ?tx) c (switchboard_update_ix X)"
    using drift_transaction_compiled(1) [OF assms(1)] by (auto simp: list_all2_Cons2)
  then have "?feed \<in> direct_oracle_keys (account_keys ?tx) c"
    using assms(2) fixture_program_ids(2)
    by (auto simp: direct_oracle_keys_def names_def switchboard_update_ix_def meta_new_def fresh_keys_def map_eq_Cons_conv)
  then have "?feed \<in> oracle_pubkey ` set (oracle_reads (pe_trace pe))"
    using trace_oracle_reads [OF before_checkers_facts(3) [OF assms(3)]] direct_keys_read [of ?tx] c(1) by fastforce
  moreover have "\<not> is_known (feed_map (oracle_sanity_new default_mainnet)) ?feed"
    using assms(2) by (simp add: fresh_keys_def oracle_sanity_new_def)
  ultimately show ?thesis unfolding context_oracle_severity by auto
qed

lemma fixture_approval_severity:
  assumes "sdk_compiles X" "before_checkers S p T (drift_transaction X) = Inr pe" "length (cpi_graph (pe_trace pe)) = 3"
  shows "out_severity (approval_check (checker_ctx (drift_transaction X) pe)) = SevNone"
proof -
  let ?ctx = "checker_ctx (drift_transaction X) pe"
  have "\<not> unlimited_approval reg c src d" if "c \<in> set (cpi_graph (pe_trace pe))" for reg c src d
    using that fixture_graph [OF assms] fixture_program_ids(3)
    by (auto simp: unlimited_approval_def top_call_def switchboard_update_ix_def set_authority_ix_def transfer_ix_def)
  then have "passed (approval_check ?ctx)" unfolding approval_passed_iff by (simp add: checker_ctx_def)
  then show ?thesis by (simp add: approval_check_def Let_def)
qed

text \<open>C5: The replay of the Drift exploit is answered with WARN. A pipeline with the implemented
  checkers that simulates the transaction of the synthetic fixture without nested calls never blocks
  it, although the fixture declares BLOCK as the expected verdict. For every clock, map order and
  state: the authority checker reports a medium finding, since the signer of the transaction makes the
  change himself, the oracle checker a high one, for the feed whose manipulated price it never sees, the
  other checkers none; the attested score is 4500, and the score itself is within \<open>2\<^sup>-\<^sup>3\<^sup>2\<close> of 0.45.\<close>

theorem drift_fixture_warned:
  assumes "sdk_compiles X" "fresh_keys X"
    and "vp_checkers p = real_checkers U powi10" "tx = fx_transaction (generate_drift_fixture X)"
    and "before_checkers S p T tx = Inr pe" "length (cpi_graph (pe_trace pe)) = 3"
    and "evaluate_raw_tx S shuffle p T tx = Some (Inr (resp, lg))"
  shows "resp_verdict resp = Warn \<and> fm_expected_verdict (fx_metadata (generate_drift_fixture X)) = ''BLOCK'' \<and>
    encode_score_u16 (resp_safety_score resp) = 4500 \<and>
    (\<exists>y. resp_safety_score resp = Fin y \<and> \<bar>y - 45/100\<bar> \<le> pow2 (- 32)) \<and>
    (\<lambda>(n, st). (n, map_option out_severity (status_completed st))) ` set (outputs (resp_checker_results resp)) =
      {(''oracle_sanity'', Some High), (''authority_diff'', Some Medium), (''intent_diff'', Some SevNone),
       (''contagion_map'', Some SevNone), (''mev_sandwich'', Some SevNone), (''approval_abuse'', Some SevNone),
       (''sim_spoof'', Some SevNone)}"
proof -
  have tx: "tx = drift_transaction X" by (simp add: assms(4) generate_drift_fixture_def)
  note b = assms(5) [unfolded tx]
  note answer = real_checkers_verdict [OF assms(3) b assms(7) [unfolded tx] fixture_oracle_severity [OF assms(1,2) b]
      fixture_authority_severity [OF assms(1,2) b assms(6)] fixture_approval_severity [OF assms(1) b assms(6)]]
  have "fm_expected_verdict (fx_metadata (generate_drift_fixture X)) = ''BLOCK''"
    by (simp add: generate_drift_fixture_def drift_metadata_def)
  then show ?thesis by (intro conjI answer)
qed

subsection \<open>A run on the fixture\<close>

text \<open>Outputs that fit the wire format, for a JSON printer that prints nothing.\<close>

definition small_output :: "checker_output \<Rightarrow> bool" where
  "small_output out \<longleftrightarrow> length (checker_name out) < 2 ^ 32 \<and> length (details out) < 2 ^ 32 \<and> length (flags out) < 2 ^ 32 \<and>
     list_all (\<lambda>f. length (flag_code f) < 2 ^ 32 \<and> length (flag_message f) < 2 ^ 32) (flags out)"

lemma small_outputs_serialize:
  assumes "\<forall>out \<in> set outs. small_output out"
  shows "\<exists>bs. serialize_outputs (\<lambda>v. Inr []) outs = Some bs"
proof -
  have "\<exists>bs. borsh_flags (\<lambda>v. Inr []) fs = Inr bs"
    if "list_all (\<lambda>f. length (flag_code f) < 2 ^ 32 \<and> length (flag_message f) < 2 ^ 32) fs" for fs
    using that
    by (induction fs) (auto simp: borsh_flag_def borsh_string_def borsh_vec_def str_bytes_def borsh_serialize_json_value_def)
  then have "\<exists>b. borsh_output (\<lambda>v. Inr []) out = Inr b" if "small_output out" for out
    using that by (fastforce simp: small_output_def borsh_output_def borsh_string_def borsh_vec_def str_bytes_def borsh_flag_vec_def)
  then show ?thesis using assms by (induction outs) fastforce+
qed

lemma checked_completed:
  assumes "distinct (map name (vp_checkers p))"
  shows "set (completed (checked_results shuffle p T tx pe)) \<subseteq> (\<lambda>c. check c (checker_ctx tx pe)) ` set (vp_checkers p)"
  by (auto simp: set_completed checked_results_set [OF assms] run_one_def split: option.splits if_splits)

lemma context_oracle_flags:
  "flags (oracle_check ck (checker_ctx tx pe)) = concat (map (unknown_flags ck) (oracle_reads (pe_trace pe)))"
proof -
  have "fold (check_read ck oracle_cache_default) reads (fs, ps) = (fs @ concat (map (unknown_flags ck) reads), ps)" for reads fs ps
    by (induction reads arbitrary: fs) (simp_all add: check_read_def Let_def)
  then show ?thesis by (simp add: oracle_check_def checker_ctx_def Let_def)
qed

definition silent_services :: "((pubkey, account) hashmap, transaction) services" where
  "silent_services = demo_services\<lparr>json_to_vec := \<lambda>v. Inr []\<rparr>"

definition replay_pipeline :: "(pubkey, account) hashmap verdict_pipeline" where
  "replay_pipeline = demo_pipeline (real_checkers ascii_tables (\<lambda>n. rnd 1))"

lemma demo_key: "deterministic_key demo_env s = Pubkey s"
proof -
  have "bytes_str (str_bytes s) = s" by (induction s) (simp_all add: bytes_str_def str_bytes_def code_of_def unat_of_nat)
  then show ?thesis by (simp add: deterministic_key_def demo_env_def base_env_def)
qed

lemma demo_fresh_keys: "fresh_keys demo_env"
proof -
  let ?feed = "Pubkey ''ciel-drift-fixture-switchboard-feed''"
  have "\<not> is_known default_mainnet ?feed"
    using mainnet_facts by (simp add: mainnet_feeds_def)
  moreover have "is_known_protocol with_mainnet_defaults (Pubkey (''ciel'' @ s)) = None" for s
    by (simp add: with_mainnet_defaults_def is_known_protocol_def register_def registry_new_def program_ids)
  from this [of "''-drift-fixture-vault-token''"] this [of "''-drift-fixture-vault-authority''"]
  have "is_known_protocol with_mainnet_defaults (Pubkey ''ciel-drift-fixture-vault-token'') = None"
    "is_known_protocol with_mainnet_defaults (Pubkey ''ciel-drift-fixture-vault-authority'') = None" by simp_all
  ultimately show ?thesis
    by (simp add: fresh_keys_def demo_key oracle_programs_def SWITCHBOARD_V2_PROGRAM_ID_def PYTH_PROGRAM_ID_def)
qed

lemma replay_before:
  "\<exists>pe. before_checkers silent_services replay_pipeline zero_timeline (drift_transaction demo_env) = Inr pe \<and>
     length (cpi_graph (pe_trace pe)) = 3 \<and> logs (pe_trace pe) = []"
proof -
  have "length (instructions (drift_transaction demo_env)) = 3"
    using drift_transaction_compiled(1) [OF demo_env_ok(2)] by (auto dest: list_all2_lengthD)
  then show ?thesis
    by (simp add: before_checkers_def compute_tx_hash_def silent_services_def demo_services_def toy_svm_def
        replay_pipeline_def demo_pipeline_def zero_timeline_def staleness_state_at_def time_since_last_update_def
        elapsed_def tracker_new_def execute_transaction_def extract_cpi_graph_def Let_def)
qed

lemma fixture_reads:
  assumes "sdk_compiles X"
  shows "detect_oracle_reads (drift_transaction X) [] =
    push_read ''switchboard'' (deterministic_key X ''ciel-drift-fixture-oracle-authority'')
      (push_read ''switchboard'' (deterministic_key X ''ciel-drift-fixture-switchboard-feed'') [])"
proof -
  let ?ks = "account_keys (drift_transaction X)"
  obtain c0 c1 c2 where c: "instructions (drift_transaction X) = [c0, c1, c2]"
    "names ?ks c0 (switchboard_update_ix X)" "names ?ks c1 (set_authority_ix X)" "names ?ks c2 (transfer_ix X)"
    using drift_transaction_compiled(1) [OF assms] by (auto simp: list_all2_Cons2)
  have "oracle_type_of switchboard_v2_program_id = Some ''switchboard''" "oracle_type_of spl_token_program_id = None"
    by (simp_all add: oracle_type_of_def switchboard_v2_program_id_def spl_token_program_id_def
        SWITCHBOARD_V2_PROGRAM_ID_def PYTH_PROGRAM_ID_def)
  then have "scan_oracle_ix ?ks c1 rs = rs" "scan_oracle_ix ?ks c2 rs = rs"
    "scan_oracle_ix ?ks c0 [] =
      push_read ''switchboard'' (deterministic_key X ''ciel-drift-fixture-oracle-authority'')
        (push_read ''switchboard'' (deterministic_key X ''ciel-drift-fixture-switchboard-feed'') [])" for rs
    using c(2-4) by (auto simp: scan_oracle_ix_def names_def switchboard_update_ix_def set_authority_ix_def transfer_ix_def
        meta_new_def meta_new_readonly_def map_eq_Cons_conv)
  then show ?thesis by (simp add: detect_oracle_reads_def c(1))
qed

lemma replay_small_outputs:
  assumes "before_checkers silent_services replay_pipeline zero_timeline (drift_transaction demo_env) = Inr pe"
    and "length (cpi_graph (pe_trace pe)) = 3" "logs (pe_trace pe) = []" "c \<in> set (vp_checkers replay_pipeline)"
  shows "small_output (check c (checker_ctx (drift_transaction demo_env) pe))"
proof -
  let ?ctx = "checker_ctx (drift_transaction demo_env) pe"
  have "oracle_reads (pe_trace pe) = map (\<lambda>k. \<lparr>oracle_pubkey = Pubkey k, oracle_type_name = ''switchboard''\<rparr>)
      [''ciel-drift-fixture-switchboard-feed'', ''ciel-drift-fixture-oracle-authority'']"
    using trace_oracle_reads [OF before_checkers_facts(3) [OF assms(1)]] assms(3)
    by (simp add: fixture_reads [OF demo_env_ok(2)] demo_key push_read_def SWITCHBOARD_V2_PROGRAM_ID_def PYTH_PROGRAM_ID_def)
  then have "small_output (oracle_check ck ?ctx)" for ck
    using context_oracle_flags [of ck "drift_transaction demo_env" pe]
    by (auto simp: small_output_def unknown_flags_def Let_def oracle_check_def checker_ctx_def FLAG_UNKNOWN_def show_nat.simps)
  moreover obtain f where f: "match_call (top_call 1 (set_authority_ix demo_env)) with_mainnet_defaults = Some f"
    using fixture_matches(3) by blast
  then have "length (flag_code f) < 100" "length (flag_message f) < 100"
    by (auto simp: match_call_def match_spl_token_def top_call_def set_authority_ix_def call_position_def 
       spl_token_program_id_def program_ids SPL_TOKEN_DISC_SET_AUTHORITY_def FLAG_SPL_SET_AUTHORITY_IN_CPI_def show_nat.simps)
  then have "small_output (authority_check ascii_tables ?ctx)"
    using f fixture_graph [OF demo_env_ok(2) assms(1,2)] fixture_matches(1,2)
    by (simp add: small_output_def authority_check_def authority_flags_def checker_ctx_def List.map_filter_simps
        flag_call_def Let_def show_nat.simps)
  moreover have "flags (approval_check ?ctx) = []"
    using fixture_approval_severity [OF demo_env_ok(2) assms(1,2)] by (simp add: approval_check_def Let_def split: if_splits)
  then have "small_output (approval_check ?ctx)" by (simp add: small_output_def approval_check_def Let_def)
  moreover have "small_output (intent_check U g ?ctx)" "small_output (check (stub_checker ''contagion_map'') ?ctx)"
    "small_output (check (stub_checker ''mev_sandwich'') ?ctx)" "small_output (check (stub_checker ''sim_spoof'') ?ctx)" for U g
    by (simp_all add: small_output_def intent_check_def checker_ctx_def passed_noop_def CHECKER_NAME_def stub_checker_def)
  ultimately show ?thesis
    using assms(4)
    by (auto simp: replay_pipeline_def demo_pipeline_def real_checkers_def oracle_sanity_checker_def authority_diff_checker_def
        intent_diff_checker_def approval_abuse_checker_def)
qed

theorem drift_fixture_warned_witness:
  "\<exists>resp lg. evaluate_raw_tx silent_services id replay_pipeline zero_timeline (fx_transaction (generate_drift_fixture demo_env)) =
     Some (Inr (resp, lg)) \<and> resp_verdict resp = Warn \<and> encode_score_u16 (resp_safety_score resp) = 4500"
proof -
  let ?tx = "fx_transaction (generate_drift_fixture demo_env)"
  have tx: "?tx = drift_transaction demo_env" by (simp add: generate_drift_fixture_def)
  obtain pe where pe: "before_checkers silent_services replay_pipeline zero_timeline ?tx = Inr pe"
    "length (cpi_graph (pe_trace pe)) = 3" "logs (pe_trace pe) = []"
    using replay_before unfolding tx by blast
  let ?r = "checked_results id replay_pipeline zero_timeline ?tx pe"
  have cs: "vp_checkers replay_pipeline = real_checkers ascii_tables (\<lambda>n. rnd 1)"
    by (simp add: replay_pipeline_def demo_pipeline_def)
  note sh = real_checkers_shape [of ascii_tables "\<lambda>n. rnd 1", folded cs]
  have "\<forall>out \<in> set (sort_key checker_name (completed ?r)). small_output out"
    using checked_completed [OF sh(2), of id zero_timeline ?tx pe] replay_small_outputs [OF pe [unfolded tx]] by (auto simp: tx)
  then obtain oh where "checker_outputs_hash (json_to_vec silent_services) (sha256 silent_services) ?r = Some oh"
    using small_outputs_serialize by (force simp: checker_outputs_hash_def silent_services_def)
  from synchronous_respond [OF sh(3) pe(1) this] obtain resp lg where
    r: "evaluate_raw_tx silent_services id replay_pipeline zero_timeline ?tx = Some (Inr (resp, lg))" by blast
  note answer = drift_fixture_warned [OF demo_env_ok(2) demo_fresh_keys cs refl pe(1,2) r]
  show ?thesis by (intro exI conjI, rule r) (simp_all only: answer)
qed

end
