(* ===== verification/Pea_Examples.thy ===== *)
theory Pea_Examples
  imports Drift_Fixture
begin

section \<open>The published examples of the envelope\<close>

text \<open>
  \<^verbatim>\<open>crates/ciel-signer/examples/gen_pea_examples.rs\<close>: the tool that signs the four example envelopes of
  the specification with a public test key, writes them to files and verifies what it wrote. The
  tool is run as a debug build, so its debug assertions are panics (\<open>None\<close>) like its assertions.
  Ed25519, the codecs, the JSON text and the file system (which can fail) are parameters. The
  theory also states the JSON schema of the specification as a predicate on values. Shown: the tool
  accepts its own files, and every envelope the signer writes conforms to the schema.
\<close>

subsection \<open>Patterns\<close>

definition TEST_SECRET_SEED :: bytes where
  "TEST_SECRET_SEED = str_bytes ''CIEL-PEA-TEST-KEY-V1-DONOTUSE-AB''"

record example =
  ex_name :: string
  ex_verdict :: verdict
  ex_tx_hash :: bytes
  ex_safety_score :: u16
  ex_optimality_score :: u16
  ex_outputs_hash :: bytes
  ex_slot :: u64
  ex_timestamp :: u64 \<comment> \<open>\<^verbatim>\<open>i64\<close>\<close>
  ex_timeout_at_ms :: u16
  ex_flags :: "pea_flag list"
  ex_intent :: "pea_intent option"
  ex_description :: string

definition bytes32_from_pattern :: "u8 \<Rightarrow> bytes" where
  "bytes32_from_pattern start = map (\<lambda>i. start + of_nat i) [0..<32]"

definition bytes32_seq :: "u8 \<Rightarrow> bytes" where
  "bytes32_seq hi = concat (map (\<lambda>i. [hi, 0x01 + of_nat i]) [0..<16])"

definition bytes32_seq_a001 :: bytes where "bytes32_seq_a001 = bytes32_seq 0xa0"
definition bytes32_seq_b001 :: bytes where "bytes32_seq_b001 = bytes32_seq 0xb0"
definition bytes32_seq_c001 :: bytes where "bytes32_seq_c001 = bytes32_seq 0xc0"
definition bytes32_seq_d001 :: bytes where "bytes32_seq_d001 = bytes32_seq 0xd0"
definition bytes32_seq_e001 :: bytes where "bytes32_seq_e001 = bytes32_seq 0xe0"

text \<open>Reading 32 bytes of a hexadecimal literal; \<open>None\<close> is the panic of \<^verbatim>\<open>unwrap\<close>.\<close>

definition bytes32_of_hex :: "string \<Rightarrow> bytes option" where
  "bytes32_of_hex hex = those (map (\<lambda>i. u8_from_hex (take 2 (drop (i * 2) hex))) [0..<32])"

definition EE_HEX :: string where
  "EE_HEX = ''eeeeeeee0123456789eeeeeeee0123456789eeeeeeee0123456789eeeeeeee01''"

definition BLOCK_HEX :: string where
  "BLOCK_HEX = ''abcdef0123456789abcdef0123456789abcdef0123456789abcdef0123456789''"

definition bytes32_ee_ab_repeat :: "bytes option" where
  "bytes32_ee_ab_repeat = bytes32_of_hex EE_HEX"

definition bytes32_block_intent_fingerprint :: "bytes option" where
  "bytes32_block_intent_fingerprint = bytes32_of_hex BLOCK_HEX"

definition hex_from :: "bytes \<Rightarrow> string" where
  "hex_from bs = concat (map hex_byte bs)"

subsection \<open>The examples\<close>

definition EM_DASH :: string where "EM_DASH = [CHR 0xE2, CHR 0x80, CHR 0x94]"

definition approve_example :: example where
  "approve_example =
     \<lparr>ex_name = ''approve'', ex_verdict = Approve, ex_tx_hash = bytes32_seq_a001, ex_safety_score = 9500,
      ex_optimality_score = 8200, ex_outputs_hash = bytes32_seq_b001, ex_slot = 350000100,
      ex_timestamp = 1712000100, ex_timeout_at_ms = 0, ex_flags = [], ex_intent = None,
      ex_description = ''Example APPROVE verdict. Values are illustrative. '' @
        ''Regenerated by cargo run --example gen_pea_examples.''\<rparr>"

definition warn_example :: "bytes \<Rightarrow> example" where
  "warn_example fp =
     \<lparr>ex_name = ''warn'', ex_verdict = Warn, ex_tx_hash = bytes32_seq_c001, ex_safety_score = 6800,
      ex_optimality_score = 5500, ex_outputs_hash = bytes32_seq_d001, ex_slot = 350000200,
      ex_timestamp = 1712000200, ex_timeout_at_ms = 0,
      ex_flags =
        [\<lparr>pf_code = ''ORACLE_DEVIATION'', pf_severity = PeaWarn,
          pf_detail = Some (''Switchboard vs Pyth spread 8.2% '' @ EM_DASH @ '' elevated but within acceptance band'')\<rparr>,
         \<lparr>pf_code = ''MEV_SANDWICH_RISK'', pf_severity = PeaWarn,
          pf_detail = Some ''Slippage tolerance high for route size''\<rparr>],
      ex_intent = Some \<lparr>intent_nl = Some ''swap 10000 USDC for SOL'', intent_fingerprint = Some (hex_from fp),
                        intent_satisfied = Some True\<rparr>,
      ex_description = ''Example WARN verdict. Transaction allowed but carries a notable caveat. '' @
        ''Regenerated by cargo run --example gen_pea_examples.''\<rparr>"

definition block_example :: "bytes \<Rightarrow> example" where
  "block_example fp =
     \<lparr>ex_name = ''block'', ex_verdict = Block, ex_tx_hash = bytes32_from_pattern 0x01, ex_safety_score = 3500,
      ex_optimality_score = 0, ex_outputs_hash = bytes32_from_pattern 0x21, ex_slot = 350000000,
      ex_timestamp = 1712000000, ex_timeout_at_ms = 0,
      ex_flags =
        [\<lparr>pf_code = ''ORACLE_DEVIATION'', pf_severity = PeaBlock,
          pf_detail = Some (''Switchboard vs Pyth spread 42.3% '' @ EM_DASH @ '' oracle manipulation suspected'')\<rparr>,
         \<lparr>pf_code = ''AUTHORITY_HIJACK'', pf_severity = PeaBlock,
          pf_detail = Some ''Hidden SetAuthority instruction in CPI depth 3''\<rparr>],
      ex_intent = Some \<lparr>intent_nl = Some ''deposit CVT collateral and borrow SOL'',
                        intent_fingerprint = Some (hex_from fp), intent_satisfied = Some False\<rparr>,
      ex_description = ''Canonical BLOCK example. Attestation field values match the pinned '' @
        ''fixture ciel_attestation_v1.bin EXCEPT the `signer` field, which is '' @
        ''the spec test public key so the signature verifies end-to-end. '' @
        ''See test-public-key.txt. The pinned fixture demonstrates wire format; '' @
        ''this example demonstrates end-to-end signature verification.''\<rparr>"

definition timeout_example :: example where
  "timeout_example =
     \<lparr>ex_name = ''timeout'', ex_verdict = Timeout, ex_tx_hash = bytes32_seq_e001, ex_safety_score = TIMEOUT_SENTINEL,
      ex_optimality_score = TIMEOUT_SENTINEL, ex_outputs_hash = replicate 32 0, ex_slot = 350000300,
      ex_timestamp = 1712000300, ex_timeout_at_ms = 80,
      ex_flags =
        [\<lparr>pf_code = ''INFRA_DEADLINE_EXCEEDED'', pf_severity = PeaInfo,
          pf_detail = Some (''Evaluator did not complete within 80ms budget; no verdict-affecting '' @ ''output produced'')\<rparr>],
      ex_intent = None,
      ex_description = ''Example TIMEOUT verdict. MUST NOT be treated as APPROVE or WARN. '' @
        ''MUST NOT be overridden. The caller SHOULD retry with a fresh '' @
        ''submission. Regenerated by cargo run --example gen_pea_examples.''\<rparr>"

definition canonical_examples :: "example list option" where
  "canonical_examples =
     Option.bind bytes32_ee_ab_repeat (\<lambda>w.
     Option.bind bytes32_block_intent_fingerprint (\<lambda>b.
     Some [approve_example, warn_example w, block_example b, timeout_example]))"

subsection \<open>Writing\<close>

definition example_attestation :: "bytes \<Rightarrow> example \<Rightarrow> ciel_attestation" where
  "example_attestation pk ex =
     (if ex_verdict ex = Timeout
      then new_timeout (ex_tx_hash ex) (ex_outputs_hash ex) (ex_slot ex) pk (ex_timestamp ex) (ex_timeout_at_ms ex)
      else attestation_new (ex_tx_hash ex) (ex_verdict ex) (ex_safety_score ex) (ex_optimality_score ex)
             (ex_outputs_hash ex) (ex_slot ex) pk (ex_timestamp ex) (ex_timeout_at_ms ex))"

text \<open>The printer and reader of JSON text.\<close>

record json_text =
  print_pretty :: "json \<Rightarrow> (string, string) result"
  parse_text :: "string \<Rightarrow> (string, json) result"

type_synonym spec_dir = "(string, string) hashmap"

definition write_spec_file :: "(string \<Rightarrow> string option) \<Rightarrow> string \<Rightarrow> string \<Rightarrow> spec_dir \<Rightarrow> spec_dir \<times> (string, unit) result" where
  "write_spec_file fault path text d =
     (case fault path of Some e \<Rightarrow> (d, Inl e) | None \<Rightarrow> (hm_insert path text d, Inr ()))"

definition example_path :: "example \<Rightarrow> string" where
  "example_path ex = ''examples/'' @ ex_name ex @ ''.json''"

text \<open>The body of the loop for one example: the assertions, the signature, the envelope, the file.\<close>

definition example_envelope :: "ed25519 \<Rightarrow> text_codecs \<Rightarrow> example \<Rightarrow> (string, json) result option" where
  "example_envelope E C ex =
     (let key = TEST_SECRET_SEED; att = example_attestation (ed_public E key) ex; wire = encode_attestation att
      in if magic att \<noteq> CIEL_ATTESTATION_MAGIC \<or> version att \<noteq> ATTESTATION_VERSION \<or>
            expiry_slot att \<noteq> ex_slot ex + EXPIRY_SLOTS \<or> length wire \<noteq> 132
         then None
         else Some (bind_result
           (map_err signer_error_text (to_pea_json C att (ed_sign E key wire) (ex_flags ex) (ex_intent ex)))
           (\<lambda>env. Inr (json_set ''_description'' (JStr (ex_description ex)) env))))"

definition write_example ::
    "ed25519 \<Rightarrow> text_codecs \<Rightarrow> json_text \<Rightarrow> (string \<Rightarrow> string option) \<Rightarrow> example \<Rightarrow> spec_dir \<Rightarrow>
     (spec_dir \<times> (string, unit) result) option" where
  "write_example E C J fault ex d =
     (case example_envelope E C ex of
        None \<Rightarrow> None
      | Some (Inl e) \<Rightarrow> Some (d, Inl e)
      | Some (Inr env) \<Rightarrow>
          (case print_pretty J env of
             Inl e \<Rightarrow> Some (d, Inl e)
           | Inr text \<Rightarrow> Some (write_spec_file fault (example_path ex) (text @ [CHR 0x0A]) d)))"

fun write_examples ::
    "ed25519 \<Rightarrow> text_codecs \<Rightarrow> json_text \<Rightarrow> (string \<Rightarrow> string option) \<Rightarrow> example list \<Rightarrow> spec_dir \<Rightarrow>
     (spec_dir \<times> (string, unit) result) option" where
  "write_examples E C J fault [] d = Some (d, Inr ())"
| "write_examples E C J fault (ex # exs) d =
     (case write_example E C J fault ex d of
        None \<Rightarrow> None
      | Some (d', Inl e) \<Rightarrow> Some (d', Inl e)
      | Some (d', Inr u) \<Rightarrow> write_examples E C J fault exs d')"

definition pubkey_text :: "string \<Rightarrow> string" where
  "pubkey_text pubkey_hex =
     join [CHR 0x0A]
       [''Ciel PEA / 1.0 '' @ EM_DASH @ '' Test Public Key'', ''================================='', [],
        ''This Ed25519 public key is used to sign the four example files under'',
        ''./examples/. It is published here so that anyone can verify the example'',
        ''signatures without coordinating with the Ciel project.'', [],
        ''The key is derived deterministically from the 32-byte ASCII seed defined'',
        ''in crates/ciel-signer/examples/gen_pea_examples.rs. The seed is public'',
        ''and intentionally committed. Any attacker can trivially impersonate'',
        ''signatures under this key. Production issuers MUST derive fresh keys'',
        ''and publish their public keys independently.'', [],
        ''Public key (32 bytes, hex, lowercase):'', [], pubkey_hex, [],
        ''To regenerate example signatures against this key:'', [],
        ''cargo run --package ciel-signer --example gen_pea_examples'', [],
        ''The binary overwrites spec/examples/*.json and this file with the current'',
        ''pubkey derived from the source-committed seed.'', [],
        ''DO NOT USE THIS KEYPAIR FOR ANYTHING OTHER THAN REGENERATING SPEC EXAMPLES.'', []]"

subsection \<open>Verifying\<close>

text \<open>
  The 64 bytes of a signature: a slice out of range or inside a character panics, a digit pair that
  is no byte is an error.
\<close>

definition is_char_boundary :: "string \<Rightarrow> nat \<Rightarrow> bool" where
  "is_char_boundary s i \<longleftrightarrow> i = length s \<or> (i < length s \<and> \<not> is_continuation (s ! i))"

definition sig_byte :: "string \<Rightarrow> nat \<Rightarrow> (string, u8) result option" where
  "sig_byte hex i =
     (if \<not> is_char_boundary hex (i * 2) \<or> \<not> is_char_boundary hex (i * 2 + 2) then None
      else Some (ok_or ''invalid digit found in string'' (u8_from_hex (take 2 (drop (i * 2) hex)))))"

fun sig_bytes :: "string \<Rightarrow> nat list \<Rightarrow> (string, bytes) result option" where
  "sig_bytes hex [] = Some (Inr [])"
| "sig_bytes hex (i # is) =
     (case sig_byte hex i of
        None \<Rightarrow> None
      | Some (Inl e) \<Rightarrow> Some (Inl e)
      | Some (Inr b) \<Rightarrow> map_option (\<lambda>r. bind_result r (\<lambda>bs. Inr (b # bs))) (sig_bytes hex is))"

definition verify_envelope :: "ed25519 \<Rightarrow> text_codecs \<Rightarrow> bytes \<Rightarrow> json \<Rightarrow> (string, unit) result option" where
  "verify_envelope E C pk env =
     (case Option.bind (json_get env ''spec_version'') json_as_str of
        None \<Rightarrow> Some (Inl ''missing spec_version'')
      | Some v \<Rightarrow>
          if v \<noteq> PEA_SPEC_VERSION then None
          else (case Option.bind (Option.bind (json_get env ''wire'') (\<lambda>w. json_get w ''borsh_b64'')) json_as_str of
             None \<Rightarrow> Some (Inl ''missing wire.borsh_b64'')
           | Some b64 \<Rightarrow>
               (case b64_decode C b64 of
                  Inl e \<Rightarrow> Some (Inl e)
                | Inr wire \<Rightarrow>
                    if length wire \<noteq> 132 then None
                    else (case Option.bind (json_get env ''signature'') json_as_str of
                            None \<Rightarrow> Some (Inl ''missing signature'')
                          | Some hex \<Rightarrow>
                              (case sig_bytes hex [0..<64] of
                                 None \<Rightarrow> None
                               | Some (Inl e) \<Rightarrow> Some (Inl e)
                               | Some (Inr sig) \<Rightarrow>
                                   Some (if ed_verify_strict E pk wire sig then Inr ()
                                         else Inl ''signature verification failed''))))))"

definition verify_file ::
    "ed25519 \<Rightarrow> text_codecs \<Rightarrow> json_text \<Rightarrow> bytes \<Rightarrow> spec_dir \<Rightarrow> string \<Rightarrow> (string, unit) result option" where
  "verify_file E C J pk d path =
     (case hm_get d path of
        None \<Rightarrow> Some (Inl ''not found'')
      | Some text \<Rightarrow>
          (case parse_text J text of Inl e \<Rightarrow> Some (Inl e) | Inr env \<Rightarrow> verify_envelope E C pk env))"

fun verify_files ::
    "ed25519 \<Rightarrow> text_codecs \<Rightarrow> json_text \<Rightarrow> bytes \<Rightarrow> spec_dir \<Rightarrow> string list \<Rightarrow> (string, unit) result option" where
  "verify_files E C J pk d [] = Some (Inr ())"
| "verify_files E C J pk d (f # fs) =
     (case verify_file E C J pk d f of
        None \<Rightarrow> None
      | Some (Inl e) \<Rightarrow> Some (Inl e)
      | Some (Inr u) \<Rightarrow> verify_files E C J pk d fs)"

definition gen_pea_examples ::
    "ed25519 \<Rightarrow> text_codecs \<Rightarrow> json_text \<Rightarrow> (string \<Rightarrow> string option) \<Rightarrow> spec_dir \<Rightarrow>
     (spec_dir \<times> (string, unit) result) option" where
  "gen_pea_examples E C J fault d =
     (let pk = ed_public E TEST_SECRET_SEED
      in case fault ''examples'' of
           Some e \<Rightarrow> Some (d, Inl e)
         | None \<Rightarrow>
             (case canonical_examples of
                None \<Rightarrow> None
              | Some exs \<Rightarrow>
                  (case write_examples E C J fault exs d of
                     None \<Rightarrow> None
                   | Some (d1, Inl e) \<Rightarrow> Some (d1, Inl e)
                   | Some (d1, Inr u) \<Rightarrow>
                       (case write_spec_file fault ''test-public-key.txt'' (pubkey_text (hex_from pk)) d1 of
                          (d2, Inl e) \<Rightarrow> Some (d2, Inl e)
                        | (d2, Inr u2) \<Rightarrow> map_option (Pair d2) (verify_files E C J pk d2 (map example_path exs))))))"

subsection \<open>Hexadecimal texts\<close>

lemma hex_digit_value:
  assumes "n < 16"
  shows "hex_value (hex_digit n) = Some n" "hex_digit n \<noteq> CHR ''+''" "\<not> is_continuation (hex_digit n)"
proof -
  have c: "code_of (hex_digit n) = (if n < 10 then 48 + n else 87 + n)"
    using assms by (simp add: hex_digit_def code_of_def)
  then show "hex_value (hex_digit n) = Some n" "\<not> is_continuation (hex_digit n)"
    using assms by (auto simp: hex_value_def is_continuation_def)
  have "code_of CHR ''+'' = 43" by (simp add: code_of_def)
  then show "hex_digit n \<noteq> CHR ''+''" using c by (auto split: if_splits)
qed

lemma hex_byte_digits: "unat b div 16 < 16" "unat b mod 16 < 16" for b :: u8
  using unat_u8_less [of b] by auto

lemma u8_from_hex_byte: "u8_from_hex (hex_byte b) = Some b"
  using unat_u8_less [of b] hex_byte_digits [of b]
  by (simp add: u8_from_hex_def hex_byte_def hex_digit_value Let_def)

lemma hex_from_Cons: "hex_from (b # bs) = hex_byte b @ hex_from bs"
  by (simp add: hex_from_def)

lemma length_hex_from [simp]: "length (hex_from bs) = 2 * length bs"
  by (induction bs) (simp_all add: hex_from_Cons hex_byte_def, simp add: hex_from_def)

lemma set_hex_from: "set (hex_from bs) \<subseteq> hex_digit ` {..<16}"
  using hex_byte_digits by (auto simp: hex_from_def hex_byte_def)

lemma hex_from_boundary:
  assumes "i \<le> 2 * length bs"
  shows "is_char_boundary (hex_from bs) i"
proof (cases "i = 2 * length bs")
  case False
  then have "hex_from bs ! i \<in> hex_digit ` {..<16}" using assms by (intro subsetD [OF set_hex_from [of bs]] nth_mem) simp
  then show ?thesis using False assms hex_digit_value(3) by (auto simp: is_char_boundary_def)
qed (simp add: is_char_boundary_def)

lemma hex_from_slice: "i < length bs \<Longrightarrow> take 2 (drop (i * 2) (hex_from bs)) = hex_byte (bs ! i)"
proof (induction bs arbitrary: i)
  case (Cons b bs)
  then show ?case by (cases i) (simp_all add: hex_from_Cons hex_byte_def numeral_2_eq_2)
qed simp

lemma sig_byte_hex: "i < length bs \<Longrightarrow> sig_byte (hex_from bs) i = Some (Inr (bs ! i))"
  by (simp add: sig_byte_def hex_from_boundary hex_from_slice u8_from_hex_byte)

lemma sig_bytes_hex: "sig_bytes (hex_from bs) [0..<length bs] = Some (Inr bs)"
proof -
  have "sig_bytes (hex_from bs) is = Some (Inr (map ((!) bs) is))" if "set is \<subseteq> {..<length bs}" for "is"
    using that by (induction "is") (simp_all add: sig_byte_hex)
  from this [of "[0..<length bs]"] show ?thesis by (simp add: map_nth atLeast_upt)
qed

subsection \<open>The envelopes are JSON a text carries exactly\<close>

lemma json_exact_set: "json_exact d v \<Longrightarrow> json_exact (Suc d) j \<Longrightarrow> json_exact (Suc d) (json_set k v j)"
  using bt_insert_values [of k v] by (cases j) (fastforce simp: list_all_iff bt.invar_put)+

lemma json_int_exact: "json_exact d (json_int (sint w))" for w :: u64
  using sint_range_size [of w] by (auto simp: json_int_def word_size)

lemma flag_and_intent_exact: "json_exact (Suc d) (pea_flag_json f)" "json_exact (Suc d) (pea_intent_json i)"
proof -
  have "json_exact d (pea_severity_json x)" for x by (cases x) simp_all
  then show "json_exact (Suc d) (pea_flag_json f)" "json_exact (Suc d) (pea_intent_json i)"
    by (auto simp: pea_flag_json_def pea_intent_json_def opt_field_def intro!: json_exact_obj split: option.splits)
qed

lemma attestation_json_exact: "json_exact (Suc d) (attestation_json C a)"
proof -
  have "unat w < 2 ^ 64" for w :: u8 using unat_u8_less [of w] by simp
  moreover have "unat w < 2 ^ 64" for w :: u16 using unat_u16_less [of w] by simp
  ultimately show ?thesis
    by (auto simp: attestation_json_def unat_u64_less json_int_exact intro!: json_exact_obj)
qed

lemma envelope_exact: "to_pea_json C a sig fs i = Inr env \<Longrightarrow> json_exact (Suc (Suc (Suc 0))) env"
  by (auto simp: to_pea_json_def Let_def attestation_json_exact flag_and_intent_exact list_all_iff
      intro!: json_exact_obj json_exact_set split: option.splits if_splits)

subsection \<open>One example\<close>

text \<open>What the Ed25519 crate and the printer of JSON document.\<close>

definition signatures_sized :: "ed25519 \<Rightarrow> bool" where
  "signatures_sized E \<longleftrightarrow> (\<forall>k m. length (ed_sign E k m) = 64)"

definition text_roundtrips :: "json_text \<Rightarrow> bool" where
  "text_roundtrips J \<longleftrightarrow>
     (\<forall>v. exact_text v \<longrightarrow> (\<exists>s. print_pretty J v = Inr s \<and> parse_text J (s @ [CHR 0x0A]) = Inr v))"

definition example_sized :: "example \<Rightarrow> bool" where
  "example_sized ex \<longleftrightarrow> length (ex_tx_hash ex) = 32 \<and> length (ex_outputs_hash ex) = 32"

lemma canonical_examples_value:
  obtains w b where "canonical_examples = Some [approve_example, warn_example w, block_example b, timeout_example]"
proof -
  have "bytes32_ee_ab_repeat \<noteq> None" "bytes32_block_intent_fingerprint \<noteq> None"
    by (simp_all add: bytes32_ee_ab_repeat_def bytes32_block_intent_fingerprint_def bytes32_of_hex_def
        EE_HEX_def BLOCK_HEX_def upt_rec u8_from_hex_def hex_value_def code_of_def Let_def)
  then obtain w b where wb: "bytes32_ee_ab_repeat = Some w" "bytes32_block_intent_fingerprint = Some b" by blast
  show ?thesis by (rule that [of w b]) (simp add: canonical_examples_def wb)
qed

lemma canonical_sized:
  "list_all example_sized [approve_example, warn_example w, block_example b, timeout_example]"
proof -
  have "length (bytes32_seq hi) = 32" for hi by (simp add: bytes32_seq_def upt_rec)
  moreover have "length (bytes32_from_pattern p) = 32" for p by (simp add: bytes32_from_pattern_def)
  ultimately show ?thesis
    by (simp add: example_sized_def approve_example_def warn_example_def block_example_def timeout_example_def
        bytes32_seq_a001_def bytes32_seq_b001_def bytes32_seq_c001_def bytes32_seq_d001_def bytes32_seq_e001_def)
qed

lemma seed_length: "length TEST_SECRET_SEED = 32"
  by (simp add: TEST_SECRET_SEED_def str_bytes_def)

lemma example_attestation_wf:
  "example_sized ex \<Longrightarrow> length pk = 32 \<Longrightarrow> attestation_wf (example_attestation pk ex)"
  by (simp add: example_attestation_def example_sized_def new_timeout_def attestation_wf_new)

lemma json_get_set_other: "k' \<noteq> k \<Longrightarrow> json_get (json_set k v j) k' = json_get j k'"
  by (cases j) (simp_all add: lookup_bt_insert)

lemma described_envelope:
  assumes "to_pea_json C a sig fs i = Inr env0" "codecs_roundtrip C" "attestation_wf a" "length sig = 64"
    and "env = json_set ''_description'' (JStr desc) env0"
  shows "from_pea_json C env = Inr (a, sig)" "exact_text env"
    and "hex_encode C = hex_from \<Longrightarrow> ed_verify_strict E pk (encode_attestation a) sig \<Longrightarrow>
      verify_envelope E C pk env = Some (Inr ())"
proof -
  note get = envelope_fields [OF assms(1)] 
  have env: "json_get env ''spec_version'' = json_get env0 ''spec_version''" "json_get env ''wire'' = json_get env0 ''wire''"
    "json_get env ''signature'' = json_get env0 ''signature''"
    by (simp_all add: assms(5) json_get_set_other)
  show "from_pea_json C env = Inr (a, sig)"
    using get assms(2-4) by (auto simp: from_pea_json_Inr env codecs_roundtrip_def)
  have "json_exact (Suc (Suc (Suc 0))) env" using envelope_exact [OF assms(1)] by (simp add: assms(5) json_exact_set)
  then show "exact_text env" by (rule exact_textI) simp
  assume "hex_encode C = hex_from" "ed_verify_strict E pk (encode_attestation a) sig"
  then show "verify_envelope E C pk env = Some (Inr ())"
    using get assms(2-4) sig_bytes_hex [of sig]
    by (simp add: verify_envelope_def env codecs_roundtrip_def length_encode)
qed

lemma example_envelope_ok:
  assumes "ed25519_correct E" "signatures_sized E" "codecs_roundtrip C" "hex_encode C = hex_from" "example_sized ex"
    and pk: "pk = ed_public E TEST_SECRET_SEED"
  obtains env sig where "example_envelope E C ex = Some (Inr env)" "exact_text env"
    "from_pea_json C env = Inr (example_attestation pk ex, sig)"
    "verify_attestation E pk (encode_attestation (example_attestation pk ex)) sig"
    "verify_envelope E C pk env = Some (Inr ())"
proof -
  let ?a = "example_attestation pk ex"
  define sig where "sig = ed_sign E TEST_SECRET_SEED (encode_attestation ?a)"
  have k: "length pk = 32" "ed_is_key E pk" "ed_verify_strict E pk (encode_attestation ?a) sig"
    using assms(1) seed_length by (simp_all add: pk sig_def ed25519_correct_def)
  have sig: "length sig = 64" using assms(2) by (simp add: sig_def signatures_sized_def)
  have wf: "attestation_wf ?a" using assms(5) k(1) by (rule example_attestation_wf)
  obtain env0 where env0: "to_pea_json C ?a sig (ex_flags ex) (ex_intent ex) = Inr env0"
    by (simp add: to_pea_json_def Let_def)
  note d = described_envelope [OF env0 assms(3) wf sig refl, where desc = "ex_description ex"]
  have "magic ?a = CIEL_ATTESTATION_MAGIC" "version ?a = ATTESTATION_VERSION" "expiry_slot ?a = ex_slot ex + EXPIRY_SLOTS"
    by (simp_all add: example_attestation_def new_timeout_def attestation_new_def)
  then have "example_envelope E C ex = Some (Inr (json_set ''_description'' (JStr (ex_description ex)) env0))"
    using env0 wf by (simp add: example_envelope_def Let_def pk sig_def length_encode)
  moreover have "verify_attestation E pk (encode_attestation ?a) sig" using k by (simp add: verify_attestation_def)
  ultimately show ?thesis using that d(1,2) d(3) [OF assms(4) k(3)] by blast
qed

subsection \<open>The whole run\<close>

text \<open>Writing files without faults: each example's text is in its file, other files are as before.\<close>

lemma write_examples_ok:
  assumes "\<And>ex. ex \<in> set exs \<Longrightarrow> \<exists>env. example_envelope E C ex = Some (Inr env) \<and> print_pretty J env = Inr (body ex)"
    and "distinct (map example_path exs)"
  shows "\<exists>d'. write_examples E C J (\<lambda>p. None) exs d = Some (d', Inr ()) \<and>
    (\<forall>ex \<in> set exs. hm_get d' (example_path ex) = Some (body ex @ [CHR 0x0A])) \<and>
    (\<forall>p. p \<notin> example_path ` set exs \<longrightarrow> hm_get d' p = hm_get d p)"
  using assms
proof (induction exs arbitrary: d)
  case (Cons ex exs)
  let ?d = "hm_insert (example_path ex) (body ex @ [CHR 0x0A]) d"
  have w: "write_example E C J (\<lambda>p. None) ex d = Some (?d, Inr ())"
    using Cons.prems(1) [of ex] by (auto simp: write_example_def write_spec_file_def)
  obtain d' where d': "write_examples E C J (\<lambda>p. None) exs ?d = Some (d', Inr ())"
    "\<forall>e \<in> set exs. hm_get d' (example_path e) = Some (body e @ [CHR 0x0A])"
    "\<forall>p. p \<notin> example_path ` set exs \<longrightarrow> hm_get d' p = hm_get ?d p"
    using Cons.IH [of ?d] Cons.prems by auto
  have "hm_get d' (example_path ex) = Some (body ex @ [CHR 0x0A])"
    using d'(3) Cons.prems(2) by (simp add: update_conv')
  moreover have "hm_get d' p = hm_get d p" if "p \<notin> example_path ` set (ex # exs)" for p
    using that d'(3) by (simp add: update_conv')
  ultimately show ?case using w d'(1,2) by (intro exI [of _ d']) simp
qed simp

lemma verify_files_ok:
  "(\<And>f. f \<in> set fs \<Longrightarrow> verify_file E C J pk d f = Some (Inr ())) \<Longrightarrow> verify_files E C J pk d fs = Some (Inr ())"
  by (induction fs) simp_all

lemma canonical_paths:
  "map example_path [approve_example, warn_example w, block_example b, timeout_example] =
     [''examples/approve.json'', ''examples/warn.json'', ''examples/block.json'', ''examples/timeout.json'']"
  by (simp add: example_path_def approve_example_def warn_example_def block_example_def timeout_example_def)

text \<open>Any list of examples: what is written is read back and verifies.\<close>

lemma written_examples_verify:
  assumes "ed25519_correct E" "signatures_sized E" "codecs_roundtrip C" "hex_encode C = hex_from" "text_roundtrips J"
    and pk: "pk = ed_public E TEST_SECRET_SEED"
    and exs: "list_all example_sized exs" "distinct (map example_path exs)"
  obtains d' body env where "write_examples E C J (\<lambda>p. None) exs d = Some (d', Inr ())"
    "\<And>p. p \<notin> example_path ` set exs \<Longrightarrow> hm_get d' p = hm_get d p"
    "\<And>ex. ex \<in> set exs \<Longrightarrow> hm_get d' (example_path ex) = Some (body ex) \<and> parse_text J (body ex) = Inr (env ex) \<and>
       verify_envelope E C pk (env ex) = Some (Inr ()) \<and>
       (\<exists>sig. from_pea_json C (env ex) = Inr (example_attestation pk ex, sig) \<and>
          verify_attestation E pk (encode_attestation (example_attestation pk ex)) sig)"
proof -
  have "\<exists>env s. example_envelope E C ex = Some (Inr env) \<and> print_pretty J env = Inr s \<and> parse_text J (s @ [CHR 0x0A]) = Inr env \<and>
      verify_envelope E C pk env = Some (Inr ()) \<and>
      (\<exists>sig. from_pea_json C env = Inr (example_attestation pk ex, sig) \<and>
         verify_attestation E pk (encode_attestation (example_attestation pk ex)) sig)" if "ex \<in> set exs" for ex
  proof -
    have "example_sized ex" using that exs(1) by (simp add: list_all_iff)
    from example_envelope_ok [OF assms(1-4) this pk] assms(5) show ?thesis
      by (metis text_roundtrips_def)
  qed
  then obtain env s where e: "\<And>ex. ex \<in> set exs \<Longrightarrow> example_envelope E C ex = Some (Inr (env ex)) \<and>
      print_pretty J (env ex) = Inr (s ex) \<and> parse_text J (s ex @ [CHR 0x0A]) = Inr (env ex) \<and>
      verify_envelope E C pk (env ex) = Some (Inr ()) \<and>
      (\<exists>sig. from_pea_json C (env ex) = Inr (example_attestation pk ex, sig) \<and>
         verify_attestation E pk (encode_attestation (example_attestation pk ex)) sig)"
    by metis
  obtain d' where d': "write_examples E C J (\<lambda>p. None) exs d = Some (d', Inr ())"
    "\<forall>ex \<in> set exs. hm_get d' (example_path ex) = Some (s ex @ [CHR 0x0A])"
    "\<forall>p. p \<notin> example_path ` set exs \<longrightarrow> hm_get d' p = hm_get d p"
    using write_examples_ok [of exs E C J s d] e exs(2) by blast
  show ?thesis by (rule that [of d' "\<lambda>ex. s ex @ [CHR 0x0A]" env]) (use d' e in auto)
qed

text \<open>C32: The generator of the published examples accepts its own output. With an Ed25519 implementation
  whose signatures verify and have 64 bytes, lower-case hexadecimal, codecs and JSON text that read
  back what they write, and no file error, the tool ends without a panic and without an error. It
  has then written one file for each of the four verdicts; each of them is read by the library as
  exactly the attestation of that example under the test key, with a signature that verifies. The
  file of the test key holds its hexadecimal text, and no other file is touched.\<close>

theorem published_examples_verify:
  assumes "ed25519_correct E" "signatures_sized E" "codecs_roundtrip C" "hex_encode C = hex_from" "text_roundtrips J"
    and pk: "pk = ed_public E TEST_SECRET_SEED"
  shows "\<exists>d' exs. gen_pea_examples E C J (\<lambda>p. None) d = Some (d', Inr ()) \<and>
    canonical_examples = Some exs \<and> map ex_verdict exs = [Approve, Warn, Block, Timeout] \<and>
    (\<forall>ex \<in> set exs. \<exists>text env sig. hm_get d' (example_path ex) = Some text \<and> parse_text J text = Inr env \<and>
       from_pea_json C env = Inr (example_attestation pk ex, sig) \<and>
       verify_attestation E pk (encode_attestation (example_attestation pk ex)) sig) \<and>
    hm_get d' ''test-public-key.txt'' = Some (pubkey_text (hex_from pk)) \<and>
    (\<forall>p. p \<notin> set (''test-public-key.txt'' # map example_path exs) \<longrightarrow> hm_get d' p = hm_get d p)"
proof -
  obtain w b where canon: "canonical_examples = Some [approve_example, warn_example w, block_example b, timeout_example]"
    by (rule canonical_examples_value)
  define exs where "exs = [approve_example, warn_example w, block_example b, timeout_example]"
  have paths: "map example_path exs =
      [''examples/approve.json'', ''examples/warn.json'', ''examples/block.json'', ''examples/timeout.json'']"
    unfolding exs_def by (rule canonical_paths)
  have "list_all example_sized exs" "distinct (map example_path exs)"
    using canonical_sized paths unfolding exs_def by simp_all
  from written_examples_verify [OF assms this, of d] obtain d1 body env where
    d1: "write_examples E C J (\<lambda>p. None) exs d = Some (d1, Inr ())"
      "\<And>p. p \<notin> example_path ` set exs \<Longrightarrow> hm_get d1 p = hm_get d p" and
    e: "\<And>ex. ex \<in> set exs \<Longrightarrow> hm_get d1 (example_path ex) = Some (body ex) \<and> parse_text J (body ex) = Inr (env ex) \<and>
      verify_envelope E C pk (env ex) = Some (Inr ()) \<and>
      (\<exists>sig. from_pea_json C (env ex) = Inr (example_attestation pk ex, sig) \<and>
         verify_attestation E pk (encode_attestation (example_attestation pk ex)) sig)" by blast
  define d2 where "d2 = hm_insert ''test-public-key.txt'' (pubkey_text (hex_from pk)) d1"
  have f: "hm_get d2 (example_path ex) = Some (body ex)" if "ex \<in> set exs" for ex
  proof -
    have "example_path ex \<in> set (map example_path exs)" using that by simp
    then show ?thesis using e [OF that] by (auto simp: d2_def update_conv' paths)
  qed
  have "verify_files E C J pk d2 (map example_path exs) = Some (Inr ())"
    by (rule verify_files_ok) (auto simp: verify_file_def f e)
  then have "gen_pea_examples E C J (\<lambda>p. None) d = Some (d2, Inr ())"
    using d1(1) by (simp add: gen_pea_examples_def Let_def write_spec_file_def d2_def pk canon flip: exs_def)
  moreover have "map ex_verdict exs = [Approve, Warn, Block, Timeout]"
    by (simp add: exs_def approve_example_def warn_example_def block_example_def timeout_example_def)
  moreover have "\<forall>ex \<in> set exs. \<exists>text env sig. hm_get d2 (example_path ex) = Some text \<and> parse_text J text = Inr env \<and>
       from_pea_json C env = Inr (example_attestation pk ex, sig) \<and>
       verify_attestation E pk (encode_attestation (example_attestation pk ex)) sig"
    using e f by metis
  moreover have "hm_get d2 p = hm_get d p" if "p \<notin> set (''test-public-key.txt'' # map example_path exs)" for p
    using that d1(2) [of p] by (auto simp: d2_def update_conv')
  ultimately show ?thesis
    using canon unfolding exs_def [symmetric] by (intro exI [of _ d2] exI [of _ exs]) (simp add: d2_def update_conv')
qed

text \<open>A run of the tool: keys that are their own public keys and signatures cut to 64 bytes, real
  hexadecimal, byte texts for base64 and unary codes for JSON.\<close>

definition short_scheme :: ed25519 where
  "short_scheme = tag_scheme\<lparr>ed_sign := \<lambda>k m. take 64 (k @ m @ replicate 64 0),
     ed_verify_strict := \<lambda>k m s. s = take 64 (k @ m @ replicate 64 0)\<rparr>"

definition hex_codecs :: text_codecs where
  "hex_codecs = plain_codecs\<lparr>hex_encode := hex_from,
     hex_decode := \<lambda>s. case sig_bytes s [0..<length s div 2] of None \<Rightarrow> Inl [] | Some r \<Rightarrow> r\<rparr>"

definition unary_text :: json_text where
  "unary_text = \<lparr>print_pretty = \<lambda>v. Inr (replicate (to_nat v) CHR ''1''),
     parse_text = \<lambda>s. Inr (from_nat (length s - 1))\<rparr>"

lemma example_run_assumptions:
  "ed25519_correct short_scheme" "signatures_sized short_scheme" "codecs_roundtrip hex_codecs"
  "hex_encode hex_codecs = hex_from" "text_roundtrips unary_text"
proof -
  show "signatures_sized short_scheme" by (auto simp: short_scheme_def signatures_sized_def min_def)
qed (simp_all add: short_scheme_def tag_scheme_def ed25519_correct_def hex_codecs_def
    plain_codecs_def codecs_roundtrip_def sig_bytes_hex str_bytes_bytes_str text_roundtrips_def unary_text_def)

theorem published_examples_verify_witness:
  "\<exists>d' exs. gen_pea_examples short_scheme hex_codecs unary_text (\<lambda>p. None) [] = Some (d', Inr ()) \<and>
     canonical_examples = Some exs \<and> map ex_verdict exs = [Approve, Warn, Block, Timeout]"
  using published_examples_verify [OF example_run_assumptions refl, of "[]"] by (elim exE conjE) (intro exI conjI)

subsection \<open>The schema of the envelope\<close>

text \<open>
  \<^verbatim>\<open>spec/ciel-pea-1.0.schema.json\<close> as a predicate on JSON values: the required members with their
  types and ranges, the objects that admit no further members, and the optional members.
\<close>

definition required :: "json \<Rightarrow> string \<Rightarrow> (json \<Rightarrow> bool) \<Rightarrow> bool" where
  "required v k P = (case json_get v k of None \<Rightarrow> False | Some x \<Rightarrow> P x)"

definition optional :: "json \<Rightarrow> string \<Rightarrow> (json \<Rightarrow> bool) \<Rightarrow> bool" where
  "optional v k P = (case json_get v k of None \<Rightarrow> True | Some x \<Rightarrow> P x)"

fun is_object :: "json \<Rightarrow> bool" where
  "is_object (JObj m) = True"
| "is_object v = False"

fun only_members :: "string list \<Rightarrow> json \<Rightarrow> bool" where
  "only_members ks (JObj m) = list_all (\<lambda>kv. fst kv \<in> set ks) m"
| "only_members ks v = False"

definition str_schema :: "(string \<Rightarrow> bool) \<Rightarrow> json \<Rightarrow> bool" where
  "str_schema P v = (case json_as_str v of None \<Rightarrow> False | Some s \<Rightarrow> P s)"

definition hex_pattern :: "nat \<Rightarrow> string \<Rightarrow> bool" where
  "hex_pattern n s \<longleftrightarrow> length s = n \<and> list_all (\<lambda>c. c \<in> set HEX_DIGITS) s"

definition uint_schema :: "nat \<Rightarrow> json \<Rightarrow> bool" where
  "uint_schema hi v = (case json_as_u64 v of None \<Rightarrow> False | Some n \<Rightarrow> n \<le> hi)"

fun is_integer :: "json \<Rightarrow> bool" where
  "is_integer (JU64 n) = True"
| "is_integer (JI64 i) = True"
| "is_integer v = False"

fun is_bool_or_null :: "json \<Rightarrow> bool" where
  "is_bool_or_null (JBool b) = True"
| "is_bool_or_null JNull = True"
| "is_bool_or_null v = False"

definition attestation_members :: "string list" where
  "attestation_members =
     [''magic'', ''version'', ''tx_hash'', ''verdict'', ''safety_score'', ''optimality_score'',
      ''checker_outputs_hash'', ''slot'', ''expiry_slot'', ''signer'', ''timestamp'', ''timeout_at_ms'']"

definition attestation_schema :: "json \<Rightarrow> bool" where
  "attestation_schema v \<longleftrightarrow>
     only_members attestation_members v \<and>
     required v ''magic'' (\<lambda>x. x = JStr ''CIEL'') \<and>
     required v ''version'' (\<lambda>x. x = JU64 1) \<and>
     required v ''tx_hash'' (str_schema (hex_pattern 64)) \<and>
     required v ''verdict'' (uint_schema 3) \<and>
     required v ''safety_score'' (uint_schema 65535) \<and>
     required v ''optimality_score'' (uint_schema 65535) \<and>
     required v ''checker_outputs_hash'' (str_schema (hex_pattern 64)) \<and>
     required v ''slot'' (uint_schema 18446744073709551615) \<and>
     required v ''expiry_slot'' (uint_schema 18446744073709551615) \<and>
     required v ''signer'' (str_schema (hex_pattern 64)) \<and>
     required v ''timestamp'' is_integer \<and>
     required v ''timeout_at_ms'' (uint_schema 65535)"

definition wire_schema :: "json \<Rightarrow> bool" where
  "wire_schema v \<longleftrightarrow>
     only_members [''borsh_b64'', ''fixture_version''] v \<and>
     required v ''borsh_b64'' (str_schema (\<lambda>s. True)) \<and>
     required v ''fixture_version'' (\<lambda>x. x = JStr ''ciel_attestation_v1'')"

definition flag_schema :: "json \<Rightarrow> bool" where
  "flag_schema v \<longleftrightarrow>
     is_object v \<and> required v ''code'' (str_schema (\<lambda>s. True)) \<and>
     required v ''severity'' (str_schema (\<lambda>s. s \<in> {''INFO'', ''WARN'', ''BLOCK''})) \<and>
     optional v ''detail'' (str_schema (\<lambda>s. True))"

fun flags_schema :: "json \<Rightarrow> bool" where
  "flags_schema (JArr vs) = list_all flag_schema vs"
| "flags_schema v = False"

definition intent_schema :: "json \<Rightarrow> bool" where
  "intent_schema v \<longleftrightarrow>
     is_object v \<and> optional v ''intent_nl'' (str_schema (\<lambda>s. True)) \<and>
     optional v ''intent_fingerprint'' (str_schema (hex_pattern 64)) \<and>
     optional v ''intent_satisfied'' is_bool_or_null"

definition identity_proof_schema :: "json \<Rightarrow> bool" where
  "identity_proof_schema v \<longleftrightarrow>
     is_object v \<and>
     required v ''kind'' (str_schema (\<lambda>s. s \<in> {''none'', ''world_id'', ''ens'', ''revoked_world_id''})) \<and>
     optional v ''value'' (str_schema (\<lambda>s. True))"

definition issuer_schema :: "json \<Rightarrow> bool" where
  "issuer_schema v \<longleftrightarrow>
     is_object v \<and> optional v ''agent_id'' (str_schema (\<lambda>s. True)) \<and>
     optional v ''operator_pubkey_hash'' (str_schema (hex_pattern 64)) \<and>
     optional v ''identity_proof'' identity_proof_schema"

definition pea_schema :: "json \<Rightarrow> bool" where
  "pea_schema v \<longleftrightarrow>
     is_object v \<and>
     required v ''spec_version'' (\<lambda>x. x = JStr ''ciel-pea/1.0'') \<and>
     required v ''attestation'' attestation_schema \<and>
     required v ''signature'' (str_schema (hex_pattern 128)) \<and>
     required v ''wire'' wire_schema \<and>
     optional v ''flags'' flags_schema \<and>
     optional v ''intent'' intent_schema \<and>
     optional v ''issuer'' issuer_schema"

lemmas member_defs = required_def optional_def str_schema_def uint_schema_def

lemma hex_from_pattern: "length bs = n \<Longrightarrow> hex_pattern (2 * n) (hex_from bs)"
  using set_hex_from [of bs] hex_digit_mem by (auto simp: hex_pattern_def list_all_iff)

lemma only_members_obj: "set (map fst kvs) \<subseteq> set ks \<Longrightarrow> only_members ks (json_obj kvs)"
proof -
  assume k: "set (map fst kvs) \<subseteq> set ks"
  have "fst kv \<in> set ks" if "kv \<in> set (bt_collect kvs)" for kv
  proof -
    have "map_of (bt_collect kvs) (fst kv) \<noteq> None" unfolding map_of_eq_None_iff using that by simp
    then show ?thesis using k by (auto simp: lookup_bt_collect map_of_eq_None_iff)
  qed
  then show ?thesis by (simp add: json_obj_def list_all_iff)
qed

lemma is_object_obj [simp]: "is_object (json_obj kvs)"
  by (simp add: json_obj_def)

lemma is_object_set [simp]: "is_object (json_set k v j) = is_object j"
  by (cases j) simp_all

lemma attestation_conforms:
  assumes "hex_encode C = hex_from" "length txh = 32" "length oh = 32" "length pk = 32"
  shows "attestation_schema (attestation_json C (attestation_new txh v ss os oh sl pk ts tms))"
proof -
  have "unat (verdict_u8 v) \<le> 3" by (cases v) simp_all
  moreover have "unat w \<le> 65535" for w :: u16 using unat_u16_less [of w] by simp
  moreover have "unat w \<le> 18446744073709551615" for w :: u64 using unat_u64_less [of w] by simp
  moreover have "is_integer (json_int x)" for x by (simp add: json_int_def)
  moreover have "str_from_utf8 CIEL_ATTESTATION_MAGIC = Some ''CIEL''"
    by code_simp
  ultimately show ?thesis
    using assms hex_from_pattern [of _ 32]
    by (simp add: attestation_schema_def attestation_json_def member_defs attestation_new_def ATTESTATION_VERSION_def
        only_members_obj attestation_members_def)
qed

lemma flag_conforms: "flag_schema (pea_flag_json f)"
  by (cases "pf_severity f"; cases "pf_detail f") (simp_all add: flag_schema_def pea_flag_json_def opt_field_def member_defs)

lemma intent_conforms:
  "(\<And>fp. intent_fingerprint x = Some fp \<Longrightarrow> hex_pattern 64 fp) \<Longrightarrow> intent_schema (pea_intent_json x)"
  by (cases "intent_nl x"; cases "intent_fingerprint x"; cases "intent_satisfied x")
    (simp_all add: intent_schema_def pea_intent_json_def opt_field_def member_defs)

text \<open>C33: Every envelope conforms to the published schema. For hashes and a key of 32 bytes, a signature of
  64, lower-case hexadecimal, and a fingerprint, where the intent has one, of 64 lower-case
  hexadecimal digits, the envelope the library writes for an attestation of any verdict (timeouts
  included), with whatever scores, slots, times and flags, has exactly the members the schema asks
  for, of the types and in the ranges it gives.\<close>

theorem envelope_conforms:
  assumes "hex_encode C = hex_from" "length txh = 32" "length oh = 32" "length pk = 32" "length sig = 64"
    and "\<And>x fp. i = Some x \<Longrightarrow> intent_fingerprint x = Some fp \<Longrightarrow> hex_pattern 64 fp"
  shows "\<exists>v. to_pea_json C (attestation_new txh vd ss os oh sl pk ts tms) sig fs i = Inr v \<and> pea_schema v"
proof -
  let ?a = "attestation_new txh vd ss os oh sl pk ts tms"
  obtain v where v: "to_pea_json C ?a sig fs i = Inr v" by (simp add: to_pea_json_def Let_def)
  have m: "is_object v" "json_get v ''attestation'' = Some (attestation_json C ?a)" "json_get v ''issuer'' = None"
    "json_get v ''flags'' = (if fs = [] then None else Some (JArr (map pea_flag_json fs)))"
    "json_get v ''intent'' = map_option pea_intent_json i"
    using v by (cases i; cases "fs = []"; auto simp: to_pea_json_def Let_def)+
  have "list_all flag_schema (map pea_flag_json fs)" by (simp add: list_all_iff flag_conforms)
  moreover have "intent_schema (pea_intent_json x)" if "i = Some x" for x
    using assms(6) [OF that] by (rule intent_conforms)
  moreover have "hex_pattern 128 (hex_from sig)" using hex_from_pattern [OF assms(5)] by simp
  ultimately have "pea_schema v"
    using envelope_fields [OF v] m attestation_conforms [OF assms(1-4)] assms(1)
    by (cases i) (simp_all add: pea_schema_def member_defs wire_schema_def only_members_obj PEA_SPEC_VERSION_def PEA_FIXTURE_VERSION_def)
  then show ?thesis using v by blast
qed

theorem envelope_conforms_witness:
  "\<exists>v. to_pea_json hex_codecs (attestation_new (replicate 32 1) Block 3500 0 (replicate 32 2) 7 (replicate 32 3) 0 0)
     (replicate 64 9) [\<lparr>pf_code = ''A'', pf_severity = PeaWarn, pf_detail = None\<rparr>] None = Inr v \<and> pea_schema v"
  by (rule envelope_conforms) (simp_all add: example_run_assumptions)

end
