(* ===== verification/Wire_Pins.thy ===== *)
theory Wire_Pins
  imports Pea_Examples
begin

section \<open>The pinned wire format\<close>

text \<open>
  The fixtures under \<^verbatim>\<open>crates/ciel-signer/fixtures\<close> and the code of \<^verbatim>\<open>attestation.rs\<close> that ties them to
  the payload types: the reading of the JSON manifest, the comparisons with the committed files in
  both directions, and the tool that regenerates the files. A failed assertion or \<^verbatim>\<open>unwrap\<close> is \<open>False\<close>
  or \<open>None\<close>. Shown: what the comparisons decide for any manifest and any files, and that the
  committed manifest and bytes agree with each other and with the published BLOCK example.
\<close>

subsection \<open>Reading the manifest\<close>

definition hex_to_bytes :: "string \<Rightarrow> bytes option" where
  "hex_to_bytes hex =
     (if odd (length hex) then None
      else those (map (\<lambda>i. case sig_byte hex i of Some (Inr b) \<Rightarrow> Some b | _ \<Rightarrow> None) [0..<length hex div 2]))"

definition hex_to_array :: "nat \<Rightarrow> string \<Rightarrow> bytes option" where
  "hex_to_array n hex = Option.bind (hex_to_bytes hex) (\<lambda>v. if length v = n then Some v else None)"

definition array_field :: "nat \<Rightarrow> json \<Rightarrow> string \<Rightarrow> bytes option" where
  "array_field n f k = Option.bind (json_as_str (json_index f k)) (hex_to_array n)"

definition uint_field :: "json \<Rightarrow> string \<Rightarrow> nat option" where
  "uint_field f k = json_as_u64 (json_index f k)"

definition ciel_attestation_v1_from_manifest :: "json \<Rightarrow> ciel_attestation option" where
  "ciel_attestation_v1_from_manifest manifest =
     (let f = json_index (json_index manifest ''ciel_attestation_v1'') ''fields''
      in Option.bind (array_field 4 f ''magic'') (\<lambda>mg.
         Option.bind (uint_field f ''version'') (\<lambda>vn.
         Option.bind (array_field 32 f ''tx_hash'') (\<lambda>txh.
         Option.bind (uint_field f ''verdict'') (\<lambda>vd.
         Option.bind (uint_field f ''safety_score'') (\<lambda>ss.
         Option.bind (uint_field f ''optimality_score'') (\<lambda>os.
         Option.bind (array_field 32 f ''checker_outputs_hash'') (\<lambda>oh.
         Option.bind (uint_field f ''slot'') (\<lambda>sl.
         Option.bind (uint_field f ''expiry_slot'') (\<lambda>ex.
         Option.bind (array_field 32 f ''signer'') (\<lambda>sk.
         Option.bind (json_as_i64 (json_index f ''timestamp'')) (\<lambda>ts.
         Option.bind (uint_field f ''timeout_at_ms'') (\<lambda>tms.
         Some \<lparr>magic = mg, version = of_nat vn, tx_hash = txh, att_verdict = of_nat vd,
               safety_score = of_nat ss, optimality_score = of_nat os, checker_outputs_hash_field = oh,
               slot = of_nat sl, expiry_slot = of_nat ex, signer = sk, timestamp = ts,
               timeout_at_ms = of_nat tms\<rparr>)))))))))))))"

definition policy_attestation_v1_from_manifest :: "json \<Rightarrow> policy_attestation option" where
  "policy_attestation_v1_from_manifest manifest =
     (let f = json_index (json_index manifest ''policy_attestation_v1'') ''fields''
      in Option.bind (array_field 4 f ''magic'') (\<lambda>mg.
         Option.bind (uint_field f ''version'') (\<lambda>vn.
         Option.bind (array_field 32 f ''policy_hash'') (\<lambda>ph.
         Option.bind (array_field 32 f ''signer'') (\<lambda>sk.
         Option.bind (uint_field f ''issued_slot'') (\<lambda>sl.
         Option.bind (json_as_i64 (json_index f ''expires_at'')) (\<lambda>ex.
         Option.bind (json_as_bool (json_index f ''revoked'')) (\<lambda>rv.
         Some \<lparr>pol_magic = mg, pol_version = of_nat vn, policy_hash = ph, pol_signer = sk,
               issued_slot = of_nat sl, expires_at = ex, revoked = rv\<rparr>))))))))"

definition override_attestation_v1_from_manifest :: "json \<Rightarrow> override_attestation option" where
  "override_attestation_v1_from_manifest manifest =
     (let f = json_index (json_index manifest ''override_attestation_v1'') ''fields''
      in Option.bind (array_field 4 f ''magic'') (\<lambda>mg.
         Option.bind (uint_field f ''version'') (\<lambda>vn.
         Option.bind (array_field 32 f ''original_attestation_hash'') (\<lambda>h.
         Option.bind (uint_field f ''override_type'') (\<lambda>ot.
         Option.bind (array_field 32 f ''overrider'') (\<lambda>who.
         Option.bind (uint_field f ''slot'') (\<lambda>sl.
         Option.bind (json_as_i64 (json_index f ''timestamp'')) (\<lambda>ts.
         Some \<lparr>ovr_magic = mg, ovr_version = of_nat vn, original_attestation_hash = h,
               override_type = of_nat ot, overrider = who, ovr_slot = of_nat sl, ovr_timestamp = ts\<rparr>))))))))"

subsection \<open>The comparisons\<close>

text \<open>The fixture directory; a missing file fails the test that reads it.\<close>

type_synonym fixture_files = "(string, bytes) hashmap"

definition fixture_pinned ::
    "(json \<Rightarrow> 'a option) \<Rightarrow> ('a \<Rightarrow> bytes) \<Rightarrow> nat \<Rightarrow> string \<Rightarrow> json \<Rightarrow> fixture_files \<Rightarrow> bool" where
  "fixture_pinned from_manifest enc n file manifest d =
     (case from_manifest manifest of
        None \<Rightarrow> False
      | Some a \<Rightarrow> length (enc a) = n \<and> hm_get d file = Some (enc a))"

definition fixture_reread ::
    "(json \<Rightarrow> 'a option) \<Rightarrow> ('a \<Rightarrow> bytes) \<Rightarrow> 'a reader \<Rightarrow> string \<Rightarrow> json \<Rightarrow> fixture_files \<Rightarrow> bool" where
  "fixture_reread from_manifest enc dec file manifest d =
     (case hm_get d file of
        None \<Rightarrow> False
      | Some original \<Rightarrow>
          (case try_from_slice dec original of
             Inl e \<Rightarrow> False
           | Inr decoded \<Rightarrow> original = enc decoded \<and> from_manifest manifest = Some decoded))"

definition test_ciel_attestation_wire_fixture_v1 :: "json \<Rightarrow> fixture_files \<Rightarrow> bool" where
  "test_ciel_attestation_wire_fixture_v1 =
     fixture_pinned ciel_attestation_v1_from_manifest encode_attestation 132 ''ciel_attestation_v1.bin''"

definition test_policy_attestation_wire_fixture_v1 :: "json \<Rightarrow> fixture_files \<Rightarrow> bool" where
  "test_policy_attestation_wire_fixture_v1 =
     fixture_pinned policy_attestation_v1_from_manifest encode_policy 86 ''policy_attestation_v1.bin''"

definition test_override_attestation_wire_fixture_v1 :: "json \<Rightarrow> fixture_files \<Rightarrow> bool" where
  "test_override_attestation_wire_fixture_v1 =
     fixture_pinned override_attestation_v1_from_manifest encode_override 86 ''override_attestation_v1.bin''"

definition test_ciel_attestation_wire_fixture_v1_roundtrip :: "json \<Rightarrow> fixture_files \<Rightarrow> bool" where
  "test_ciel_attestation_wire_fixture_v1_roundtrip =
     fixture_reread ciel_attestation_v1_from_manifest encode_attestation decode_attestation ''ciel_attestation_v1.bin''"

definition test_policy_attestation_wire_fixture_v1_roundtrip :: "json \<Rightarrow> fixture_files \<Rightarrow> bool" where
  "test_policy_attestation_wire_fixture_v1_roundtrip =
     fixture_reread policy_attestation_v1_from_manifest encode_policy decode_policy ''policy_attestation_v1.bin''"

definition test_override_attestation_wire_fixture_v1_roundtrip :: "json \<Rightarrow> fixture_files \<Rightarrow> bool" where
  "test_override_attestation_wire_fixture_v1_roundtrip =
     fixture_reread override_attestation_v1_from_manifest encode_override decode_override ''override_attestation_v1.bin''"

definition write_attestation_v1_fixtures :: "json \<Rightarrow> fixture_files \<Rightarrow> fixture_files option" where
  "write_attestation_v1_fixtures manifest d =
     Option.bind (ciel_attestation_v1_from_manifest manifest) (\<lambda>ciel.
     Option.bind (policy_attestation_v1_from_manifest manifest) (\<lambda>pol.
     Option.bind (override_attestation_v1_from_manifest manifest) (\<lambda>ovr.
     Some (hm_insert ''override_attestation_v1.bin'' (encode_override ovr)
       (hm_insert ''policy_attestation_v1.bin'' (encode_policy pol)
       (hm_insert ''ciel_attestation_v1.bin'' (encode_attestation ciel) d))))))"

subsection \<open>The committed fixtures\<close>

text \<open>The manifest, less the member that documents it.\<close>

definition attestation_fixtures :: json where
  "attestation_fixtures =
     json_obj
       [(''ciel_attestation_v1'', json_obj
          [(''_size_bytes'', JU64 132), (''_fixture_file'', JStr ''ciel_attestation_v1.bin''),
           (''_spec_section'', JStr ''7.1''),
           (''fields'', json_obj
             [(''magic'', JStr ''4349454c''), (''version'', JU64 1),
              (''tx_hash'', JStr ''0102030405060708090a0b0c0d0e0f101112131415161718191a1b1c1d1e1f20''),
              (''verdict'', JU64 2), (''safety_score'', JU64 3500), (''optimality_score'', JU64 0),
              (''checker_outputs_hash'', JStr ''2122232425262728292a2b2c2d2e2f303132333435363738393a3b3c3d3e3f40''),
              (''slot'', JU64 350000000), (''expiry_slot'', JU64 350000002),
              (''signer'', JStr ''4142434445464748494a4b4c4d4e4f505152535455565758595a5b5c5d5e5f60''),
              (''timestamp'', JU64 1712000000), (''timeout_at_ms'', JU64 0)])]),
        (''policy_attestation_v1'', json_obj
          [(''_size_bytes'', JU64 86), (''_fixture_file'', JStr ''policy_attestation_v1.bin''),
           (''_spec_section'', JStr ''7.5''),
           (''fields'', json_obj
             [(''magic'', JStr ''43494c50''), (''version'', JU64 1),
              (''policy_hash'', JStr ''7172737475767778797a7b7c7d7e7f808182838485868788898a8b8c8d8e8f90''),
              (''signer'', JStr ''9192939495969798999a9b9c9d9e9fa0a1a2a3a4a5a6a7a8a9aaabacadaeafb0''),
              (''issued_slot'', JU64 360000000), (''expires_at'', JU64 1712001000), (''revoked'', JBool False)])]),
        (''override_attestation_v1'', json_obj
          [(''_size_bytes'', JU64 86), (''_fixture_file'', JStr ''override_attestation_v1.bin''),
           (''_spec_section'', JStr ''7.7''),
           (''fields'', json_obj
             [(''magic'', JStr ''434c4f56''), (''version'', JU64 1),
              (''original_attestation_hash'', JStr ''c1c2c3c4c5c6c7c8c9cacbcccdcecfd0d1d2d3d4d5d6d7d8d9dadbdcdddedfe0''),
              (''override_type'', JU64 0),
              (''overrider'', JStr ''8182838485868788898a8b8c8d8e8f909192939495969798999a9b9c9d9e9fa0''),
              (''slot'', JU64 370000000), (''timestamp'', JU64 1712002000)])])]"

text \<open>The contents of the three files.\<close>

definition ciel_v1_bin :: bytes where
  "ciel_v1_bin =
     [0x43, 0x49, 0x45, 0x4c, 0x01, 0x01, 0x02, 0x03, 0x04, 0x05, 0x06, 0x07, 0x08, 0x09, 0x0a, 0x0b,
      0x0c, 0x0d, 0x0e, 0x0f, 0x10, 0x11, 0x12, 0x13, 0x14, 0x15, 0x16, 0x17, 0x18, 0x19, 0x1a, 0x1b,
      0x1c, 0x1d, 0x1e, 0x1f, 0x20, 0x02, 0xac, 0x0d, 0x00, 0x00, 0x21, 0x22, 0x23, 0x24, 0x25, 0x26,
      0x27, 0x28, 0x29, 0x2a, 0x2b, 0x2c, 0x2d, 0x2e, 0x2f, 0x30, 0x31, 0x32, 0x33, 0x34, 0x35, 0x36,
      0x37, 0x38, 0x39, 0x3a, 0x3b, 0x3c, 0x3d, 0x3e, 0x3f, 0x40, 0x80, 0x93, 0xdc, 0x14, 0x00, 0x00,
      0x00, 0x00, 0x82, 0x93, 0xdc, 0x14, 0x00, 0x00, 0x00, 0x00, 0x41, 0x42, 0x43, 0x44, 0x45, 0x46,
      0x47, 0x48, 0x49, 0x4a, 0x4b, 0x4c, 0x4d, 0x4e, 0x4f, 0x50, 0x51, 0x52, 0x53, 0x54, 0x55, 0x56,
      0x57, 0x58, 0x59, 0x5a, 0x5b, 0x5c, 0x5d, 0x5e, 0x5f, 0x60, 0x00, 0x0c, 0x0b, 0x66, 0x00, 0x00,
      0x00, 0x00, 0x00, 0x00]"

definition policy_v1_bin :: bytes where
  "policy_v1_bin =
     [0x43, 0x49, 0x4c, 0x50, 0x01, 0x71, 0x72, 0x73, 0x74, 0x75, 0x76, 0x77, 0x78, 0x79, 0x7a, 0x7b,
      0x7c, 0x7d, 0x7e, 0x7f, 0x80, 0x81, 0x82, 0x83, 0x84, 0x85, 0x86, 0x87, 0x88, 0x89, 0x8a, 0x8b,
      0x8c, 0x8d, 0x8e, 0x8f, 0x90, 0x91, 0x92, 0x93, 0x94, 0x95, 0x96, 0x97, 0x98, 0x99, 0x9a, 0x9b,
      0x9c, 0x9d, 0x9e, 0x9f, 0xa0, 0xa1, 0xa2, 0xa3, 0xa4, 0xa5, 0xa6, 0xa7, 0xa8, 0xa9, 0xaa, 0xab,
      0xac, 0xad, 0xae, 0xaf, 0xb0, 0x00, 0x2a, 0x75, 0x15, 0x00, 0x00, 0x00, 0x00, 0xe8, 0x0f, 0x0b,
      0x66, 0x00, 0x00, 0x00, 0x00, 0x00]"

definition override_v1_bin :: bytes where
  "override_v1_bin =
     [0x43, 0x4c, 0x4f, 0x56, 0x01, 0xc1, 0xc2, 0xc3, 0xc4, 0xc5, 0xc6, 0xc7, 0xc8, 0xc9, 0xca, 0xcb,
      0xcc, 0xcd, 0xce, 0xcf, 0xd0, 0xd1, 0xd2, 0xd3, 0xd4, 0xd5, 0xd6, 0xd7, 0xd8, 0xd9, 0xda, 0xdb,
      0xdc, 0xdd, 0xde, 0xdf, 0xe0, 0x00, 0x81, 0x82, 0x83, 0x84, 0x85, 0x86, 0x87, 0x88, 0x89, 0x8a,
      0x8b, 0x8c, 0x8d, 0x8e, 0x8f, 0x90, 0x91, 0x92, 0x93, 0x94, 0x95, 0x96, 0x97, 0x98, 0x99, 0x9a,
      0x9b, 0x9c, 0x9d, 0x9e, 0x9f, 0xa0, 0x80, 0xc0, 0x0d, 0x16, 0x00, 0x00, 0x00, 0x00, 0xd0, 0x13,
      0x0b, 0x66, 0x00, 0x00, 0x00, 0x00]"

definition committed_fixtures :: fixture_files where
  "committed_fixtures =
     [(''ciel_attestation_v1.bin'', ciel_v1_bin), (''policy_attestation_v1.bin'', policy_v1_bin),
      (''override_attestation_v1.bin'', override_v1_bin)]"

text \<open>The sample payloads of the hard-coded comparisons and the bytes they are compared with.\<close>

definition sample_ciel_attestation :: ciel_attestation where
  "sample_ciel_attestation =
     attestation_new (replicate 32 0xAA) Approve 9500 8000 (replicate 32 0xBB) 100 (replicate 32 0xCC) 1700000000 0"

definition sample_policy_attestation :: policy_attestation where
  "sample_policy_attestation = policy_new (replicate 32 0xDD) (replicate 32 0xEE) 200 1700100000"

definition sample_override_attestation :: override_attestation where
  "sample_override_attestation = override_new (replicate 32 0xFF) 0 (replicate 32 0x11) 300 1700200000"

definition expected_ciel :: bytes where
  "expected_ciel =
     [0x43, 0x49, 0x45, 0x4C] @ [0x01] @ replicate 32 0xAA @ [0x00] @ [0x1C, 0x25] @ [0x40, 0x1F] @ replicate 32 0xBB @
     [0x64, 0x00, 0x00, 0x00, 0x00, 0x00, 0x00, 0x00] @ [0x66, 0x00, 0x00, 0x00, 0x00, 0x00, 0x00, 0x00] @
     replicate 32 0xCC @ [0x00, 0xF1, 0x53, 0x65, 0x00, 0x00, 0x00, 0x00] @ [0x00, 0x00]"

definition expected_policy :: bytes where
  "expected_policy =
     [0x43, 0x49, 0x4C, 0x50] @ [0x01] @ replicate 32 0xDD @ replicate 32 0xEE @
     [0xC8, 0x00, 0x00, 0x00, 0x00, 0x00, 0x00, 0x00] @ [0xA0, 0x77, 0x55, 0x65, 0x00, 0x00, 0x00, 0x00] @ [0x00]"

definition test_ciel_attestation_wire_fixture :: bool where
  "test_ciel_attestation_wire_fixture \<longleftrightarrow> encode_attestation sample_ciel_attestation = expected_ciel"

definition test_policy_attestation_wire_fixture :: bool where
  "test_policy_attestation_wire_fixture \<longleftrightarrow> encode_policy sample_policy_attestation = expected_policy"

definition test_magic_bytes_in_serialized_output :: bool where
  "test_magic_bytes_in_serialized_output \<longleftrightarrow>
     take 4 (encode_attestation sample_ciel_attestation) = CIEL_ATTESTATION_MAGIC \<and>
     take 4 (encode_policy sample_policy_attestation) = POLICY_ATTESTATION_MAGIC \<and>
     take 4 (encode_override sample_override_attestation) = OVERRIDE_ATTESTATION_MAGIC"

subsection \<open>What the comparisons decide\<close>

text \<open>What a payload type offers the fixture code: a manifest only yields well-formed payloads, of one
  size, and the codec reads them back.\<close>

locale pinned_payload = codec +
  fixes from_manifest :: "json \<Rightarrow> 'a option" and len :: nat
  assumes manifest_ok: "from_manifest m = Some a \<Longrightarrow> ok a"
    and size_enc: "ok a \<Longrightarrow> length (enc a) = len"
begin

lemma pinned_iff:
  "fixture_pinned from_manifest enc len file m d \<longleftrightarrow>
     (\<exists>a. from_manifest m = Some a \<and> hm_get d file = Some (enc a))"
  using manifest_ok size_enc by (auto simp: fixture_pinned_def split: option.splits)

lemma reread_iff:
  "fixture_reread from_manifest enc dec file m d \<longleftrightarrow>
     (\<exists>a. from_manifest m = Some a \<and> hm_get d file = Some (enc a))"
  using manifest_ok
  by (auto simp: fixture_reread_def from_slice_iff split: option.splits sum.splits)
    (metis from_slice_iff sum.distinct(1), metis from_slice_iff sum.inject(2))

end

lemma array_field_length: "array_field n f k = Some bs \<Longrightarrow> length bs = n"
  by (auto simp: array_field_def hex_to_array_def bind_eq_Some_conv split: if_splits)

interpretation att_pin: pinned_payload attestation_wf encode_attestation decode_attestation ciel_attestation_v1_from_manifest 132
  by unfold_locales
    (auto simp: ciel_attestation_v1_from_manifest_def Let_def bind_eq_Some_conv attestation_wf_def length_encode
      dest: array_field_length)

interpretation pol_pin: pinned_payload policy_wf encode_policy decode_policy policy_attestation_v1_from_manifest 86
  by unfold_locales
    (auto simp: policy_attestation_v1_from_manifest_def Let_def bind_eq_Some_conv policy_wf_def length_encode
      dest: array_field_length)

interpretation ovr_pin: pinned_payload override_wf encode_override decode_override override_attestation_v1_from_manifest 86
  by unfold_locales
    (auto simp: override_attestation_v1_from_manifest_def Let_def bind_eq_Some_conv override_wf_def length_encode
      dest: array_field_length)

definition wire_tests_pass :: "json \<Rightarrow> fixture_files \<Rightarrow> bool" where
  "wire_tests_pass m d \<longleftrightarrow>
     test_ciel_attestation_wire_fixture_v1 m d \<and> test_ciel_attestation_wire_fixture_v1_roundtrip m d \<and>
     test_policy_attestation_wire_fixture_v1 m d \<and> test_policy_attestation_wire_fixture_v1_roundtrip m d \<and>
     test_override_attestation_wire_fixture_v1 m d \<and> test_override_attestation_wire_fixture_v1_roundtrip m d"

lemmas wire_test_defs =
  test_ciel_attestation_wire_fixture_v1_def test_ciel_attestation_wire_fixture_v1_roundtrip_def
  test_policy_attestation_wire_fixture_v1_def test_policy_attestation_wire_fixture_v1_roundtrip_def
  test_override_attestation_wire_fixture_v1_def test_override_attestation_wire_fixture_v1_roundtrip_def

lemma wire_tests_iff:
  "wire_tests_pass m d \<longleftrightarrow>
     (\<exists>a p v. ciel_attestation_v1_from_manifest m = Some a \<and> policy_attestation_v1_from_manifest m = Some p \<and>
        override_attestation_v1_from_manifest m = Some v \<and>
        hm_get d ''ciel_attestation_v1.bin'' = Some (encode_attestation a) \<and>
        hm_get d ''policy_attestation_v1.bin'' = Some (encode_policy p) \<and>
        hm_get d ''override_attestation_v1.bin'' = Some (encode_override v))"
  unfolding wire_tests_pass_def wire_test_defs att_pin.pinned_iff att_pin.reread_iff pol_pin.pinned_iff
    pol_pin.reread_iff ovr_pin.pinned_iff ovr_pin.reread_iff by blast

lemma written_fixtures_pass: "write_attestation_v1_fixtures m d = Some d' \<Longrightarrow> wire_tests_pass m d'"
  unfolding wire_tests_iff write_attestation_v1_fixtures_def by (auto simp: bind_eq_Some_conv update_conv')

text \<open>The committed values, byte by byte.\<close>

lemma hex_to_array_hex_from: "length bs = n \<Longrightarrow> hex_to_array n (hex_from bs) = Some bs"
proof -
  have "those (map f is) = Some (map g is)" if "\<And>i. i \<in> set is \<Longrightarrow> f i = Some (g i)" for f :: "nat \<Rightarrow> u8 option" and g "is"
    using that by (induction "is") simp_all
  from this [of "[0..<length bs]" _ "(!) bs"] have "hex_to_bytes (hex_from bs) = Some bs"
    by (simp add: hex_to_bytes_def sig_byte_hex map_nth)
  then show "length bs = n \<Longrightarrow> hex_to_array n (hex_from bs) = Some bs" by (simp add: hex_to_array_def)
qed

lemma array_field_hex:
  assumes "json_get f k = Some (JStr s)" "s = hex_from bs" "length bs = n"
  shows "array_field n f k = Some bs"
  using assms by (simp add: array_field_def json_index_def hex_to_array_hex_from)

lemma hex_digit_table:
  "hex_digit 0 = CHR ''0''"
  "hex_digit (Suc 0) = CHR ''1''"
  "hex_digit 2 = CHR ''2''"
  "hex_digit 3 = CHR ''3''"
  "hex_digit 4 = CHR ''4''"
  "hex_digit 5 = CHR ''5''"
  "hex_digit 6 = CHR ''6''"
  "hex_digit 7 = CHR ''7''"
  "hex_digit 8 = CHR ''8''"
  "hex_digit 9 = CHR ''9''"
  "hex_digit 10 = CHR ''a''"
  "hex_digit 11 = CHR ''b''"
  "hex_digit 12 = CHR ''c''"
  "hex_digit 13 = CHR ''d''"
  "hex_digit 14 = CHR ''e''"
  "hex_digit 15 = CHR ''f''"
  by code_simp+

lemma hex_texts:
  "''0102030405060708090a0b0c0d0e0f101112131415161718191a1b1c1d1e1f20'' = hex_from (bytes32_from_pattern 0x01)"
  "''2122232425262728292a2b2c2d2e2f303132333435363738393a3b3c3d3e3f40'' = hex_from (bytes32_from_pattern 0x21)"
  "''4142434445464748494a4b4c4d4e4f505152535455565758595a5b5c5d5e5f60'' = hex_from (bytes32_from_pattern 0x41)"
  "''7172737475767778797a7b7c7d7e7f808182838485868788898a8b8c8d8e8f90'' = hex_from (bytes32_from_pattern 0x71)"
  "''9192939495969798999a9b9c9d9e9fa0a1a2a3a4a5a6a7a8a9aaabacadaeafb0'' = hex_from (bytes32_from_pattern 0x91)"
  "''c1c2c3c4c5c6c7c8c9cacbcccdcecfd0d1d2d3d4d5d6d7d8d9dadbdcdddedfe0'' = hex_from (bytes32_from_pattern 0xc1)"
  "''8182838485868788898a8b8c8d8e8f909192939495969798999a9b9c9d9e9fa0'' = hex_from (bytes32_from_pattern 0x81)"
  "''4349454c'' = hex_from CIEL_ATTESTATION_MAGIC" "''43494c50'' = hex_from POLICY_ATTESTATION_MAGIC"
  "''434c4f56'' = hex_from OVERRIDE_ATTESTATION_MAGIC"
  by (simp_all add: hex_from_def hex_byte_def hex_digit_table bytes32_from_pattern_def upt_rec CIEL_ATTESTATION_MAGIC_def
      POLICY_ATTESTATION_MAGIC_def OVERRIDE_ATTESTATION_MAGIC_def)

lemma length_pattern [simp]: "length (bytes32_from_pattern p) = 32"
  by (simp add: bytes32_from_pattern_def)

lemma length_magics [simp]:
  "length CIEL_ATTESTATION_MAGIC = 4" "length POLICY_ATTESTATION_MAGIC = 4" "length OVERRIDE_ATTESTATION_MAGIC = 4"
  by (simp_all add: CIEL_ATTESTATION_MAGIC_def POLICY_ATTESTATION_MAGIC_def OVERRIDE_ATTESTATION_MAGIC_def)

lemma committed_manifest:
  "ciel_attestation_v1_from_manifest attestation_fixtures =
     Some (attestation_new (bytes32_from_pattern 0x01) Block 3500 0 (bytes32_from_pattern 0x21) 350000000
       (bytes32_from_pattern 0x41) 1712000000 0)"
  "policy_attestation_v1_from_manifest attestation_fixtures =
     Some (policy_new (bytes32_from_pattern 0x71) (bytes32_from_pattern 0x91) 360000000 1712001000)"
  "override_attestation_v1_from_manifest attestation_fixtures =
     Some (override_new (bytes32_from_pattern 0xc1) 0 (bytes32_from_pattern 0x81) 370000000 1712002000)"
proof -
  note evals = attestation_fixtures_def array_field_def uint_field_def json_index_def hex_texts hex_to_array_hex_from
    ATTESTATION_VERSION_def EXPIRY_SLOTS_def Let_def
  show "ciel_attestation_v1_from_manifest attestation_fixtures =
     Some (attestation_new (bytes32_from_pattern 0x01) Block 3500 0 (bytes32_from_pattern 0x21) 350000000
       (bytes32_from_pattern 0x41) 1712000000 0)"
    by (simp add: ciel_attestation_v1_from_manifest_def attestation_new_def evals)
  show "policy_attestation_v1_from_manifest attestation_fixtures =
     Some (policy_new (bytes32_from_pattern 0x71) (bytes32_from_pattern 0x91) 360000000 1712001000)"
    by (simp add: policy_attestation_v1_from_manifest_def policy_new_def evals)
  show "override_attestation_v1_from_manifest attestation_fixtures =
     Some (override_new (bytes32_from_pattern 0xc1) 0 (bytes32_from_pattern 0x81) 370000000 1712002000)"
    by (simp add: override_attestation_v1_from_manifest_def override_new_def evals)
qed

lemma le_bytes_numeral: "le_bytes (numeral k) n = of_nat (n mod 256) # le_bytes (pred_numeral k) (n div 256)"
  by (subst numeral_eq_Suc [of k]) simp

lemmas bytes_eval = encode_defs le_bytes_numeral bytes32_from_pattern_def upt_rec ATTESTATION_VERSION_def EXPIRY_SLOTS_def
  CIEL_ATTESTATION_MAGIC_def POLICY_ATTESTATION_MAGIC_def OVERRIDE_ATTESTATION_MAGIC_def

lemma committed_bytes:
  "encode_attestation (attestation_new (bytes32_from_pattern 0x01) Block 3500 0 (bytes32_from_pattern 0x21) 350000000
     (bytes32_from_pattern 0x41) 1712000000 0) = ciel_v1_bin"
  "encode_policy (policy_new (bytes32_from_pattern 0x71) (bytes32_from_pattern 0x91) 360000000 1712001000) = policy_v1_bin"
  "encode_override (override_new (bytes32_from_pattern 0xc1) 0 (bytes32_from_pattern 0x81) 370000000 1712002000) = override_v1_bin"
  by (simp_all add: bytes_eval attestation_new_def policy_new_def override_new_def ciel_v1_bin_def policy_v1_bin_def override_v1_bin_def)

lemma block_example_bytes:
  "encode_attestation (example_attestation pk (block_example b)) = take 90 ciel_v1_bin @ pk @ drop 122 ciel_v1_bin"
  by (simp add: bytes_eval example_attestation_def block_example_def attestation_new_def ciel_v1_bin_def)

lemma sample_bytes:
  "test_ciel_attestation_wire_fixture" "test_policy_attestation_wire_fixture" "test_magic_bytes_in_serialized_output"
  unfolding test_ciel_attestation_wire_fixture_def test_policy_attestation_wire_fixture_def
    test_magic_bytes_in_serialized_output_def
  by (simp_all add: bytes_eval sample_ciel_attestation_def sample_policy_attestation_def sample_override_attestation_def
      attestation_new_def policy_new_def override_new_def expected_ciel_def expected_policy_def)

text \<open>C20: The wire format is pinned. For any manifest and any files the six comparisons pass together
  exactly if the manifest reads as one payload of each kind and each file holds the bytes of its
  payload, and they pass on what the regeneration writes. They pass on the committed manifest and
  files, which regeneration leaves as they are, and so do the comparisons of the sample payloads with
  hard-coded bytes. The published BLOCK example has the bytes of the committed attestation except
  for the 32 bytes of the signer.\<close>

theorem wire_format_pinned:
  "(wire_tests_pass m d \<longleftrightarrow>
     (\<exists>a p v. ciel_attestation_v1_from_manifest m = Some a \<and> policy_attestation_v1_from_manifest m = Some p \<and>
        override_attestation_v1_from_manifest m = Some v \<and>
        hm_get d ''ciel_attestation_v1.bin'' = Some (encode_attestation a) \<and>
        hm_get d ''policy_attestation_v1.bin'' = Some (encode_policy p) \<and>
        hm_get d ''override_attestation_v1.bin'' = Some (encode_override v))) \<and>
   (\<forall>d'. write_attestation_v1_fixtures m d = Some d' \<longrightarrow> wire_tests_pass m d') \<and>
   wire_tests_pass attestation_fixtures committed_fixtures \<and>
   write_attestation_v1_fixtures attestation_fixtures committed_fixtures = Some committed_fixtures \<and>
   test_ciel_attestation_wire_fixture \<and> test_policy_attestation_wire_fixture \<and> test_magic_bytes_in_serialized_output \<and>
   encode_attestation (example_attestation pk (block_example b)) = take 90 ciel_v1_bin @ pk @ drop 122 ciel_v1_bin"
proof -
  have "wire_tests_pass attestation_fixtures committed_fixtures"
    "write_attestation_v1_fixtures attestation_fixtures committed_fixtures = Some committed_fixtures"
    by (simp_all add: wire_tests_iff write_attestation_v1_fixtures_def committed_manifest committed_bytes committed_fixtures_def)
  then show ?thesis
    using wire_tests_iff [of m d] written_fixtures_pass [of m d] sample_bytes block_example_bytes [of pk b]
    by (intro conjI allI impI) assumption+
qed

theorem wire_format_pinned_witness:
  "\<exists>d'. write_attestation_v1_fixtures attestation_fixtures [] = Some d' \<and> wire_tests_pass attestation_fixtures d'"
proof -
  obtain d' where d': "write_attestation_v1_fixtures attestation_fixtures [] = Some d'"
    by (simp add: write_attestation_v1_fixtures_def committed_manifest)
  with wire_format_pinned [of attestation_fixtures "[]"] show ?thesis by blast
qed

end
