(* ===== verification/Fixture_Tool.thy ===== *)
theory Fixture_Tool
  imports Drift_Fixture Server
begin

section \<open>Feeding a fixture to the server\<close>

text \<open>
  \<^verbatim>\<open>crates/ciel-server/src/tx_from_fixture.rs\<close>: the command that prints the transaction of a fixture
  file for use in a request. The arguments, the files and the JSON parser are parameters; what the
  process leaves behind is its exit code and its two output streams. Shown: when it succeeds, and
  that its output, posted to the server, is evaluated as the transaction of the fixture.
\<close>

record process_exit =
  exit_code :: nat
  stdout :: string
  stderr :: string

text \<open>
  The derived reader of a struct with the one member \<open>data\<close>: an object, whose other members are
  ignored, or an array of the member alone. It reads the parsed value, in which a member that the text
  repeats, an error of the derived reader, is no longer visible.
\<close>

fun tx_data :: "json \<Rightarrow> string option" where
  "tx_data (JObj m) = Option.bind (map_of m ''data'') json_as_str"
| "tx_data (JArr vs) = (case vs of [v] \<Rightarrow> json_as_str v | _ \<Rightarrow> None)"
| "tx_data v = None"

definition exit_with :: "string \<Rightarrow> process_exit" where
  "exit_with msg = \<lparr>exit_code = 1, stdout = [], stderr = msg @ [CHR 0x0A]\<rparr>"

text \<open>The parser gives a value or the text of its error; \<open>shape_error\<close> is the text for a value of another shape.\<close>

definition tx_from_fixture ::
    "(string \<Rightarrow> (string, string) result) \<Rightarrow> (string \<Rightarrow> (string, json) result) \<Rightarrow> string \<Rightarrow> string list \<Rightarrow> process_exit" where
  "tx_from_fixture read_to_string parse shape_error args =
     (case args of
        [prog, path] \<Rightarrow>
          (case read_to_string path of
             Inl e \<Rightarrow> exit_with (''Failed to read '' @ path @ '': '' @ e)
           | Inr text \<Rightarrow>
               (case bind_result (parse text) (\<lambda>v. ok_or shape_error (tx_data v)) of
                  Inl e \<Rightarrow> exit_with (''Failed to parse JSON: '' @ e)
                | Inr d \<Rightarrow> \<lparr>exit_code = 0, stdout = d, stderr = []\<rparr>))
      | _ \<Rightarrow> exit_with ''Usage: tx-from-fixture <path-to-transaction.json>'')"

subsection \<open>When it succeeds\<close>

lemma tx_from_fixture_success:
  "exit_code (tx_from_fixture rd parse se args) = 0 \<longleftrightarrow>
     (\<exists>prog path text v d. args = [prog, path] \<and> rd path = Inr text \<and> parse text = Inr v \<and> tx_data v = Some d \<and>
        tx_from_fixture rd parse se args = \<lparr>exit_code = 0, stdout = d, stderr = []\<rparr>)"
  by (auto simp: tx_from_fixture_def exit_with_def bind_result_Inr split: list.splits sum.splits option.splits)

lemma tx_data_tx_json: "tx_data (tx_json t) = Some (st_data t)"
  by (simp add: tx_json_def json_obj_def lookup_bt_collect)

lemma written_transaction_file:
  assumes "write_fixture_to_disk X fault fx dir = (dir', Inr ())"
  obtains bs where "bincode_ser X (fx_transaction fx) = Inr bs"
    "hm_get dir' ''transaction.json'' =
       Some (to_string_pretty X (tx_json \<lparr>st_encoding = ''base64+bincode'', st_data = b64_encode (fx_codecs X) bs\<rparr>))"
proof -
  obtain bs where bs: "bincode_ser X (fx_transaction fx) = Inr bs"
    using assms by (auto simp: write_fixture_to_disk_def split: option.splits sum.splits)
  show ?thesis
    by (rule that [OF bs])
      (use assms bs in \<open>auto simp: write_fixture_to_disk_def write_file_def update_conv' split: option.splits\<close>)
qed

text \<open>The files of a fixture directory, as the command reads them.\<close>

definition read_in :: "directory \<Rightarrow> string \<Rightarrow> (string, string) result" where
  "read_in dir path = ok_or ''No such file or directory (os error 2)'' (hm_get dir path)"

text \<open>C35: A fixture reaches the pipeline unchanged. After a fixture has been written, the command run on its
  transaction file exits with code 0 and prints one text and no error; posted as the transaction of
  a request to a server with the same codecs, that text is neither a decoding error nor an invalid
  transaction: the handler answers with what the pipeline makes of exactly the fixture's
  transaction, and panics only if the evaluation does.\<close>

theorem fixture_feeds_server:
  assumes "env_roundtrips X" "write_fixture_to_disk X fault fx dir = (dir', Inr ())"
    and "run_codecs R = fx_codecs X" "tx_deserialize R = bincode_de X"
  shows "\<exists>t. tx_from_fixture (read_in dir') (from_str X) se [prog, ''transaction.json''] =
      \<lparr>exit_code = 0, stdout = t, stderr = []\<rparr> \<and>
    handle_verdict R rid \<lparr>req_tx = Some t, req_intent = None, req_nl_intent = None\<rparr> =
      (case run_evaluate R (fx_transaction fx) of
         None \<Rightarrow> None
       | Some (Inl e) \<Rightarrow> Some (Inl (PipelineErr e), no_effects)
       | Some (Inr (resp, lg)) \<Rightarrow>
           Some (Inr (pipeline_response_to_json (run_codecs R) resp),
             \<lparr>ef_metrics = record_verdict resp ''raw_tx'',
              ef_info = Some (verdict_info_of (case rid of None \<Rightarrow> ''unknown'' | Some i \<Rightarrow> i) resp), ef_log = lg\<rparr>))"
proof -
  obtain bs where bs: "bincode_ser X (fx_transaction fx) = Inr bs"
    and f: "hm_get dir' ''transaction.json'' =
       Some (to_string_pretty X (tx_json \<lparr>st_encoding = ''base64+bincode'', st_data = b64_encode (fx_codecs X) bs\<rparr>))"
    using written_transaction_file [OF assms(2)] by blast
  let ?t = "b64_encode (fx_codecs X) bs"
  have "from_str X (to_string_pretty X (tx_json v)) = Inr (tx_json v)" for v
    using assms(1) fixture_exact_text(1) by (simp add: env_roundtrips_def)
  then have "tx_from_fixture (read_in dir') (from_str X) se [prog, ''transaction.json''] =
      \<lparr>exit_code = 0, stdout = ?t, stderr = []\<rparr>"
    by (simp add: tx_from_fixture_def read_in_def f tx_data_tx_json)
  moreover have "b64_decode (fx_codecs X) ?t = Inr bs" "bincode_de X bs = Inr (fx_transaction fx)"
    using assms(1) bs by (auto simp: env_roundtrips_def codecs_roundtrip_def)
  ultimately show ?thesis
    by (intro exI [of _ ?t]) (simp add: handle_verdict_def Let_def assms(3,4))
qed

text \<open>The synthetic fixture before the demonstration server.\<close>

definition fixture_server_run :: "((pubkey, account) hashmap, transaction) run" where
  "fixture_server_run = demo_server_run\<lparr>run_codecs := fx_codecs demo_env, tx_deserialize := bincode_de demo_env\<rparr>"

theorem fixture_feeds_server_witness:
  "\<exists>dir' t. write_fixture_to_disk demo_env (\<lambda>f. None) (generate_drift_fixture demo_env) [] = (dir', Inr ()) \<and>
     tx_from_fixture (read_in dir') (from_str demo_env) [] [''tx-from-fixture'', ''transaction.json''] =
       \<lparr>exit_code = 0, stdout = t, stderr = []\<rparr> \<and>
     (handle_verdict fixture_server_run None \<lparr>req_tx = Some t, req_intent = None, req_nl_intent = None\<rparr> = None \<longleftrightarrow>
        run_evaluate fixture_server_run (drift_transaction demo_env) = None)"
proof -
  obtain dir' where d: "write_fixture_to_disk demo_env (\<lambda>f. None) (generate_drift_fixture demo_env) [] = (dir', Inr ())"
    using demo_env_serializes by (simp add: write_fixture_to_disk_def write_file_def generate_drift_fixture_def)
  have "run_codecs fixture_server_run = fx_codecs demo_env" "tx_deserialize fixture_server_run = bincode_de demo_env"
    by (simp_all add: fixture_server_run_def)
  from fixture_feeds_server [OF demo_env_ok(1) d this, of "[]" "''tx-from-fixture''" None] d show ?thesis
    by (auto simp: generate_drift_fixture_def split: option.splits sum.splits)
qed

end
