(* ===== verification/Test_Support.thy ===== *)
theory Test_Support
  imports Checker_Core
begin

section \<open>The test modules: shared helpers\<close>

text \<open>
  The \<^verbatim>\<open>mod tests\<close> of the repository use the same helpers: keys derived from seed texts (SHA-256 and
  Ed25519) or drawn from a counter, an empty trace, a context around a trace, comparison of floats
  within a tolerance. The keys are a parameter (\<open>test_keys\<close>); what the tests rely on is that the
  seeds they use and the keys one of them draws give different keys, none of which is a program the
  tests name (\<open>keys_apart\<close>).
  A test is a predicate that holds when none of its assertions fails; the theories \<open>Approval_Suite\<close>,
  \<open>Authority_Suite\<close>, \<open>Oracle_Suite\<close>, \<open>Intent_Suite\<close>, \<open>Goal_Suite\<close>, \<open>Feed_Suite\<close> and \<open>Core_Suite\<close> hold them.
  Left out are the five tests that compare two runs on the same input, which hold of every function
  (\<^verbatim>\<open>test_deterministic_output\<close>, twice, \<^verbatim>\<open>test_determinism_10_runs\<close>, \<^verbatim>\<open>test_determinism_same_input_two_runs\<close> and
  \<^verbatim>\<open>test_llm_availability_does_not_affect_output\<close>, whose other call is not part of the checker), and
  \<^verbatim>\<open>test_borsh_roundtrip_on_output\<close>, which the theorem of \<open>Checker_Wire\<close> generalises.
\<close>

record test_keys =
  deterministic_pubkey :: "string \<Rightarrow> pubkey"
  new_unique :: "nat \<Rightarrow> pubkey"

definition reserved_keys :: "pubkey list" where
  "reserved_keys =
     [SPL_TOKEN_PROGRAM_ID, SPL_TOKEN_2022_PROGRAM_ID, BPF_LOADER_UPGRADEABLE_PROGRAM_ID, DRIFT_V2_PROGRAM_ID,
      RAYDIUM_AMM_V4_PROGRAM_ID, JUPITER_V6_PROGRAM_ID, ORCA_WHIRLPOOL_PROGRAM_ID, SQUADS_V4_PROGRAM_ID, system_program_id]"

text \<open>The seed texts of the tests, and how many keys at most one test draws.\<close>

definition test_seeds :: "string list" where
  "test_seeds =
    [''ciel-drift-fixture-pyth-feed'', ''ciel-drift-fixture-switchboard-feed'', ''cpi-drainer'', ''cpi-owner'',
     ''cpi-source'', ''dlg'', ''dn-target'', ''drift-vault'', ''int-tgt'', ''kp-tgt'', ''malicious-drainer'',
     ''multi-delegate'', ''multi-owner'', ''multi-src-A'', ''multi-src-B'', ''multi-u-owner'', ''multi-u-srcA'',
     ''multi-u-srcB'', ''multi-u-srcC'', ''multi-u-unknownA'', ''multi-u-unknownB'', ''nested-target'',
     ''nt-delegate'', ''nt-owner'', ''nt-source'', ''rvk-before-delegate'', ''rvk-before-owner'',
     ''rvk-before-source'', ''rvk-owner'', ''rvk-source'', ''rvk-unknown-delegate'', ''shape-tgt'',
     ''some-random-program'', ''source-ata-1'', ''source-ata-2'', ''source-ata-3'', ''source-ata-ac'', ''src'',
     ''t22-drainer'', ''t22-mint'', ''t22-owner'', ''t22-source'', ''target-token-account'', ''tgt1'', ''tgt2'',
     ''unknown-delegate-limited'', ''unknown-drainer-ac'', ''usdc-mint'', ''user-wallet'']"

definition DRAWN :: nat where "DRAWN = 200"

definition keys_apart :: "test_keys \<Rightarrow> bool" where
  "keys_apart K \<longleftrightarrow> distinct (map (deterministic_pubkey K) test_seeds @ map (new_unique K) [0..<DRAWN] @ reserved_keys)"

definition empty_trace :: simulation_trace where
  "empty_trace =
     \<lparr>success = True, trace_error = None, balance_deltas = [], cpi_graph = [], account_changes = [], logs = [],
      oracle_reads = [], token_approvals = [], token_balance_deltas = [], compute_units_consumed = 0, fee = 5000\<rparr>"

definition trace_with_calls :: "cpi_call list \<Rightarrow> simulation_trace" where
  "trace_with_calls cs = empty_trace\<lparr>cpi_graph := cs\<rparr>"

text \<open>\<^verbatim>\<open>Transaction::new_unsigned(Message::new(&[], None))\<close>.\<close>

definition empty_tx :: transaction where
  "empty_tx =
     \<lparr>signatures = [], message_header = (0, 0, 0), account_keys = [], recent_blockhash = replicate 32 0, instructions = []\<rparr>"

definition ctx_with :: "simulation_trace \<Rightarrow> checker_context" where
  "ctx_with tr =
     \<lparr>ctx_trace = tr, original_tx = empty_tx, ctx_intent = None, ctx_slot = 350000000,
      ctx_oracle_cache = oracle_cache_default, known_programs = with_mainnet_defaults\<rparr>"

text \<open>\<^verbatim>\<open>v.flags[0]\<close>, which panics when there is no flag.\<close>

definition first_flag :: "checker_output \<Rightarrow> (flag \<Rightarrow> bool) \<Rightarrow> bool" where
  "first_flag out P = (case flags out of [] \<Rightarrow> False | f # fs \<Rightarrow> P f)"

subsection \<open>Rounded literals\<close>

text \<open>\<^verbatim>\<open>(score - v).abs() < eps\<close>, and \<^verbatim>\<open>f64::EPSILON\<close>.\<close>

definition EPSILON :: f64 where "EPSILON = Fin (pow2 (- 52))"

definition close_to :: "f64 \<Rightarrow> f64 \<Rightarrow> f64 \<Rightarrow> bool" where
  "close_to score v eps \<longleftrightarrow> f_lt (f_abs (f_sub score v)) eps"

lemma close_refl: "close_to (Fin x) (Fin x) EPSILON"
  by (simp add: close_to_def EPSILON_def)

lemma near_bounds: "\<bar>x - y\<bar> \<le> e \<Longrightarrow> y - e \<le> x" "\<bar>x - y\<bar> \<le> e \<Longrightarrow> x \<le> y + e" for x :: rat
  by linarith+

lemma rnd_near:
  assumes "\<bar>x\<bar> < 256"
  obtains y where "rnd x = Fin y" "\<bar>y - x\<bar> \<le> 1 / 1000000000000"
proof -
  have "\<bar>x\<bar> < pow2 8" using assms by (simp add: pow2_def)
  then obtain y where y: "rnd x = Fin y" "\<bar>y - x\<bar> \<le> pow2 (8 - 54)" using rnd_error [of x 8] by auto
  have "pow2 (8 - 54) \<le> 1 / 1000000000000" by (simp add: pow2_def)
  then show thesis using y that by fastforce
qed

lemma near_close:
  assumes "\<bar>y - v\<bar> \<le> 1/100000" "\<bar>v\<bar> < 250"
  shows "close_to (Fin y) (rnd v) (rnd (1/1000))"
proof -
  have "\<bar>v\<bar> < 256" using assms(2) by linarith
  then obtain w where w: "rnd v = Fin w" "\<bar>w - v\<bar> \<le> 1 / 1000000000000" by (rule rnd_near)
  have "\<bar>y - w\<bar> < 256" using assms w(2) by linarith
  then obtain d where d: "rnd (y - w) = Fin d" "\<bar>d - (y - w)\<bar> \<le> 1 / 1000000000000" by (rule rnd_near)
  obtain e where e: "rnd (1/1000) = Fin e" "\<bar>e - 1/1000\<bar> \<le> 1 / 1000000000000" by (rule rnd_near [of "1/1000"]) auto
  have "\<bar>d\<bar> < e" using assms(1) w(2) d(2) e(2) by linarith
  then show ?thesis by (simp add: close_to_def w(1) d(1) e(1))
qed

subsection \<open>What the keys are not\<close>

lemma test_seeds_mem [simp]:
  "''ciel-drift-fixture-pyth-feed'' \<in> set test_seeds"
  "''ciel-drift-fixture-switchboard-feed'' \<in> set test_seeds" "''cpi-drainer'' \<in> set test_seeds"
  "''cpi-owner'' \<in> set test_seeds" "''cpi-source'' \<in> set test_seeds" "''dlg'' \<in> set test_seeds"
  "''dn-target'' \<in> set test_seeds" "''drift-vault'' \<in> set test_seeds" "''int-tgt'' \<in> set test_seeds"
  "''kp-tgt'' \<in> set test_seeds" "''malicious-drainer'' \<in> set test_seeds"
  "''multi-delegate'' \<in> set test_seeds" "''multi-owner'' \<in> set test_seeds"
  "''multi-src-A'' \<in> set test_seeds" "''multi-src-B'' \<in> set test_seeds"
  "''multi-u-owner'' \<in> set test_seeds" "''multi-u-srcA'' \<in> set test_seeds"
  "''multi-u-srcB'' \<in> set test_seeds" "''multi-u-srcC'' \<in> set test_seeds"
  "''multi-u-unknownA'' \<in> set test_seeds" "''multi-u-unknownB'' \<in> set test_seeds"
  "''nested-target'' \<in> set test_seeds" "''nt-delegate'' \<in> set test_seeds" "''nt-owner'' \<in> set test_seeds"
  "''nt-source'' \<in> set test_seeds" "''rvk-before-delegate'' \<in> set test_seeds"
  "''rvk-before-owner'' \<in> set test_seeds" "''rvk-before-source'' \<in> set test_seeds"
  "''rvk-owner'' \<in> set test_seeds" "''rvk-source'' \<in> set test_seeds"
  "''rvk-unknown-delegate'' \<in> set test_seeds" "''shape-tgt'' \<in> set test_seeds"
  "''some-random-program'' \<in> set test_seeds" "''source-ata-1'' \<in> set test_seeds"
  "''source-ata-2'' \<in> set test_seeds" "''source-ata-3'' \<in> set test_seeds"
  "''source-ata-ac'' \<in> set test_seeds" "''src'' \<in> set test_seeds" "''t22-drainer'' \<in> set test_seeds"
  "''t22-mint'' \<in> set test_seeds" "''t22-owner'' \<in> set test_seeds" "''t22-source'' \<in> set test_seeds"
  "''target-token-account'' \<in> set test_seeds" "''tgt1'' \<in> set test_seeds" "''tgt2'' \<in> set test_seeds"
  "''unknown-delegate-limited'' \<in> set test_seeds" "''unknown-drainer-ac'' \<in> set test_seeds"
  "''usdc-mint'' \<in> set test_seeds" "''user-wallet'' \<in> set test_seeds"
  by (simp_all add: test_seeds_def)

lemma fresh_key_facts:
  assumes "keys_apart K"
  shows "s \<in> set test_seeds \<Longrightarrow> s' \<in> set test_seeds \<Longrightarrow> deterministic_pubkey K s = deterministic_pubkey K s' \<longleftrightarrow> s = s'"
    "m < 200 \<Longrightarrow> n < 200 \<Longrightarrow> new_unique K m = new_unique K n \<longleftrightarrow> m = n"
    "s \<in> set test_seeds \<Longrightarrow> n < 200 \<Longrightarrow> deterministic_pubkey K s \<noteq> new_unique K n"
    "s \<in> set test_seeds \<Longrightarrow> n < 200 \<Longrightarrow> new_unique K n \<noteq> deterministic_pubkey K s"
proof -
  have inj: "inj_on (deterministic_pubkey K) (set test_seeds)" "inj_on (new_unique K) {0..<200}"
    using assms by (simp_all add: keys_apart_def distinct_map DRAWN_def)
  show "s \<in> set test_seeds \<Longrightarrow> s' \<in> set test_seeds \<Longrightarrow> deterministic_pubkey K s = deterministic_pubkey K s' \<longleftrightarrow> s = s'"
    "m < 200 \<Longrightarrow> n < 200 \<Longrightarrow> new_unique K m = new_unique K n \<longleftrightarrow> m = n"
    using inj by (simp_all add: inj_on_eq_iff)
  have "deterministic_pubkey K ` set test_seeds \<inter> new_unique K ` {0..<200} = {}"
    using assms by (auto simp: keys_apart_def DRAWN_def)
  then show "s \<in> set test_seeds \<Longrightarrow> n < 200 \<Longrightarrow> deterministic_pubkey K s \<noteq> new_unique K n"
    "s \<in> set test_seeds \<Longrightarrow> n < 200 \<Longrightarrow> new_unique K n \<noteq> deterministic_pubkey K s"
    by (force simp: disjoint_iff)+
qed

lemma unknown_key: "k \<notin> set reserved_keys \<Longrightarrow> is_known_protocol with_mainnet_defaults k = None"
  by (simp add: reserved_keys_def with_mainnet_defaults_def is_known_protocol_def register_def registry_new_def update_conv')

lemma fresh_key_program:
  assumes "keys_apart K" "p \<in> set reserved_keys"
  shows "s \<in> set test_seeds \<Longrightarrow> deterministic_pubkey K s \<noteq> p" "s \<in> set test_seeds \<Longrightarrow> p \<noteq> deterministic_pubkey K s"
    "n < 200 \<Longrightarrow> new_unique K n \<noteq> p" "n < 200 \<Longrightarrow> p \<noteq> new_unique K n"
proof -
  have "deterministic_pubkey K ` set test_seeds \<inter> set reserved_keys = {}" "new_unique K ` {0..<200} \<inter> set reserved_keys = {}"
    using assms(1) by (auto simp: keys_apart_def DRAWN_def)
  then show "s \<in> set test_seeds \<Longrightarrow> deterministic_pubkey K s \<noteq> p" "s \<in> set test_seeds \<Longrightarrow> p \<noteq> deterministic_pubkey K s"
    "n < 200 \<Longrightarrow> new_unique K n \<noteq> p" "n < 200 \<Longrightarrow> p \<noteq> new_unique K n"
    using assms(2) by (force simp: disjoint_iff)+
qed

lemma fresh_key_unknown:
  assumes "keys_apart K"
  shows "s \<in> set test_seeds \<Longrightarrow> is_known_protocol with_mainnet_defaults (deterministic_pubkey K s) = None"
    "n < 200 \<Longrightarrow> is_known_protocol with_mainnet_defaults (new_unique K n) = None"
  using fresh_key_program [OF assms] by (blast intro: unknown_key)+

lemma reserved_mem [simp]:
  "SPL_TOKEN_PROGRAM_ID \<in> set reserved_keys" "SPL_TOKEN_2022_PROGRAM_ID \<in> set reserved_keys"
  "BPF_LOADER_UPGRADEABLE_PROGRAM_ID \<in> set reserved_keys" "DRIFT_V2_PROGRAM_ID \<in> set reserved_keys"
  "JUPITER_V6_PROGRAM_ID \<in> set reserved_keys" "SQUADS_V4_PROGRAM_ID \<in> set reserved_keys"
  "system_program_id \<in> set reserved_keys"
  by (simp_all add: reserved_keys_def)

lemma known_jupiter [simp]: "is_known_protocol with_mainnet_defaults JUPITER_V6_PROGRAM_ID = Some ''Jupiter V6''"
  by (simp add: with_mainnet_defaults_def is_known_protocol_def register_def registry_new_def program_ids)

lemma program_ids_differ [simp]:
  "SPL_TOKEN_2022_PROGRAM_ID \<noteq> SPL_TOKEN_PROGRAM_ID" "BPF_LOADER_UPGRADEABLE_PROGRAM_ID \<noteq> SPL_TOKEN_PROGRAM_ID"
  "BPF_LOADER_UPGRADEABLE_PROGRAM_ID \<noteq> SPL_TOKEN_2022_PROGRAM_ID" "SQUADS_V4_PROGRAM_ID \<noteq> SPL_TOKEN_PROGRAM_ID"
  "SQUADS_V4_PROGRAM_ID \<noteq> SPL_TOKEN_2022_PROGRAM_ID" "SQUADS_V4_PROGRAM_ID \<noteq> BPF_LOADER_UPGRADEABLE_PROGRAM_ID"
  "DRIFT_V2_PROGRAM_ID \<noteq> SQUADS_V4_PROGRAM_ID"
  by (simp_all add: program_ids)

text \<open>Keys that are fresh: texts with a mark no key of the program starts with.\<close>

definition marked_keys :: test_keys where
  "marked_keys = \<lparr>deterministic_pubkey = \<lambda>s. Pubkey (CHR ''!'' # s), new_unique = \<lambda>n. Pubkey (CHR ''?'' # replicate n CHR ''1'')\<rparr>"

lemma marked_keys_fresh: "keys_apart marked_keys"
proof -
  have "replicate m c = replicate n c \<Longrightarrow> m = n" for m n and c :: char by (metis length_replicate)
  then have "inj (new_unique marked_keys)" by (auto simp: marked_keys_def inj_def)
  moreover have "inj (deterministic_pubkey marked_keys)" by (simp add: marked_keys_def inj_def)
  moreover have "distinct test_seeds" "distinct reserved_keys" by (simp_all add: test_seeds_def reserved_keys_def program_ids)
  moreover have "deterministic_pubkey marked_keys s \<noteq> new_unique marked_keys n" "deterministic_pubkey marked_keys s \<notin> set reserved_keys"
    "new_unique marked_keys n \<notin> set reserved_keys" for s n
    by (simp_all add: marked_keys_def reserved_keys_def program_ids)
  ultimately show ?thesis unfolding keys_apart_def by (auto simp: distinct_map inj_def inj_on_def)
qed

end
