(* ===== verification/Approval_Suite.thy ===== *)
theory Approval_Suite
  imports Test_Support Approval_Abuse
begin

section \<open>The test module of the approval abuse checker\<close>

text \<open>
  \<^verbatim>\<open>mod tests\<close> of \<^verbatim>\<open>crates/ciel-checkers/src/approval_abuse.rs\<close>: the builders of calls and one predicate
  per test. Shown: every test passes, for all keys that are fresh.
\<close>

subsection \<open>Calls\<close>

definition approve_call_on :: "pubkey \<Rightarrow> u8 \<Rightarrow> nat \<Rightarrow> pubkey \<Rightarrow> pubkey \<Rightarrow> pubkey \<Rightarrow> u64 \<Rightarrow> cpi_call" where
  "approve_call_on pid h i src dlg own amount =
     \<lparr>program_id = pid, instruction_index = i, stack_height = h, cpi_accounts = [src, dlg, own],
      cpi_data = SPL_TOKEN_DISC_APPROVE # le_bytes 8 (unat amount)\<rparr>"

definition approve_call :: "u8 \<Rightarrow> pubkey \<Rightarrow> pubkey \<Rightarrow> pubkey \<Rightarrow> u64 \<Rightarrow> cpi_call" where
  "approve_call h src dlg own amount = approve_call_on SPL_TOKEN_PROGRAM_ID h 0 src dlg own amount"

definition approve_checked_call :: "u8 \<Rightarrow> pubkey \<Rightarrow> pubkey \<Rightarrow> pubkey \<Rightarrow> pubkey \<Rightarrow> u64 \<Rightarrow> cpi_call" where
  "approve_checked_call h src mint dlg own amount =
     \<lparr>program_id = SPL_TOKEN_PROGRAM_ID, instruction_index = 0, stack_height = h, cpi_accounts = [src, mint, dlg, own],
      cpi_data = SPL_TOKEN_DISC_APPROVE_CHECKED # le_bytes 8 (unat amount) @ [6]\<rparr>"

definition revoke_call :: "u8 \<Rightarrow> nat \<Rightarrow> pubkey \<Rightarrow> pubkey \<Rightarrow> cpi_call" where
  "revoke_call h i src own =
     \<lparr>program_id = SPL_TOKEN_PROGRAM_ID, instruction_index = i, stack_height = h, cpi_accounts = [src, own],
      cpi_data = [SPL_TOKEN_DISC_REVOKE]\<rparr>"

abbreviation U64_MAX :: u64 where "U64_MAX \<equiv> - 1"

subsection \<open>Tests\<close>

definition test_no_approvals_passes :: bool where
  "test_no_approvals_passes \<longleftrightarrow>
     (let out = approval_check (ctx_with empty_trace)
      in passed out \<and> out_severity out = SevNone \<and> flags out = [] \<and> checker_name out = ''approval_abuse'')"

definition test_unlimited_approve_unknown_program_flags :: "test_keys \<Rightarrow> bool" where
  "test_unlimited_approve_unknown_program_flags K \<longleftrightarrow>
     (let src = deterministic_pubkey K ''source-ata-1''; dlg = deterministic_pubkey K ''malicious-drainer'';
          own = deterministic_pubkey K ''user-wallet'';
          out = approval_check (ctx_with (trace_with_calls [approve_call 1 src dlg own U64_MAX]))
      in \<not> passed out \<and> out_severity out = High \<and> length (flags out) = 1 \<and>
         first_flag out (\<lambda>f. flag_code f = FLAG_UNLIMITED_APPROVAL_UNKNOWN_PROGRAM \<and>
           json_index (flag_data f) ''in_known_registry'' = JBool False \<and>
           json_index (flag_data f) ''amount'' = JStr (show_nat (unat U64_MAX)) \<and>
           json_index (flag_data f) ''delegate'' = JStr (pk_text dlg) \<and>
           json_index (flag_data f) ''via_cpi'' = JBool False \<and>
           json_index (flag_data f) ''discriminator'' = json_u8 SPL_TOKEN_DISC_APPROVE \<and>
           json_index (flag_data f) ''spl_program_name'' = JStr ''SPL Token'' \<and>
           json_index (flag_data f) ''token_mint'' = JNull))"

definition test_limited_approve_unknown_program_passes :: "test_keys \<Rightarrow> bool" where
  "test_limited_approve_unknown_program_passes K \<longleftrightarrow>
     (let src = deterministic_pubkey K ''source-ata-2''; dlg = deterministic_pubkey K ''unknown-delegate-limited'';
          own = deterministic_pubkey K ''user-wallet'';
          out = approval_check (ctx_with (trace_with_calls [approve_call 1 src dlg own 1000]))
      in passed out \<and> out_severity out = SevNone \<and> flags out = [])"

definition test_unlimited_approve_known_program_passes :: "test_keys \<Rightarrow> bool" where
  "test_unlimited_approve_known_program_passes K \<longleftrightarrow>
     (let src = deterministic_pubkey K ''source-ata-3''; own = deterministic_pubkey K ''user-wallet'';
          out = approval_check (ctx_with (trace_with_calls [approve_call 1 src JUPITER_V6_PROGRAM_ID own U64_MAX]))
      in passed out \<and> out_severity out = SevNone \<and> flags out = [])"

definition test_approve_checked_unlimited_unknown_flags :: "test_keys \<Rightarrow> bool" where
  "test_approve_checked_unlimited_unknown_flags K \<longleftrightarrow>
     (let src = deterministic_pubkey K ''source-ata-ac''; mint = deterministic_pubkey K ''usdc-mint'';
          dlg = deterministic_pubkey K ''unknown-drainer-ac''; own = deterministic_pubkey K ''user-wallet'';
          out = approval_check (ctx_with (trace_with_calls [approve_checked_call 1 src mint dlg own U64_MAX]))
      in \<not> passed out \<and> length (flags out) = 1 \<and>
         first_flag out (\<lambda>f. json_index (flag_data f) ''discriminator'' = json_u8 SPL_TOKEN_DISC_APPROVE_CHECKED \<and>
           json_index (flag_data f) ''token_mint'' = JStr (pk_text mint) \<and>
           json_index (flag_data f) ''delegate'' = JStr (pk_text dlg)))"

definition test_token_2022_approval_flagged :: "test_keys \<Rightarrow> bool" where
  "test_token_2022_approval_flagged K \<longleftrightarrow>
     (let src = deterministic_pubkey K ''t22-source''; dlg = deterministic_pubkey K ''t22-drainer'';
          own = deterministic_pubkey K ''t22-owner'';
          out = approval_check (ctx_with (trace_with_calls [approve_call_on SPL_TOKEN_2022_PROGRAM_ID 1 0 src dlg own U64_MAX]))
      in \<not> passed out \<and> length (flags out) = 1 \<and>
         first_flag out (\<lambda>f. json_index (flag_data f) ''spl_program_name'' = JStr ''SPL Token-2022''))"

definition test_approve_followed_by_revoke_suppresses_flag :: "test_keys \<Rightarrow> bool" where
  "test_approve_followed_by_revoke_suppresses_flag K \<longleftrightarrow>
     (let src = deterministic_pubkey K ''rvk-source''; dlg = deterministic_pubkey K ''rvk-unknown-delegate'';
          own = deterministic_pubkey K ''rvk-owner'';
          out = approval_check (ctx_with (trace_with_calls
            [approve_call 1 src dlg own U64_MAX, revoke_call 1 1 src own]))
      in passed out \<and> out_severity out = SevNone \<and> flags out = [])"

definition test_revoke_before_approve_does_not_suppress :: "test_keys \<Rightarrow> bool" where
  "test_revoke_before_approve_does_not_suppress K \<longleftrightarrow>
     (let src = deterministic_pubkey K ''rvk-before-source''; dlg = deterministic_pubkey K ''rvk-before-delegate'';
          own = deterministic_pubkey K ''rvk-before-owner'';
          out = approval_check (ctx_with (trace_with_calls
            [revoke_call 1 0 src own, approve_call_on SPL_TOKEN_PROGRAM_ID 1 1 src dlg own U64_MAX]))
      in \<not> passed out \<and> length (flags out) = 1)"

definition test_revoke_on_different_source_does_not_suppress :: "test_keys \<Rightarrow> bool" where
  "test_revoke_on_different_source_does_not_suppress K \<longleftrightarrow>
     (let src_a = deterministic_pubkey K ''multi-src-A''; src_b = deterministic_pubkey K ''multi-src-B'';
          dlg = deterministic_pubkey K ''multi-delegate''; own = deterministic_pubkey K ''multi-owner'';
          out = approval_check (ctx_with (trace_with_calls
            [approve_call 1 src_a dlg own U64_MAX, revoke_call 1 1 src_b own]))
      in \<not> passed out \<and> length (flags out) = 1)"

definition test_via_cpi_flag_set_when_nested :: "test_keys \<Rightarrow> bool" where
  "test_via_cpi_flag_set_when_nested K \<longleftrightarrow>
     (let src = deterministic_pubkey K ''cpi-source''; dlg = deterministic_pubkey K ''cpi-drainer'';
          own = deterministic_pubkey K ''cpi-owner'';
          out = approval_check (ctx_with (trace_with_calls [approve_call 2 src dlg own U64_MAX]))
      in \<not> passed out \<and> length (flags out) = 1 \<and>
         first_flag out (\<lambda>f. json_index (flag_data f) ''via_cpi'' = JBool True \<and>
           json_index (flag_data f) ''stack_height'' = JU64 2))"

definition test_non_token_program_with_same_disc_ignored :: "test_keys \<Rightarrow> bool" where
  "test_non_token_program_with_same_disc_ignored K \<longleftrightarrow>
     (let src = deterministic_pubkey K ''nt-source''; dlg = deterministic_pubkey K ''nt-delegate'';
          own = deterministic_pubkey K ''nt-owner''; random_program = deterministic_pubkey K ''some-random-program'';
          out = approval_check (ctx_with (trace_with_calls [approve_call_on random_program 1 0 src dlg own U64_MAX]))
      in passed out \<and> flags out = [])"

definition test_malformed_data_does_not_panic :: "test_keys \<Rightarrow> bool" where
  "test_malformed_data_does_not_panic K \<longleftrightarrow>
     (let call = \<lparr>program_id = SPL_TOKEN_PROGRAM_ID, instruction_index = 0, stack_height = 1,
            cpi_accounts = [deterministic_pubkey K ''src'', deterministic_pubkey K ''dlg''], cpi_data = [SPL_TOKEN_DISC_APPROVE]\<rparr>;
          out = approval_check (ctx_with (trace_with_calls [call]))
      in passed out \<and> flags out = [])"

definition test_multiple_approvals_only_unlimited_unknown_flagged :: "test_keys \<Rightarrow> bool" where
  "test_multiple_approvals_only_unlimited_unknown_flagged K \<longleftrightarrow>
     (let own = deterministic_pubkey K ''multi-u-owner'';
          out = approval_check (ctx_with (trace_with_calls
            [approve_call 1 (deterministic_pubkey K ''multi-u-srcA'') (deterministic_pubkey K ''multi-u-unknownA'') own U64_MAX,
             approve_call 1 (deterministic_pubkey K ''multi-u-srcB'') (deterministic_pubkey K ''multi-u-unknownB'') own 1000,
             approve_call 1 (deterministic_pubkey K ''multi-u-srcC'') JUPITER_V6_PROGRAM_ID own U64_MAX]))
      in \<not> passed out \<and> length (flags out) = 1 \<and> out_severity out = High)"

subsection \<open>What the builders amount to\<close>

lemma amount_of_le_bytes: "parse_amount_u64_le (d # le_bytes 8 (unat a) @ r) = Some a"
  using unat_u64_less [of a] by (simp add: parse_amount_u64_le_def le_nat_le_bytes)

lemma inspect_calls:
  "inspect_approve (approve_call_on pid h i src dlg own a) reg =
     (if (pid = SPL_TOKEN_PROGRAM_ID \<or> pid = SPL_TOKEN_2022_PROGRAM_ID) \<and> a = U64_MAX \<and> is_known_protocol reg dlg = None
      then Some \<lparr>cand_disc = SPL_TOKEN_DISC_APPROVE, cand_source = src, cand_delegate = dlg, cand_owner = Some own,
             cand_mint = None, spl_program_name = (if pid = SPL_TOKEN_PROGRAM_ID then ''SPL Token'' else ''SPL Token-2022'')\<rparr>
      else None)"
  "inspect_approve (approve_checked_call h src mint dlg own a) reg =
     (if a = U64_MAX \<and> is_known_protocol reg dlg = None
      then Some \<lparr>cand_disc = SPL_TOKEN_DISC_APPROVE_CHECKED, cand_source = src, cand_delegate = dlg, cand_owner = Some own,
             cand_mint = Some mint, spl_program_name = ''SPL Token''\<rparr>
      else None)"
  "inspect_approve (revoke_call h i src own) reg = None"
  using amount_of_le_bytes [of SPL_TOKEN_DISC_APPROVE a "[]"]
  by (simp_all add: inspect_approve_def approve_call_on_def approve_checked_call_def revoke_call_def approve_operands_def get_def
      amount_of_le_bytes SPL_TOKEN_DISC_APPROVE_def SPL_TOKEN_DISC_APPROVE_CHECKED_def SPL_TOKEN_DISC_REVOKE_def)

lemma is_revoke_calls:
  "\<not> is_revoke s (approve_call_on pid h i src dlg own a)" "is_revoke s (revoke_call h i src own) \<longleftrightarrow> src = s"
  by (simp_all add: is_revoke_def approve_call_on_def revoke_call_def SPL_TOKEN_DISC_APPROVE_def SPL_TOKEN_DISC_REVOKE_def)

lemma height_of_call: "stack_height (approve_call_on pid h i src dlg own a) = h"
  by (simp add: approve_call_on_def)

lemmas approval_suite_eval = height_of_call approval_check_def approval_flag_def revoked_after_def build_flag_def ctx_with_def trace_with_calls_def
  approve_call_def inspect_calls is_revoke_calls first_flag_def json_index_def List.map_filter_simps enumerate_simps Let_def

definition approval_suite :: "test_keys \<Rightarrow> bool" where
  "approval_suite K \<longleftrightarrow>
     test_no_approvals_passes \<and> test_unlimited_approve_unknown_program_flags K \<and>
     test_limited_approve_unknown_program_passes K \<and> test_unlimited_approve_known_program_passes K \<and>
     test_approve_checked_unlimited_unknown_flags K \<and> test_token_2022_approval_flagged K \<and>
     test_approve_followed_by_revoke_suppresses_flag K \<and> test_revoke_before_approve_does_not_suppress K \<and>
     test_revoke_on_different_source_does_not_suppress K \<and> test_via_cpi_flag_set_when_nested K \<and>
     test_non_token_program_with_same_disc_ignored K \<and> test_malformed_data_does_not_panic K \<and>
     test_multiple_approvals_only_unlimited_unknown_flagged K"

text \<open>Each test, for fresh keys.\<close>

lemma approval_suite_passes:
  assumes "keys_apart K"
  shows "approval_suite K"
proof -
  note evals = approval_suite_eval fresh_key_unknown [OF assms] fresh_key_facts [OF assms] fresh_key_program [OF assms]
  have "test_no_approvals_passes" by (simp add: test_no_approvals_passes_def evals empty_trace_def)
  moreover have "test_unlimited_approve_unknown_program_flags K"
    unfolding test_unlimited_approve_unknown_program_flags_def by (simp add: evals json_u8_def word_le_nat_alt)
  moreover have "test_limited_approve_unknown_program_passes K"
    unfolding test_limited_approve_unknown_program_passes_def by (simp add: evals)
  moreover have "test_unlimited_approve_known_program_passes K"
    unfolding test_unlimited_approve_known_program_passes_def by (simp add: evals)
  moreover have "test_approve_checked_unlimited_unknown_flags K"
    unfolding test_approve_checked_unlimited_unknown_flags_def by (simp add: evals)
  moreover have "test_token_2022_approval_flagged K"
    unfolding test_token_2022_approval_flagged_def by (simp add: evals)
  moreover have "test_approve_followed_by_revoke_suppresses_flag K"
    unfolding test_approve_followed_by_revoke_suppresses_flag_def by (simp add: evals)
  moreover have "test_revoke_before_approve_does_not_suppress K"
    unfolding test_revoke_before_approve_does_not_suppress_def by (simp add: evals)
  moreover have "test_revoke_on_different_source_does_not_suppress K"
    unfolding test_revoke_on_different_source_does_not_suppress_def by (simp add: evals)
  moreover have "test_via_cpi_flag_set_when_nested K"
    unfolding test_via_cpi_flag_set_when_nested_def by (simp add: evals json_u8_def)
  moreover have "test_non_token_program_with_same_disc_ignored K"
    unfolding test_non_token_program_with_same_disc_ignored_def by (simp add: evals)
  moreover have "test_malformed_data_does_not_panic K"
    unfolding test_malformed_data_does_not_panic_def
    by (simp add: evals inspect_approve_def approve_operands_def parse_amount_u64_le_def SPL_TOKEN_DISC_APPROVE_def)
  moreover have "test_multiple_approvals_only_unlimited_unknown_flagged K"
    unfolding test_multiple_approvals_only_unlimited_unknown_flagged_def by (simp add: evals)
  ultimately show ?thesis by (simp add: approval_suite_def)
qed

end
