(* ===== verification/Authority_Suite.thy ===== *)
theory Authority_Suite
  imports Test_Support Authority_Diff Intent_Rules
begin

section \<open>The test module of the authority diff checker\<close>

text \<open>
  \<^verbatim>\<open>mod tests\<close> of \<^verbatim>\<open>crates/ciel-checkers/src/authority_diff.rs\<close>: the builders of calls and contexts and one
  predicate per test. A test that draws keys from the counter takes them in the order of the calls.
  Shown: every test passes, for all keys that are fresh and whatever the Unicode tables say of
  characters beyond ASCII.
\<close>

subsection \<open>Calls and contexts\<close>

definition ctx_with_intent :: "simulation_trace \<Rightarrow> intent \<Rightarrow> checker_context" where
  "ctx_with_intent tr i = (ctx_with tr)\<lparr>ctx_intent := Some i\<rparr>"

text \<open>
  The transaction whose message is compiled from one \<^verbatim>\<open>AdvanceNonceAccount\<close> with the authority as payer:
  the signer first, then the writable account, then the read-only ones in the order of their bytes
  (the system program, 32 zero bytes, before the sysvar).
\<close>

definition recent_blockhashes_id :: pubkey where
  "recent_blockhashes_id = Pubkey ''SysvarRecentB1ockHashes11111111111111111111''"

definition advance_nonce_tx :: "pubkey \<Rightarrow> pubkey \<Rightarrow> transaction" where
  "advance_nonce_tx nonce_account authority =
     \<lparr>signatures = [replicate 64 0], message_header = (1, 0, 2),
      account_keys = [authority, nonce_account, system_program_id, recent_blockhashes_id],
      recent_blockhash = replicate 32 0,
      instructions = [\<lparr>program_id_index = 2, ci_accounts = [1, 3, 0],
                       ci_data = le_bytes 4 (unat SYSTEM_DISC_ADVANCE_NONCE_ACCOUNT)\<rparr>]\<rparr>"

definition ctx_with_durable_nonce :: "test_keys \<Rightarrow> simulation_trace \<Rightarrow> checker_context" where
  "ctx_with_durable_nonce K tr = (ctx_with tr)\<lparr>original_tx := advance_nonce_tx (new_unique K 0) (new_unique K 1)\<rparr>"

definition spl_set_authority_call :: "u8 \<Rightarrow> pubkey \<Rightarrow> pubkey list \<Rightarrow> u8 \<Rightarrow> cpi_call" where
  "spl_set_authority_call h target extra_accounts authority_type =
     \<lparr>program_id = SPL_TOKEN_PROGRAM_ID, instruction_index = 0, stack_height = h, cpi_accounts = target # extra_accounts,
      cpi_data = [SPL_TOKEN_DISC_SET_AUTHORITY, authority_type, 0]\<rparr>"

definition spl_close_call :: "test_keys \<Rightarrow> u8 \<Rightarrow> cpi_call" where
  "spl_close_call K h =
     \<lparr>program_id = SPL_TOKEN_PROGRAM_ID, instruction_index = 0, stack_height = h,
      cpi_accounts = [new_unique K 0, new_unique K 1], cpi_data = [SPL_TOKEN_DISC_CLOSE_ACCOUNT]\<rparr>"

definition spl_init_call :: "test_keys \<Rightarrow> u8 \<Rightarrow> u8 \<Rightarrow> cpi_call" where
  "spl_init_call K h disc =
     \<lparr>program_id = SPL_TOKEN_PROGRAM_ID, instruction_index = 0, stack_height = h,
      cpi_accounts = [new_unique K 0], cpi_data = [disc]\<rparr>"

definition bpf_call :: "test_keys \<Rightarrow> u8 \<Rightarrow> u8 \<Rightarrow> cpi_call" where
  "bpf_call K h disc =
     \<lparr>program_id = BPF_LOADER_UPGRADEABLE_PROGRAM_ID, instruction_index = 0, stack_height = h,
      cpi_accounts = [new_unique K 0, new_unique K 1], cpi_data = [disc, 0, 0, 0]\<rparr>"

definition squads_proxy_call :: "(nat \<Rightarrow> pubkey) \<Rightarrow> pubkey \<Rightarrow> cpi_call" where
  "squads_proxy_call unique inner_program =
     \<lparr>program_id = SQUADS_V4_PROGRAM_ID, instruction_index = 0, stack_height = 1,
      cpi_accounts = [unique 0, unique 1, inner_program, unique 2], cpi_data = [0xaa, 0xbb]\<rparr>"

definition plain_intent :: "string \<Rightarrow> intent" where
  "plain_intent text = \<lparr>description = text, constraints = [], spec = None\<rparr>"

abbreviation flag_field :: "flag \<Rightarrow> string \<Rightarrow> json option" where
  "flag_field f k \<equiv> json_get (flag_data f) k"

subsection \<open>Tests\<close>

definition test_clean_sol_transfer_passes :: "unicode \<Rightarrow> bool" where
  "test_clean_sol_transfer_passes U \<longleftrightarrow>
     (let out = authority_check U (ctx_with empty_trace)
      in passed out \<and> out_severity out = SevNone \<and> flags out = [])"

definition test_hidden_set_authority_top_level :: "unicode \<Rightarrow> test_keys \<Rightarrow> bool" where
  "test_hidden_set_authority_top_level U K \<longleftrightarrow>
     (let target = deterministic_pubkey K ''target-token-account'';
          out = authority_check U (ctx_with (trace_with_calls [spl_set_authority_call 1 target [] 2]))
      in \<not> passed out \<and> out_severity out = Medium \<and> length (flags out) = 1 \<and>
         first_flag out (\<lambda>f. flag_code f = FLAG_SPL_SET_AUTHORITY_IN_CPI))"

definition test_hidden_set_authority_nested_cpi :: "unicode \<Rightarrow> test_keys \<Rightarrow> bool" where
  "test_hidden_set_authority_nested_cpi U K \<longleftrightarrow>
     (let target = deterministic_pubkey K ''nested-target'';
          out = authority_check U (ctx_with (trace_with_calls [spl_set_authority_call 3 target [] 2]))
      in \<not> passed out \<and> out_severity out = Critical)"

definition test_set_authority_on_known_protocol :: "unicode \<Rightarrow> test_keys \<Rightarrow> bool" where
  "test_set_authority_on_known_protocol U K \<longleftrightarrow>
     (let target = deterministic_pubkey K ''drift-vault'';
          out = authority_check U (ctx_with (trace_with_calls [spl_set_authority_call 2 target [DRIFT_V2_PROGRAM_ID] 2]))
      in \<not> passed out \<and> out_severity out = Critical \<and>
         first_flag out (\<lambda>f. Option.bind (flag_field f ''known_protocol_name'') json_as_str = Some ''Drift v2''))"

definition test_spl_token_close_account :: "unicode \<Rightarrow> test_keys \<Rightarrow> bool" where
  "test_spl_token_close_account U K \<longleftrightarrow>
     (let out = authority_check U (ctx_with (trace_with_calls [spl_close_call K 2]))
      in \<not> passed out \<and> out_severity out = Medium \<and> first_flag out (\<lambda>f. flag_code f = FLAG_SPL_CLOSE_ACCOUNT_IN_CPI))"

definition test_spl_token_initialize_account_low :: "unicode \<Rightarrow> test_keys \<Rightarrow> bool" where
  "test_spl_token_initialize_account_low U K \<longleftrightarrow>
     (let out = authority_check U (ctx_with (trace_with_calls [spl_init_call K 2 SPL_TOKEN_DISC_INITIALIZE_ACCOUNT]))
      in \<not> passed out \<and> out_severity out = Low \<and> first_flag out (\<lambda>f. flag_code f = FLAG_SPL_INIT_ACCOUNT_IN_CPI))"

definition test_spl_token_non_matching_discriminator :: "unicode \<Rightarrow> test_keys \<Rightarrow> bool" where
  "test_spl_token_non_matching_discriminator U K \<longleftrightarrow>
     (let transfer_call = \<lparr>program_id = SPL_TOKEN_PROGRAM_ID, instruction_index = 0, stack_height = 2,
            cpi_accounts = [new_unique K 0, new_unique K 1], cpi_data = [3, 0, 0, 0, 0, 0, 0, 0, 0]\<rparr>;
          out = authority_check U (ctx_with (trace_with_calls [transfer_call]))
      in passed out \<and> flags out = [])"

definition test_token_2022_set_authority_extension_variant :: "unicode \<Rightarrow> test_keys \<Rightarrow> bool" where
  "test_token_2022_set_authority_extension_variant U K \<longleftrightarrow>
     (let call = \<lparr>program_id = SPL_TOKEN_2022_PROGRAM_ID, instruction_index = 0, stack_height = 2,
            cpi_accounts = [deterministic_pubkey K ''t22-mint''], cpi_data = [SPL_TOKEN_DISC_SET_AUTHORITY, 8, 0]\<rparr>;
          out = authority_check U (ctx_with (trace_with_calls [call]))
      in \<not> passed out \<and>
         first_flag out (\<lambda>f. Option.bind (flag_field f ''authority_type_name'') json_as_str = Some ''PermanentDelegate''))"

definition test_bpf_upgrade_detected :: "unicode \<Rightarrow> test_keys \<Rightarrow> bool" where
  "test_bpf_upgrade_detected U K \<longleftrightarrow>
     (let out = authority_check U (ctx_with (trace_with_calls [bpf_call K 2 BPF_DISC_UPGRADE]))
      in \<not> passed out \<and> out_severity out = Critical \<and> first_flag out (\<lambda>f. flag_code f = FLAG_BPF_UPGRADE_IN_CPI))"

definition test_bpf_set_authority_checked_detected :: "unicode \<Rightarrow> test_keys \<Rightarrow> bool" where
  "test_bpf_set_authority_checked_detected U K \<longleftrightarrow>
     (let out = authority_check U (ctx_with (trace_with_calls [bpf_call K 2 BPF_DISC_SET_AUTHORITY_CHECKED]))
      in \<not> passed out \<and>
         first_flag out (\<lambda>f. flag_code f = FLAG_BPF_SET_AUTHORITY_IN_CPI \<and>
           Option.bind (flag_field f ''checked'') json_as_bool = Some True))"

definition test_squads_admin_proxy :: "unicode \<Rightarrow> test_keys \<Rightarrow> bool" where
  "test_squads_admin_proxy U K \<longleftrightarrow>
     (let out = authority_check U (ctx_with (trace_with_calls [squads_proxy_call (new_unique K) DRIFT_V2_PROGRAM_ID]))
      in \<not> passed out \<and> out_severity out = High \<and>
         first_flag out (\<lambda>f. flag_code f = FLAG_MULTISIG_ADMIN_HANDOFF_CANDIDATE \<and>
           Option.bind (flag_field f ''target_protocol_name'') json_as_str = Some ''Drift v2''))"

definition test_squads_without_known_protocol :: "unicode \<Rightarrow> test_keys \<Rightarrow> bool" where
  "test_squads_without_known_protocol U K \<longleftrightarrow>
     (let out = authority_check U (ctx_with (trace_with_calls
            [squads_proxy_call (\<lambda>n. new_unique K (n + 1)) (new_unique K 0)]))
      in passed out \<and> flags out = [])"

definition test_durable_nonce_precursor_bumps_severity :: "unicode \<Rightarrow> test_keys \<Rightarrow> bool" where
  "test_durable_nonce_precursor_bumps_severity U K \<longleftrightarrow>
     (let target = deterministic_pubkey K ''dn-target'';
          out = authority_check U (ctx_with_durable_nonce K (trace_with_calls [spl_set_authority_call 2 target [] 2]))
      in \<not> passed out \<and> out_severity out = Critical \<and>
         first_flag out (\<lambda>f. Option.bind (flag_field f ''durable_nonce_precursor'') json_as_bool = Some True))"

definition test_empty_instruction_data :: "unicode \<Rightarrow> test_keys \<Rightarrow> bool" where
  "test_empty_instruction_data U K \<longleftrightarrow>
     (let call = \<lparr>program_id = SPL_TOKEN_PROGRAM_ID, instruction_index = 0, stack_height = 2,
            cpi_accounts = [new_unique K 0], cpi_data = []\<rparr>
      in passed (authority_check U (ctx_with (trace_with_calls [call]))))"

definition test_bpf_loader_short_data :: "unicode \<Rightarrow> test_keys \<Rightarrow> bool" where
  "test_bpf_loader_short_data U K \<longleftrightarrow>
     (let call = \<lparr>program_id = BPF_LOADER_UPGRADEABLE_PROGRAM_ID, instruction_index = 0, stack_height = 2,
            cpi_accounts = [new_unique K 0], cpi_data = [BPF_DISC_UPGRADE]\<rparr>;
          out = authority_check U (ctx_with (trace_with_calls [call]))
      in \<not> passed out \<and> first_flag out (\<lambda>f. flag_code f = FLAG_BPF_UPGRADE_IN_CPI))"

definition test_multiple_set_authority_instructions :: "unicode \<Rightarrow> test_keys \<Rightarrow> bool" where
  "test_multiple_set_authority_instructions U K \<longleftrightarrow>
     (let c1 = (spl_set_authority_call 2 (deterministic_pubkey K ''tgt1'') [] 2)\<lparr>instruction_index := 0\<rparr>;
          c2 = (spl_set_authority_call 3 (deterministic_pubkey K ''tgt2'') [] 2)\<lparr>instruction_index := 1\<rparr>;
          out = authority_check U (ctx_with (trace_with_calls [c1, c2]))
      in length (flags out) = 2 \<and>
         Option.bind (flag_field (flags out ! 0) ''instruction_index'') json_as_u64 = Some 0 \<and>
         Option.bind (flag_field (flags out ! 1) ''instruction_index'') json_as_u64 = Some 1 \<and>
         out_severity out = Critical)"

definition test_intent_keyword_downgrades :: "unicode \<Rightarrow> test_keys \<Rightarrow> bool" where
  "test_intent_keyword_downgrades U K \<longleftrightarrow>
     (let target = deterministic_pubkey K ''int-tgt'';
          out = authority_check U (ctx_with_intent (trace_with_calls [spl_set_authority_call 2 target [] 2])
            (plain_intent ''rotate authority on admin account''))
      in out_severity out = Medium \<and>
         first_flag out (\<lambda>f. Option.bind (flag_field f ''intent_ack'') json_as_bool = Some True))"

definition test_intent_substring_does_not_falsely_downgrade :: "unicode \<Rightarrow> test_keys \<Rightarrow> bool" where
  "test_intent_substring_does_not_falsely_downgrade U K \<longleftrightarrow>
     (let out = authority_check U (ctx_with_intent (trace_with_calls [spl_close_call K 2])
            (plain_intent ''public disclosure of financials''))
      in out_severity out = Medium \<and> first_flag out (\<lambda>f. flag_field f ''intent_ack'' = None))"

definition test_intent_downgrade_floors_at_high_for_known_protocol :: "unicode \<Rightarrow> test_keys \<Rightarrow> bool" where
  "test_intent_downgrade_floors_at_high_for_known_protocol U K \<longleftrightarrow>
     (let target = deterministic_pubkey K ''kp-tgt'';
          out = authority_check U (ctx_with_intent (trace_with_calls [spl_set_authority_call 2 target [DRIFT_V2_PROGRAM_ID] 2])
            (plain_intent ''set authority on drift admin''))
      in out_severity out = High \<and>
         first_flag out (\<lambda>f. Option.bind (flag_field f ''intent_ack'') json_as_bool = Some True))"

definition test_checker_name_matches_stub :: "unicode \<Rightarrow> bool" where
  "test_checker_name_matches_stub U \<longleftrightarrow> name (authority_diff_checker U) = ''authority_diff''"

definition test_flag_data_shape_stable :: "unicode \<Rightarrow> test_keys \<Rightarrow> bool" where
  "test_flag_data_shape_stable U K \<longleftrightarrow>
     (let target = deterministic_pubkey K ''shape-tgt'';
          out = authority_check U (ctx_with (trace_with_calls [spl_set_authority_call 2 target [] 2]))
      in first_flag out (\<lambda>f.
           list_all (\<lambda>k. flag_field f k \<noteq> None) [''instruction_index'', ''stack_height'', ''program_id'', ''target_account''] \<and>
           flag_field f ''authority_type'' \<noteq> None \<and> flag_field f ''authority_type_name'' \<noteq> None \<and>
           flag_field f ''known_protocol_name'' = None \<and> flag_field f ''computed_severity'' = None))"

subsection \<open>Evaluation\<close>

lemmas authority_codes = FLAG_SPL_SET_AUTHORITY_IN_CPI_def FLAG_SPL_CLOSE_ACCOUNT_IN_CPI_def FLAG_SPL_INIT_ACCOUNT_IN_CPI_def
  FLAG_BPF_UPGRADE_IN_CPI_def FLAG_BPF_SET_AUTHORITY_IN_CPI_def FLAG_BPF_CLOSE_IN_CPI_def
  FLAG_MULTISIG_ADMIN_HANDOFF_CANDIDATE_def

lemmas authority_discs = SPL_TOKEN_DISC_INITIALIZE_ACCOUNT_def SPL_TOKEN_DISC_SET_AUTHORITY_def
  SPL_TOKEN_DISC_CLOSE_ACCOUNT_def SPL_TOKEN_DISC_INITIALIZE_ACCOUNT_2_def SPL_TOKEN_DISC_INITIALIZE_ACCOUNT_3_def
  BPF_DISC_UPGRADE_def BPF_DISC_SET_AUTHORITY_def BPF_DISC_CLOSE_def BPF_DISC_SET_AUTHORITY_CHECKED_def

text \<open>One call that matches: its severity, and the fields of its flag.\<close>

lemma one_call_severity:
  assumes "cpi_graph (ctx_trace ctx) = [c]" "match_call c (known_programs ctx) = Some f"
  shows "out_severity (authority_check U ctx) = reported_severity U ctx c f"
proof -
  have "matched_calls ctx = [(c, f)]" using assms by (simp add: matched_calls_def List.map_filter_simps)
  moreover have "max SevNone s = s" for s by (cases s) (simp_all add: max_def less_eq_severity_def)
  ultimately show ?thesis unfolding authority_severity by simp
qed

definition acknowledged :: "unicode \<Rightarrow> checker_context \<Rightarrow> flag \<Rightarrow> bool" where
  "acknowledged U ctx f = (case ctx_intent ctx of None \<Rightarrow> False | Some i \<Rightarrow> intent_acknowledges U i (flag_code f))"

lemma one_call_flag:
  assumes "cpi_graph (ctx_trace ctx) = [c]" "match_call c (known_programs ctx) = Some f"
  shows "\<exists>g. flags (authority_check U ctx) = [g] \<and> \<not> passed (authority_check U ctx) \<and> flag_code g = flag_code f \<and>
    (\<forall>key. flag_field g key =
       (if key = ''computed_severity'' then None
        else if key = ''intent_ack'' \<and> acknowledged U ctx f then Some (JBool True)
        else if key = ''durable_nonce_precursor'' \<and> has_durable_nonce_precursor ctx then Some (JBool True)
        else if key = ''known_protocol_name'' then map_option JStr (lookup_known_protocol_in_call c (known_programs ctx))
        else flag_field f key))"
proof -
  obtain m where m: "flag_data f = JObj m" "map_of m ''known_protocol_name'' = None"
    using match_call_object [OF assms(2)] by blast
  have *: "flag_data (case ctx_intent ctx of None \<Rightarrow> x | Some i \<Rightarrow> acknowledge_flag U i x) =
      (if acknowledged U ctx f then json_set ''intent_ack'' (JBool True) (json_set ''computed_severity'' v (flag_data x)) else flag_data x) \<and>
      flag_code (case ctx_intent ctx of None \<Rightarrow> x | Some i \<Rightarrow> acknowledge_flag U i x) = flag_code x"
    if "flag_code x = flag_code f" "v = json_severity (shift_severity_with_floor (recover_severity (flag_data x)) (- 1)
        (if (case json_get (flag_data x) ''known_protocol_name'' of None \<Rightarrow> False | Some v \<Rightarrow> v \<noteq> JNull) then High else Low))" for x v
    using that by (auto simp: acknowledged_def acknowledge_flag_def Let_def split: option.splits)
  let ?x = "the (flag_call (has_durable_nonce_precursor ctx) (known_programs ctx) c)"
  have fl: "flag_call (has_durable_nonce_precursor ctx) (known_programs ctx) c = Some ?x" "flag_code ?x = flag_code f"
    using assms(2) by (simp_all add: flag_call_def Let_def)
  have data: "\<exists>m'. flag_data ?x = JObj m' \<and> (\<forall>key. key \<noteq> ''computed_severity'' \<longrightarrow> map_of m' key =
      (if key = ''durable_nonce_precursor'' \<and> has_durable_nonce_precursor ctx then Some (JBool True)
       else if key = ''known_protocol_name'' then map_option JStr (lookup_known_protocol_in_call c (known_programs ctx))
       else map_of m key))"
    using assms(2) m by (cases "lookup_known_protocol_in_call c (known_programs ctx)"; cases "has_durable_nonce_precursor ctx")
      (auto simp: flag_call_def Let_def lookup_bt_insert)
  have out: "flags (authority_check U ctx) =
      [(case ctx_intent ctx of None \<Rightarrow> ?x | Some i \<Rightarrow> acknowledge_flag U i ?x)
        \<lparr>flag_data := json_remove ''computed_severity'' (flag_data (case ctx_intent ctx of None \<Rightarrow> ?x | Some i \<Rightarrow> acknowledge_flag U i ?x))\<rparr>]"
    "\<not> passed (authority_check U ctx)"
    using assms(1) fl(1) by (auto simp: authority_check_def authority_flags_def List.map_filter_simps Let_def split: option.splits)
  obtain m' where m': "flag_data ?x = JObj m'" "\<And>key. key \<noteq> ''computed_severity'' \<Longrightarrow> map_of m' key =
      (if key = ''durable_nonce_precursor'' \<and> has_durable_nonce_precursor ctx then Some (JBool True)
       else if key = ''known_protocol_name'' then map_option JStr (lookup_known_protocol_in_call c (known_programs ctx))
       else map_of m key)"
    using data by blast
  let ?y = "case ctx_intent ctx of None \<Rightarrow> ?x | Some i \<Rightarrow> acknowledge_flag U i ?x"
  have code: "flag_code ?y = flag_code f" using * [OF fl(2) refl] fl(2) by simp
  have "json_get (json_remove ''computed_severity'' (flag_data ?y)) key =
      (if key = ''computed_severity'' then None
       else if key = ''intent_ack'' \<and> acknowledged U ctx f then Some (JBool True) else map_of m' key)" for key
    using * [OF fl(2) refl] m'(1) by (simp add: json_get_remove lookup_bt_insert)
  then show ?thesis unfolding out(1) using out(2) code m(1) m'(2) by simp
qed

lemma no_nonce: "\<not> has_durable_nonce_precursor (ctx_with tr)" "\<not> has_durable_nonce_precursor (ctx_with_intent tr i)"
  by (simp_all add: has_durable_nonce_precursor_def ctx_with_def ctx_with_intent_def empty_tx_def)

lemma nonce_first: "has_durable_nonce_precursor (ctx_with_durable_nonce K tr)"
proof -
  have "le_bytes 4 4 = [4, 0, 0, 0]" by code_simp
  then show ?thesis
    by (simp add: has_durable_nonce_precursor_def ctx_with_durable_nonce_def advance_nonce_tx_def get_def
        SYSTEM_DISC_ADVANCE_NONCE_ACCOUNT_def)
qed

lemma ctx_with_facts:
  "ctx_intent (ctx_with tr) = None" "ctx_trace (ctx_with tr) = tr" "known_programs (ctx_with tr) = with_mainnet_defaults"
  "ctx_intent (ctx_with_durable_nonce K tr) = None" "ctx_trace (ctx_with_durable_nonce K tr) = tr"
  "known_programs (ctx_with_durable_nonce K tr) = with_mainnet_defaults"
  "cpi_graph (trace_with_calls cs) = cs" "ctx_intent (ctx_with_intent tr i) = Some i" "ctx_trace (ctx_with_intent tr i) = tr"
  "known_programs (ctx_with_intent tr i) = with_mainnet_defaults"
  by (simp_all add: ctx_with_def ctx_with_durable_nonce_def ctx_with_intent_def trace_with_calls_def)

lemma call_severities:
  "call_severity False None 1 FLAG_SPL_SET_AUTHORITY_IN_CPI = Medium" "call_severity False None 3 FLAG_SPL_SET_AUTHORITY_IN_CPI = Critical"
  "call_severity False (Some p) 2 FLAG_SPL_SET_AUTHORITY_IN_CPI = Critical" "call_severity False None 2 FLAG_SPL_SET_AUTHORITY_IN_CPI = High"
  "call_severity False None 2 FLAG_SPL_CLOSE_ACCOUNT_IN_CPI = Medium" "call_severity False None 2 FLAG_SPL_INIT_ACCOUNT_IN_CPI = Low"
  "call_severity False None 2 FLAG_BPF_UPGRADE_IN_CPI = Critical"
  "call_severity False (Some p) 1 FLAG_MULTISIG_ADMIN_HANDOFF_CANDIDATE = High"
  "call_severity True None 2 FLAG_SPL_SET_AUTHORITY_IN_CPI = Critical"
  by (simp_all add: call_severity_def flag_severity_def authority_codes modulate_by_stack_height_def Let_def
      shift_severity_with_floor_def shift_severity_def severity_from_u8_def)

lemma single_call:
  assumes "match_call c with_mainnet_defaults = Some f" "lookup_known_protocol_in_call c with_mainnet_defaults = k"
  shows "\<exists>g. flags (authority_check U (ctx_with (trace_with_calls [c]))) = [g] \<and>
    \<not> passed (authority_check U (ctx_with (trace_with_calls [c]))) \<and>
    out_severity (authority_check U (ctx_with (trace_with_calls [c]))) = call_severity False k (stack_height c) (flag_code f) \<and>
    flag_code g = flag_code f \<and>
    (\<forall>key. flag_field g key =
       (if key = ''computed_severity'' then None else if key = ''known_protocol_name'' then map_option JStr k else flag_field f key))"
proof -
  let ?ctx = "ctx_with (trace_with_calls [c])"
  have c: "cpi_graph (ctx_trace ?ctx) = [c]" "match_call c (known_programs ?ctx) = Some f"
    using assms(1) by (simp_all add: ctx_with_facts)
  have "reported_severity U ?ctx c f = call_severity False k (stack_height c) (flag_code f)"
    by (simp add: reported_severity_def Let_def ctx_with_facts no_nonce assms(2))
  then have sev: "out_severity (authority_check U ?ctx) = call_severity False k (stack_height c) (flag_code f)"
    using one_call_severity [OF c, of U] by simp
  have ack: "\<not> acknowledged U ?ctx f" by (simp add: acknowledged_def ctx_with_facts)
  obtain g where g: "flags (authority_check U ?ctx) = [g]" "\<not> passed (authority_check U ?ctx)" "flag_code g = flag_code f"
    and field: "\<And>key. flag_field g key =
       (if key = ''computed_severity'' then None
        else if key = ''intent_ack'' \<and> acknowledged U ?ctx f then Some (JBool True)
        else if key = ''durable_nonce_precursor'' \<and> has_durable_nonce_precursor ?ctx then Some (JBool True)
        else if key = ''known_protocol_name'' then map_option JStr (lookup_known_protocol_in_call c (known_programs ?ctx))
        else flag_field f key)"
    using one_call_flag [OF c, of U] by blast
  show ?thesis using g sev field by (intro exI [of _ g]) (simp add: ack no_nonce ctx_with_facts(3) assms(2))
qed

text \<open>The flags of the builders' calls.\<close>

lemma match_builders:
  "match_call (spl_set_authority_call h t ks ty) reg =
     Some \<lparr>flag_code = FLAG_SPL_SET_AUTHORITY_IN_CPI, flag_message = ''SPL Token SetAuthority'' @ call_position (spl_set_authority_call h t ks ty),
           flag_data = json_obj (call_fields (spl_set_authority_call h t ks ty) (Some t) @
             [(''authority_type'', json_u8 ty), (''authority_type_name'', JStr (authority_type_name ty))])\<rparr>"
  "\<exists>f. match_call (spl_close_call K h) reg = Some f \<and> flag_code f = FLAG_SPL_CLOSE_ACCOUNT_IN_CPI \<and> flag_field f ''intent_ack'' = None"
  "\<exists>f. match_call (spl_init_call K h SPL_TOKEN_DISC_INITIALIZE_ACCOUNT) reg = Some f \<and> flag_code f = FLAG_SPL_INIT_ACCOUNT_IN_CPI"
  "\<exists>f. match_call (bpf_call K h BPF_DISC_UPGRADE) reg = Some f \<and> flag_code f = FLAG_BPF_UPGRADE_IN_CPI"
  "\<exists>f. match_call (bpf_call K h BPF_DISC_SET_AUTHORITY_CHECKED) reg = Some f \<and> flag_code f = FLAG_BPF_SET_AUTHORITY_IN_CPI \<and>
     flag_field f ''checked'' = Some (JBool True)"
  by (simp_all add: match_call_def match_spl_token_def match_bpf_loader_def spl_set_authority_call_def spl_close_call_def
      spl_init_call_def bpf_call_def get_def authority_discs call_fields_def)

lemma match_squads:
  assumes "keys_apart K"
  shows "\<exists>f. match_call (squads_proxy_call (new_unique K) DRIFT_V2_PROGRAM_ID) with_mainnet_defaults = Some f \<and>
      flag_code f = FLAG_MULTISIG_ADMIN_HANDOFF_CANDIDATE \<and> flag_field f ''target_protocol_name'' = Some (JStr ''Drift v2'')"
    "match_call (squads_proxy_call (\<lambda>n. new_unique K (n + 1)) (new_unique K 0)) with_mainnet_defaults = None"
  by (simp_all add: match_call_def match_squads_proxy_def squads_proxy_call_def fresh_key_unknown [OF assms] call_fields_def)

lemma known_in_builders:
  assumes "keys_apart K"
  shows "s \<in> set test_seeds \<Longrightarrow>
      lookup_known_protocol_in_call (spl_set_authority_call h (deterministic_pubkey K s) [] ty) with_mainnet_defaults = None"
    "s \<in> set test_seeds \<Longrightarrow>
      lookup_known_protocol_in_call (spl_set_authority_call h (deterministic_pubkey K s) [DRIFT_V2_PROGRAM_ID] ty) with_mainnet_defaults = Some ''Drift v2''"
    "lookup_known_protocol_in_call (spl_close_call K h) with_mainnet_defaults = None"
    "lookup_known_protocol_in_call (spl_init_call K h d) with_mainnet_defaults = None"
    "lookup_known_protocol_in_call (bpf_call K h d) with_mainnet_defaults = None"
    "lookup_known_protocol_in_call (squads_proxy_call (new_unique K) DRIFT_V2_PROGRAM_ID) with_mainnet_defaults = Some ''Drift v2''"
  using fresh_key_unknown [OF assms]
  by (simp_all add: lookup_known_protocol_in_call_def spl_set_authority_call_def spl_close_call_def spl_init_call_def bpf_call_def
      squads_proxy_call_def)

lemma builder_heights:
  "stack_height (spl_set_authority_call h t ks ty) = h" "stack_height (spl_close_call K h) = h" "stack_height (spl_init_call K h d) = h"
  "stack_height (bpf_call K h d) = h" "stack_height (squads_proxy_call u p) = 1"
  by (simp_all add: spl_set_authority_call_def spl_close_call_def spl_init_call_def bpf_call_def squads_proxy_call_def)

subsection \<open>The tests pass\<close>

lemma core_tests:
  assumes "keys_apart K"
  shows "test_clean_sol_transfer_passes U" "test_hidden_set_authority_top_level U K" "test_hidden_set_authority_nested_cpi U K"
    "test_set_authority_on_known_protocol U K" "test_flag_data_shape_stable U K"
proof -
  have seed: "''target-token-account'' \<in> set test_seeds" "''nested-target'' \<in> set test_seeds" "''drift-vault'' \<in> set test_seeds"
    "''shape-tgt'' \<in> set test_seeds" by simp_all
  note set_call = single_call [OF match_builders(1) known_in_builders(1) [OF assms]]
  show "test_clean_sol_transfer_passes U"
    by (simp add: test_clean_sol_transfer_passes_def authority_check_def ctx_with_facts empty_trace_def authority_passed_output_def)
  show "test_hidden_set_authority_top_level U K"
    using set_call [OF seed(1), of U 1 2]
    by (auto simp: test_hidden_set_authority_top_level_def Let_def first_flag_def call_severities builder_heights)
  show "test_hidden_set_authority_nested_cpi U K"
    using set_call [OF seed(2), of U 3 2]
    by (auto simp: test_hidden_set_authority_nested_cpi_def Let_def call_severities builder_heights)
  show "test_set_authority_on_known_protocol U K"
    using single_call [OF match_builders(1) known_in_builders(2) [OF assms seed(3)], of U 2 2]
    by (auto simp: test_set_authority_on_known_protocol_def Let_def first_flag_def call_severities builder_heights)
  show "test_flag_data_shape_stable U K"
    using set_call [OF seed(4), of U 2 2]
    by (auto simp: test_flag_data_shape_stable_def Let_def first_flag_def call_fields_def)
qed

lemma program_tests:
  assumes "keys_apart K"
  shows "test_spl_token_close_account U K" "test_spl_token_initialize_account_low U K" "test_bpf_upgrade_detected U K"
    "test_bpf_set_authority_checked_detected U K" "test_squads_admin_proxy U K" "test_squads_without_known_protocol U K"
proof -
  note known = known_in_builders [OF assms]
  obtain f where f: "match_call (spl_close_call K 2) with_mainnet_defaults = Some f" "flag_code f = FLAG_SPL_CLOSE_ACCOUNT_IN_CPI"
    using match_builders(2) by blast
  show "test_spl_token_close_account U K"
    using single_call [OF f(1) known(3), of U] f(2)
    by (auto simp: test_spl_token_close_account_def Let_def first_flag_def call_severities builder_heights)
  obtain f where f: "match_call (spl_init_call K 2 SPL_TOKEN_DISC_INITIALIZE_ACCOUNT) with_mainnet_defaults = Some f"
    "flag_code f = FLAG_SPL_INIT_ACCOUNT_IN_CPI" using match_builders(3) by blast
  show "test_spl_token_initialize_account_low U K"
    using single_call [OF f(1) known(4), of U] f(2)
    by (auto simp: test_spl_token_initialize_account_low_def Let_def first_flag_def call_severities builder_heights)
  obtain f where f: "match_call (bpf_call K 2 BPF_DISC_UPGRADE) with_mainnet_defaults = Some f" "flag_code f = FLAG_BPF_UPGRADE_IN_CPI"
    using match_builders(4) by blast
  show "test_bpf_upgrade_detected U K"
    using single_call [OF f(1) known(5), of U] f(2)
    by (auto simp: test_bpf_upgrade_detected_def Let_def first_flag_def call_severities builder_heights)
  obtain f where f: "match_call (bpf_call K 2 BPF_DISC_SET_AUTHORITY_CHECKED) with_mainnet_defaults = Some f"
    "flag_code f = FLAG_BPF_SET_AUTHORITY_IN_CPI" "flag_field f ''checked'' = Some (JBool True)" using match_builders(5) by blast
  show "test_bpf_set_authority_checked_detected U K"
    using single_call [OF f(1) known(5), of U] f(2,3)
    by (auto simp: test_bpf_set_authority_checked_detected_def Let_def first_flag_def)
  obtain f where f: "match_call (squads_proxy_call (new_unique K) DRIFT_V2_PROGRAM_ID) with_mainnet_defaults = Some f"
    "flag_code f = FLAG_MULTISIG_ADMIN_HANDOFF_CANDIDATE" "flag_field f ''target_protocol_name'' = Some (JStr ''Drift v2'')"
    using match_squads(1) [OF assms] by blast
  show "test_squads_admin_proxy U K"
    using single_call [OF f(1) known(6), of U] f(2,3)
    by (auto simp: test_squads_admin_proxy_def Let_def first_flag_def call_severities builder_heights)
  show "test_squads_without_known_protocol U K"
    using match_squads(2) [OF assms]
    by (simp add: test_squads_without_known_protocol_def Let_def authority_check_def authority_flags_def ctx_with_facts
        List.map_filter_simps flag_call_def)
qed

lemma guard_tests:
  assumes "keys_apart K"
  shows "test_spl_token_non_matching_discriminator U K" "test_token_2022_set_authority_extension_variant U K"
    "test_durable_nonce_precursor_bumps_severity U K" "test_empty_instruction_data U K" "test_bpf_loader_short_data U K"
    "test_checker_name_matches_stub U"
proof -
  note evals = Let_def authority_check_def authority_flags_def ctx_with_facts List.map_filter_simps flag_call_def match_call_def
    match_spl_token_def authority_discs
  show "test_spl_token_non_matching_discriminator U K" by (simp add: test_spl_token_non_matching_discriminator_def evals)
  show "test_empty_instruction_data U K" by (simp add: test_empty_instruction_data_def evals)
  show "test_checker_name_matches_stub U" by (simp add: test_checker_name_matches_stub_def authority_diff_checker_def)
  let ?c = "\<lparr>program_id = SPL_TOKEN_2022_PROGRAM_ID, instruction_index = 0, stack_height = 2,
    cpi_accounts = [deterministic_pubkey K ''t22-mint''], cpi_data = [SPL_TOKEN_DISC_SET_AUTHORITY, 8, 0]\<rparr>"
  have "authority_type_name 8 = ''PermanentDelegate''" by (simp add: authority_type_name_def AUTHORITY_TYPE_NAMES_def get_def)
  then obtain f where f: "match_call ?c with_mainnet_defaults = Some f" "flag_field f ''authority_type_name'' = Some (JStr ''PermanentDelegate'')"
    by (simp add: match_call_def match_spl_token_def get_def)
  show "test_token_2022_set_authority_extension_variant U K"
    using single_call [OF f(1) refl, of U] f(2) by (auto simp: test_token_2022_set_authority_extension_variant_def Let_def first_flag_def)
  let ?b = "\<lparr>program_id = BPF_LOADER_UPGRADEABLE_PROGRAM_ID, instruction_index = 0, stack_height = 2,
    cpi_accounts = [new_unique K 0], cpi_data = [BPF_DISC_UPGRADE]\<rparr>"
  obtain f where f: "match_call ?b with_mainnet_defaults = Some f" "flag_code f = FLAG_BPF_UPGRADE_IN_CPI"
    by (simp add: match_call_def match_bpf_loader_def)
  show "test_bpf_loader_short_data U K"
    using single_call [OF f(1) refl, of U] f(2) by (auto simp: test_bpf_loader_short_data_def Let_def first_flag_def)
  let ?n = "ctx_with_durable_nonce K (trace_with_calls [spl_set_authority_call 2 (deterministic_pubkey K ''dn-target'') [] 2])"
  have n: "cpi_graph (ctx_trace ?n) = [spl_set_authority_call 2 (deterministic_pubkey K ''dn-target'') [] 2]" by (simp add: ctx_with_facts)
  show "test_durable_nonce_precursor_bumps_severity U K"
    using one_call_flag [OF n match_builders(1), of U] one_call_severity [OF n match_builders(1), of U]
    by (auto simp: test_durable_nonce_precursor_bumps_severity_def Let_def first_flag_def nonce_first acknowledged_def ctx_with_facts
        reported_severity_def known_in_builders [OF assms] builder_heights call_severities)
qed

text \<open>Two calls, and the intents: ASCII texts, whatever the tables say of other characters.\<close>

lemma tokenize_words:
  assumes "list_all (\<lambda>w. w \<noteq> [] \<and> list_all (\<lambda>c. 97 \<le> code_of c \<and> code_of c \<le> 122) w) ws"
  shows "tokenize_lowercase U (join '' '' ws) = ws" "split_whitespace U (join '' '' ws) = ws"
proof -
  let ?s = "join '' '' ws"
  have "ascii_word x" if "x \<in> set ws" for x
  proof -
    have "x \<noteq> []" "\<And>c. c \<in> set x \<Longrightarrow> 97 \<le> code_of c \<and> code_of c \<le> 122" using assms that by (auto simp: list_all_iff)
    then have "is_ascii c \<and> code_of c \<noteq> 32 \<and> \<not> (9 \<le> code_of c \<and> code_of c \<le> 13)" if "c \<in> set x" for c
      unfolding is_ascii_def using that by fastforce
    then show ?thesis using \<open>x \<noteq> []\<close> unfolding ascii_word_def list_all_iff by blast
  qed
  then have w: "list_all ascii_word ws" by (simp add: list_all_iff)
  then show split: "split_whitespace U ?s = ws" by (rule split_whitespace_join)
  have c: "c = CHR '' '' \<or> 97 \<le> code_of c \<and> code_of c \<le> 122" if "c \<in> set ?s" for c
    using assms that by (induction "'' ''" ws rule: join.induct) (auto simp: list_all_iff)
  have sp: "code_of CHR '' '' = 32" by (simp add: code_of_def)
  have "list_all is_ascii ?s" using c sp by (force simp: list_all_iff is_ascii_def)
  then have u: "utf8_chars ?s = map (\<lambda>c. [c]) ?s" by (rule utf8_chars_ascii)
  have "(if is_alphanumeric U [c] then to_ascii_lowercase [c] else '' '') = [c]" if "c \<in> set ?s" for c
    using c [OF that] sp by (auto simp: is_ascii_def is_digit_def to_ascii_lowercase_def char_lower_def)
  then have "map (\<lambda>c. if is_alphanumeric U [c] then to_ascii_lowercase [c] else '' '') ?s = map (\<lambda>c. [c]) ?s"
    by (intro map_cong refl)
  then have "concat (map (\<lambda>ch. if is_alphanumeric U ch then to_ascii_lowercase ch else '' '') (utf8_chars ?s)) = ?s"
    unfolding u map_map comp_def by (simp only: concat_map_singleton list.map_ident)
  then show "tokenize_lowercase U ?s = ws" by (simp add: tokenize_lowercase_def split)
qed

lemma intents_acknowledge:
  "intent_acknowledges U (plain_intent ''rotate authority on admin account'') FLAG_SPL_SET_AUTHORITY_IN_CPI"
  "intent_acknowledges U (plain_intent ''set authority on drift admin'') FLAG_SPL_SET_AUTHORITY_IN_CPI"
  "\<not> intent_acknowledges U (plain_intent ''public disclosure of financials'') FLAG_SPL_CLOSE_ACCOUNT_IN_CPI"
proof -
  note words = tokenize_words [of "[''rotate'', ''authority'', ''on'', ''admin'', ''account'']" U]
    tokenize_words [of "[''set'', ''authority'', ''on'', ''drift'', ''admin'']" U]
    tokenize_words [of "[''public'', ''disclosure'', ''of'', ''financials'']" U]
    tokenize_words(2) [of "[''rotate'', ''authority'']" U] tokenize_words(2) [of "[''set'', ''authority'']" U]
    tokenize_words(2) [of "[''close'', ''account'']" U] tokenize_words(2) [of "[''close'']" U]
  note words = words [simplified code_of_def, simplified]
  show "intent_acknowledges U (plain_intent ''rotate authority on admin account'') FLAG_SPL_SET_AUTHORITY_IN_CPI"
    "intent_acknowledges U (plain_intent ''set authority on drift admin'') FLAG_SPL_SET_AUTHORITY_IN_CPI"
    "\<not> intent_acknowledges U (plain_intent ''public disclosure of financials'') FLAG_SPL_CLOSE_ACCOUNT_IN_CPI"
    by (simp_all add: intent_acknowledges_def plain_intent_def keywords_for_def authority_codes all_tokens_present_def Let_def
        words to_ascii_lowercase_def char_lower_def code_of_def)
qed

lemma intent_call:
  assumes "match_call c with_mainnet_defaults = Some f"
  shows "\<exists>g. flags (authority_check U (ctx_with_intent (trace_with_calls [c]) i)) = [g] \<and>
    flag_field g ''intent_ack'' = (if intent_acknowledges U i (flag_code f) then Some (JBool True) else flag_field f ''intent_ack'') \<and>
    out_severity (authority_check U (ctx_with_intent (trace_with_calls [c]) i)) =
      (let k = lookup_known_protocol_in_call c with_mainnet_defaults; s = call_severity False k (stack_height c) (flag_code f)
       in if intent_acknowledges U i (flag_code f) then shift_severity_with_floor s (- 1) (if k \<noteq> None then High else Low) else s)"
proof -
  let ?ctx = "ctx_with_intent (trace_with_calls [c]) i"
  have c: "cpi_graph (ctx_trace ?ctx) = [c]" "match_call c (known_programs ?ctx) = Some f"
    using assms by (simp_all add: ctx_with_facts)
  have ack: "acknowledged U ?ctx f = intent_acknowledges U i (flag_code f)" by (simp add: acknowledged_def ctx_with_facts)
  show ?thesis
    using one_call_flag [OF c, of U] one_call_severity [OF c, of U]
    by (auto simp: reported_severity_def Let_def ctx_with_facts no_nonce ack)
qed

lemma intent_tests:
  assumes "keys_apart K"
  shows "test_intent_keyword_downgrades U K" "test_intent_substring_does_not_falsely_downgrade U K"
    "test_intent_downgrade_floors_at_high_for_known_protocol U K"
proof -
  note known = known_in_builders [OF assms]
  note evals = Let_def first_flag_def intents_acknowledge known builder_heights call_severities shift_severity_with_floor_def
    shift_severity_def severity_from_u8_def
  show "test_intent_keyword_downgrades U K"
    using intent_call [OF match_builders(1), of U 2 "deterministic_pubkey K ''int-tgt''" "[]" 2
        "plain_intent ''rotate authority on admin account''"]
    by (auto simp: test_intent_keyword_downgrades_def evals)
  show "test_intent_downgrade_floors_at_high_for_known_protocol U K"
    using intent_call [OF match_builders(1), of U 2 "deterministic_pubkey K ''kp-tgt''" "[DRIFT_V2_PROGRAM_ID]" 2
        "plain_intent ''set authority on drift admin''"]
    by (auto simp: test_intent_downgrade_floors_at_high_for_known_protocol_def evals)
  obtain f where f: "match_call (spl_close_call K 2) with_mainnet_defaults = Some f" "flag_code f = FLAG_SPL_CLOSE_ACCOUNT_IN_CPI"
    "flag_field f ''intent_ack'' = None" using match_builders(2) by blast
  show "test_intent_substring_does_not_falsely_downgrade U K"
    using intent_call [OF f(1), of U "plain_intent ''public disclosure of financials''"] f(2,3)
    by (auto simp: test_intent_substring_does_not_falsely_downgrade_def evals)
qed

lemma multiple_test:
  assumes "keys_apart K"
  shows "test_multiple_set_authority_instructions U K"
proof -
  let ?c1 = "(spl_set_authority_call 2 (deterministic_pubkey K ''tgt1'') [] 2)\<lparr>instruction_index := 0\<rparr>"
  let ?c2 = "(spl_set_authority_call 3 (deterministic_pubkey K ''tgt2'') [] 2)\<lparr>instruction_index := Suc 0\<rparr>"
  let ?ctx = "ctx_with (trace_with_calls [?c1, ?c2])"
  have m: "match_call ?c1 with_mainnet_defaults = Some f1 \<Longrightarrow> flag_code f1 = FLAG_SPL_SET_AUTHORITY_IN_CPI"
    "match_call ?c2 with_mainnet_defaults = Some f2 \<Longrightarrow> flag_code f2 = FLAG_SPL_SET_AUTHORITY_IN_CPI" for f1 f2
    by (auto simp: match_call_def match_spl_token_def spl_set_authority_call_def get_def authority_discs)
  obtain f1 f2 where f: "match_call ?c1 with_mainnet_defaults = Some f1" "match_call ?c2 with_mainnet_defaults = Some f2"
    by (simp add: match_call_def match_spl_token_def spl_set_authority_call_def get_def authority_discs)
  have known: "lookup_known_protocol_in_call ?c1 with_mainnet_defaults = None" "lookup_known_protocol_in_call ?c2 with_mainnet_defaults = None"
    using fresh_key_unknown [OF assms] by (simp_all add: lookup_known_protocol_in_call_def spl_set_authority_call_def)
  have "matched_calls ?ctx = [(?c1, f1), (?c2, f2)]"
    using f by (simp add: matched_calls_def List.map_filter_simps ctx_with_facts)
  then have "out_severity (authority_check U ?ctx) = Critical"
    unfolding authority_severity using m(1) [OF f(1)] m(2) [OF f(2)]
    by (simp add: reported_severity_def Let_def ctx_with_facts no_nonce known builder_heights call_severities max_def less_eq_severity_def)
  moreover have "\<exists>g1 g2. flags (authority_check U ?ctx) = [g1, g2] \<and>
      flag_field g1 ''instruction_index'' = Some (JU64 0) \<and> flag_field g2 ''instruction_index'' = Some (JU64 1)"
    using known
    by (simp add: json_get_remove json_obj_def json_get_set lookup_bt_remove lookup_bt_insert lookup_bt_collect authority_check_def authority_flags_def ctx_with_facts no_nonce List.map_filter_simps flag_call_def match_call_def
        match_spl_token_def spl_set_authority_call_def get_def authority_discs Let_def call_fields_def)
  ultimately show ?thesis
    by (auto simp: test_multiple_set_authority_instructions_def Let_def)
qed

definition authority_suite :: "unicode \<Rightarrow> test_keys \<Rightarrow> bool" where
  "authority_suite U K \<longleftrightarrow>
     test_clean_sol_transfer_passes U \<and> test_hidden_set_authority_top_level U K \<and> test_hidden_set_authority_nested_cpi U K \<and>
     test_set_authority_on_known_protocol U K \<and> test_spl_token_close_account U K \<and> test_spl_token_initialize_account_low U K \<and>
     test_spl_token_non_matching_discriminator U K \<and> test_token_2022_set_authority_extension_variant U K \<and>
     test_bpf_upgrade_detected U K \<and> test_bpf_set_authority_checked_detected U K \<and> test_squads_admin_proxy U K \<and>
     test_squads_without_known_protocol U K \<and> test_durable_nonce_precursor_bumps_severity U K \<and>
     test_empty_instruction_data U K \<and> test_bpf_loader_short_data U K \<and> test_multiple_set_authority_instructions U K \<and>
     test_intent_keyword_downgrades U K \<and> test_intent_substring_does_not_falsely_downgrade U K \<and>
     test_intent_downgrade_floors_at_high_for_known_protocol U K \<and> test_checker_name_matches_stub U \<and>
     test_flag_data_shape_stable U K"

lemma authority_suite_passes:
  assumes "keys_apart K"
  shows "authority_suite U K"
  using core_tests [OF assms] program_tests [OF assms] guard_tests [OF assms] intent_tests [OF assms] multiple_test [OF assms]
  by (simp add: authority_suite_def)

end
