(* ===== verification/Oracle_Suite.thy ===== *)
theory Oracle_Suite
  imports Test_Support Oracle_Sanity
begin

section \<open>The test module of the oracle sanity checker\<close>

text \<open>
  \<^verbatim>\<open>mod tests\<close> of \<^verbatim>\<open>crates/ciel-checkers/src/oracle_sanity.rs\<close>: the feed map of the fixture, caches with
  a price per feed, and one predicate per test. The decimal prices are rounded to \<^verbatim>\<open>f64\<close>; what the
  tests rely on is that the computed deviation is close to the exact one (\<open>sigma_near\<close>).
  Shown: every test passes, for all keys that are fresh.
\<close>

fun json_as_f64 :: "json \<Rightarrow> f64 option" where
  "json_as_f64 (JF64 x) = Some x"
| "json_as_f64 (JU64 n) = Some (f_of_int (int n))"
| "json_as_f64 (JI64 i) = Some (f_of_int i)"
| "json_as_f64 v = None"

subsection \<open>Feeds, caches and contexts\<close>

definition switchboard_feed_pubkey :: "test_keys \<Rightarrow> pubkey" where
  "switchboard_feed_pubkey K = deterministic_pubkey K ''ciel-drift-fixture-switchboard-feed''"

definition pyth_feed_pubkey :: "test_keys \<Rightarrow> pubkey" where
  "pyth_feed_pubkey K = deterministic_pubkey K ''ciel-drift-fixture-pyth-feed''"

definition test_feed_map :: "test_keys \<Rightarrow> canonical_feed_map" where
  "test_feed_map K = feed_register ''SOL/USD'' (switchboard_feed_pubkey K) (pyth_feed_pubkey K) feed_map_empty"

definition test_price :: "oracle_type \<Rightarrow> f64 \<Rightarrow> f64 \<Rightarrow> 64 word \<Rightarrow> oracle_price" where
  "test_price t p c ts = \<lparr>op_oracle_type = t, price = p, confidence = c, op_timestamp = ts, asset = ''SOL/USD''\<rparr>"

definition test_cache :: "test_keys \<Rightarrow> f64 \<Rightarrow> f64 \<Rightarrow> f64 \<Rightarrow> f64 \<Rightarrow> 64 word \<Rightarrow> 64 word \<Rightarrow> oracle_cache" where
  "test_cache K sb_price sb_confidence pyth_price pyth_confidence ts reference_ts =
     cache_insert (pyth_feed_pubkey K) (test_price Pyth pyth_price pyth_confidence ts)
       (cache_insert (switchboard_feed_pubkey K) (test_price Switchboard sb_price sb_confidence ts)
         (with_reference_timestamp reference_ts))"

definition test_context :: "oracle_cache \<Rightarrow> oracle_read list \<Rightarrow> checker_context" where
  "test_context cache rds =
     (ctx_with (empty_trace\<lparr>oracle_reads := rds\<rparr>))\<lparr>ctx_oracle_cache := cache, known_programs := registry_new\<rparr>"

definition switchboard_read :: "test_keys \<Rightarrow> oracle_read" where
  "switchboard_read K = \<lparr>oracle_pubkey = switchboard_feed_pubkey K, oracle_type_name = ''switchboard''\<rparr>"

definition pyth_read :: "test_keys \<Rightarrow> oracle_read" where
  "pyth_read K = \<lparr>oracle_pubkey = pyth_feed_pubkey K, oracle_type_name = ''pyth''\<rparr>"

abbreviation deviation_flag_of :: "checker_output \<Rightarrow> flag option" where
  "deviation_flag_of out \<equiv> List.find (\<lambda>f. flag_code f = FLAG_DEVIATION) (flags out)"

abbreviation has_flag :: "checker_output \<Rightarrow> string \<Rightarrow> bool" where
  "has_flag out code \<equiv> list_ex (\<lambda>f. flag_code f = code) (flags out)"

text \<open>\<^verbatim>\<open>flag.data["deviation_sigma"].as_f64().expect(..)\<close> within bounds.\<close>

definition sigma_within :: "flag \<Rightarrow> (f64 \<Rightarrow> bool) \<Rightarrow> bool" where
  "sigma_within f P = (case json_as_f64 (json_index (flag_data f) ''deviation_sigma'') of None \<Rightarrow> False | Some s \<Rightarrow> P s)"

subsection \<open>Tests\<close>

definition test_2_9_sigma_passes :: "test_keys \<Rightarrow> bool" where
  "test_2_9_sigma_passes K \<longleftrightarrow>
     (let cache = test_cache K (rnd (143805/1000)) (rnd (45/100)) (rnd (1425/10)) (rnd (38/100)) 100 100;
          out = oracle_check (oracle_sanity_new (test_feed_map K)) (test_context cache [switchboard_read K])
      in passed out \<and> \<not> has_flag out FLAG_DEVIATION)"

definition test_3_1_sigma_flags :: "test_keys \<Rightarrow> bool" where
  "test_3_1_sigma_flags K \<longleftrightarrow>
     (let cache = test_cache K (rnd (143895/1000)) (rnd (45/100)) (rnd (1425/10)) (rnd (38/100)) 100 100;
          out = oracle_check (oracle_sanity_new (test_feed_map K)) (test_context cache [switchboard_read K])
      in \<not> passed out \<and> out_severity out = Critical \<and>
         (case deviation_flag_of out of None \<Rightarrow> False
          | Some f \<Rightarrow> sigma_within f (\<lambda>s. f_lt (rnd 3) s \<and> f_lt s (rnd (32/10)))))"

definition test_drift_fixture_deviation :: "test_keys \<Rightarrow> bool" where
  "test_drift_fixture_deviation K \<longleftrightarrow>
     (let cache = test_cache K (rnd 200) (rnd (45/100)) (rnd (1425/10)) (rnd (38/100)) 350000000 350000000;
          out = oracle_check (oracle_sanity_new (test_feed_map K)) (test_context cache [switchboard_read K, pyth_read K])
      in \<not> passed out \<and> out_severity out = Critical \<and>
         (case deviation_flag_of out of None \<Rightarrow> False
          | Some f \<Rightarrow>
              sigma_within f (\<lambda>s. f_lt (rnd 120) s) \<and> json_index (flag_data f) ''asset'' = JStr ''SOL/USD'' \<and>
              list_all (\<lambda>k. json_as_f64 (json_index (flag_data f) k) \<noteq> None)
                [''switchboard_price'', ''pyth_price'', ''switchboard_std_dev'', ''pyth_confidence'']))"

definition test_unknown_oracle_account :: "test_keys \<Rightarrow> bool" where
  "test_unknown_oracle_account K \<longleftrightarrow>
     (let rds = [\<lparr>oracle_pubkey = new_unique K 0, oracle_type_name = ''switchboard''\<rparr>];
          out = oracle_check (oracle_sanity_new (test_feed_map K)) (test_context oracle_cache_default rds)
      in \<not> passed out \<and> has_flag out FLAG_UNKNOWN)"

definition test_stale_feed :: "test_keys \<Rightarrow> bool" where
  "test_stale_feed K \<longleftrightarrow>
     (let cache = test_cache K (rnd (1425/10)) (rnd (45/100)) (rnd (1425/10)) (rnd (38/100)) 100 160;
          out = oracle_check (oracle_sanity_new (test_feed_map K)) (test_context cache [switchboard_read K]);
          stale = filter (\<lambda>f. flag_code f = FLAG_STALE) (flags out)
      in \<not> passed out \<and> stale \<noteq> [] \<and> json_as_i64 (json_index (flag_data (hd stale)) ''age_seconds'') = Some 60)"

definition test_wide_confidence_interval :: "test_keys \<Rightarrow> bool" where
  "test_wide_confidence_interval K \<longleftrightarrow>
     (let cache = test_cache K (rnd (1425/10)) (rnd 15) (rnd (1425/10)) (rnd (38/100)) 100 100;
          out = oracle_check (oracle_sanity_new (test_feed_map K)) (test_context cache [switchboard_read K])
      in \<not> passed out \<and> has_flag out FLAG_WIDE_CONF)"

definition test_no_oracle_reads_passes :: "test_keys \<Rightarrow> bool" where
  "test_no_oracle_reads_passes K \<longleftrightarrow>
     (let out = oracle_check (oracle_sanity_new (test_feed_map K)) (test_context oracle_cache_default [])
      in passed out \<and> flags out = [] \<and> out_severity out = SevNone)"

definition test_one_source_only_no_deviation :: "test_keys \<Rightarrow> bool" where
  "test_one_source_only_no_deviation K \<longleftrightarrow>
     (let cache = cache_insert (switchboard_feed_pubkey K) (test_price Switchboard (rnd 200) (rnd (45/100)) 100)
            (with_reference_timestamp 100);
          out = oracle_check (oracle_sanity_new (test_feed_map K)) (test_context cache [switchboard_read K])
      in \<not> has_flag out FLAG_DEVIATION)"

definition test_deduplication_both_feeds :: "test_keys \<Rightarrow> bool" where
  "test_deduplication_both_feeds K \<longleftrightarrow>
     (let cache = test_cache K (rnd 200) (rnd (45/100)) (rnd (1425/10)) (rnd (38/100)) 100 100;
          out = oracle_check (oracle_sanity_new (test_feed_map K)) (test_context cache [switchboard_read K, pyth_read K])
      in length (filter (\<lambda>f. flag_code f = FLAG_DEVIATION) (flags out)) = 1)"

definition test_known_feed_not_cached_no_flag :: "test_keys \<Rightarrow> bool" where
  "test_known_feed_not_cached_no_flag K \<longleftrightarrow>
     (let out = oracle_check (oracle_sanity_new (test_feed_map K)) (test_context oracle_cache_default [switchboard_read K])
      in \<not> has_flag out FLAG_UNKNOWN)"

definition test_custom_sigma_threshold :: "test_keys \<Rightarrow> bool" where
  "test_custom_sigma_threshold K \<longleftrightarrow>
     (let cache = test_cache K (rnd (1443/10)) (rnd (45/100)) (rnd (1425/10)) (rnd (38/100)) 100 100;
          ck = with_sigma_threshold (rnd 5) (oracle_sanity_new (test_feed_map K));
          out = oracle_check ck (test_context cache [switchboard_read K])
      in \<not> has_flag out FLAG_DEVIATION)"

definition oracle_suite :: "test_keys \<Rightarrow> bool" where
  "oracle_suite K \<longleftrightarrow>
     test_2_9_sigma_passes K \<and> test_3_1_sigma_flags K \<and> test_drift_fixture_deviation K \<and>
     test_unknown_oracle_account K \<and> test_stale_feed K \<and> test_wide_confidence_interval K \<and>
     test_no_oracle_reads_passes K \<and> test_one_source_only_no_deviation K \<and> test_deduplication_both_feeds K \<and>
     test_known_feed_not_cached_no_flag K \<and> test_custom_sigma_threshold K"

subsection \<open>The rounded prices\<close>

text \<open>The deviation of two prices up to 60 apart, with the confidences of the tests.\<close>

lemma sigma_near:
  assumes "price p = rnd a" "price q = rnd b" "confidence p = rnd (9/20)" "confidence q = rnd (19/50)"
    and "0 \<le> b" "b \<le> a" "a \<le> 200" "a - b \<le> 60"
  obtains s where "deviation_sigma p q = Some (Fin s)" "\<bar>s - (a - b) * 20 / 9\<bar> \<le> 1 / 1000"
proof -
  obtain x where x: "rnd a = Fin x" "\<bar>x - a\<bar> \<le> 1 / 1000000000000" using assms(5-8) by (auto intro: rnd_near [of a])
  obtain y where y: "rnd b = Fin y" "\<bar>y - b\<bar> \<le> 1 / 1000000000000" using assms(5-8) by (auto intro: rnd_near [of b])
  obtain c where c: "rnd (9/20) = Fin c" "\<bar>c - 9/20\<bar> \<le> 1 / 1000000000000" by (rule rnd_near [of "9/20"]) auto
  obtain e where e: "rnd (19/50) = Fin e" "\<bar>e - 19/50\<bar> \<le> 1 / 1000000000000" by (rule rnd_near [of "19/50"]) auto
  have "\<bar>x - y\<bar> < 256" using assms(5-8) x(2) y(2) by linarith
  then obtain d where d: "rnd (x - y) = Fin d" "\<bar>d - (x - y)\<bar> \<le> 1 / 1000000000000" by (rule rnd_near)
  define r where "r = \<bar>d\<bar> / c"
  have c0: "449/1000 < c" "c < 451/1000" "e < c" using c(2) e(2) by linarith+
  have d1: "\<bar>\<bar>d\<bar> - (a - b)\<bar> \<le> 4 / 1000000000000" using d(2) x(2) y(2) assms(6) by linarith
  have g: "0 \<le> (a - b) * 20 / 9" "(a - b) * 20 / 9 \<le> 150" using assms(6,8) by simp_all
  have rc: "r * c = \<bar>d\<bar>" using c0(1) by (simp add: r_def)
  have "(r - (a - b) * 20 / 9) * c = (\<bar>d\<bar> - (a - b)) + (a - b) * 20 / 9 * (9/20 - c)"
    unfolding rc [symmetric] by (simp add: field_simps)
  moreover have "\<bar>(a - b) * 20 / 9 * (9/20 - c)\<bar> \<le> 150 * (1 / 1000000000000)"
    unfolding abs_mult using c(2) assms(6,8) by (intro mult_mono) (auto simp: abs_minus_commute [of "9/20" c])
  ultimately have "\<bar>(r - (a - b) * 20 / 9) * c\<bar> \<le> 1 / 10000000" using d1 by linarith
  moreover define A where "A = \<bar>r - (a - b) * 20 / 9\<bar>"
  moreover have "A * (449/1000) \<le> A * c" using c0(1) by (intro mult_left_mono) (auto simp: A_def)
  moreover have "\<bar>(r - (a - b) * 20 / 9) * c\<bar> = A * c" unfolding abs_mult using c0(1) by (simp add: A_def)
  ultimately have r: "\<bar>r - (a - b) * 20 / 9\<bar> \<le> 1 / 1000000" by linarith
  have "\<bar>r\<bar> < 256" using near_bounds [OF r] g by linarith
  then obtain s where s: "rnd r = Fin s" "\<bar>s - r\<bar> \<le> 1 / 1000000000000" by (rule rnd_near)
  have m: "f_max (Fin c) (Fin e) = Fin c" "0 < c" using c0 by (simp_all add: f_max_def)
  have "deviation_sigma p q = Some (Fin s)"
    using m(2) s(1) by (simp add: deviation_sigma_def Let_def assms(1-4) x y c e d m(1) r_def)
  moreover have "\<bar>s - (a - b) * 20 / 9\<bar> \<le> 1 / 1000" using r s(2) by linarith
  ultimately show thesis by (rule that)
qed

lemma narrow_confidence:
  assumes "wide_confidence_ratio ck = rnd (1/20)" "price p = rnd a" "confidence p = rnd c" "100 \<le> a" "a \<le> 200" "0 \<le> c" "c \<le> 1"
  shows "wide_flags ck k p = []"
proof -
  obtain x where x: "rnd a = Fin x" "\<bar>x - a\<bar> \<le> 1 / 1000000000000" using assms(4,5) by (auto intro: rnd_near [of a])
  obtain y where y: "rnd c = Fin y" "\<bar>y - c\<bar> \<le> 1 / 1000000000000" using assms(6,7) by (auto intro: rnd_near [of c])
  obtain t where t: "rnd (1/20) = Fin t" "\<bar>t - 1/20\<bar> \<le> 1 / 1000000000000" by (rule rnd_near [of "1/20"]) auto
  have x0: "99 < x" using x(2) assms(4) by linarith
  have "\<bar>y\<bar> \<le> 2" using y(2) assms(6,7) by linarith
  then have "\<bar>y / x\<bar> \<le> 2 / 99" unfolding abs_divide using x0 by (intro frac_le) auto
  moreover from this have "\<bar>y / x\<bar> < 256" by linarith
  then obtain r where r: "rnd (y / x) = Fin r" "\<bar>r - y / x\<bar> \<le> 1 / 1000000000000" by (rule rnd_near)
  ultimately have "\<not> t < r" using t(2) by linarith
  then show ?thesis using x0 by (simp add: wide_flags_def Let_def assms(1-3) x y t r)
qed

subsection \<open>What the runs report\<close>

lemma feeds_differ: "keys_apart K \<Longrightarrow> switchboard_feed_pubkey K \<noteq> pyth_feed_pubkey K"
  by (simp add: switchboard_feed_pubkey_def pyth_feed_pubkey_def fresh_key_facts)

lemma test_feeds:
  assumes "keys_apart K"
  shows "cross_reference (test_feed_map K) (switchboard_feed_pubkey K) = Some (pyth_feed_pubkey K)"
    "cross_reference (test_feed_map K) (pyth_feed_pubkey K) = Some (switchboard_feed_pubkey K)"
    "is_known (test_feed_map K) (switchboard_feed_pubkey K)" "n < 200 \<Longrightarrow> \<not> is_known (test_feed_map K) (new_unique K n)"
  using feeds_differ [OF assms] fresh_key_facts(4) [OF assms]
  by (simp_all add: test_feed_map_def cross_reference_def is_known_def feed_register_def feed_map_empty_def update_conv'
      switchboard_feed_pubkey_def pyth_feed_pubkey_def)

lemma test_cache_prices:
  assumes "keys_apart K"
  shows "cache_get (test_cache K p c q e t r) (switchboard_feed_pubkey K) = Some (test_price Switchboard p c t)"
    "cache_get (test_cache K p c q e t r) (pyth_feed_pubkey K) = Some (test_price Pyth q e t)"
    "reference_timestamp (test_cache K p c q e t r) = r"
  using feeds_differ [OF assms]
  by (simp_all add: test_cache_def cache_get_def cache_insert_def with_reference_timestamp_def update_conv')

lemma test_context_facts: "oracle_reads (ctx_trace (test_context cache rds)) = rds" "ctx_oracle_cache (test_context cache rds) = cache"
  by (simp_all add: test_context_def ctx_with_def)

lemma one_read:
  assumes "keys_apart K" "feed_map ck = test_feed_map K" "cache_get cache (switchboard_feed_pubkey K) = Some p"
  shows "flags (oracle_check ck (test_context cache [switchboard_read K])) =
    stale_flags ck cache (switchboard_feed_pubkey K) p @ wide_flags ck (switchboard_feed_pubkey K) p @
    deviation_flags ck cache p (pyth_feed_pubkey K)"
  using assms(2,3) test_feeds [OF assms(1)]
  by (simp add: oracle_check_def test_context_facts Let_def check_read_def switchboard_read_def)

lemma two_reads:
  assumes "keys_apart K" "feed_map ck = test_feed_map K" "cache_get cache (switchboard_feed_pubkey K) = Some p"
    "cache_get cache (pyth_feed_pubkey K) = Some q"
  shows "flags (oracle_check ck (test_context cache [switchboard_read K, pyth_read K])) =
    stale_flags ck cache (switchboard_feed_pubkey K) p @ wide_flags ck (switchboard_feed_pubkey K) p @
    deviation_flags ck cache p (pyth_feed_pubkey K) @
    stale_flags ck cache (pyth_feed_pubkey K) q @ wide_flags ck (pyth_feed_pubkey K) q"
proof -
  have "pair_of (pyth_feed_pubkey K) (switchboard_feed_pubkey K) = pair_of (switchboard_feed_pubkey K) (pyth_feed_pubkey K)"
    by (simp add: pair_of_eq)
  then show ?thesis
    using assms(2-4) test_feeds [OF assms(1)]
    by (simp add: oracle_check_def test_context_facts Let_def check_read_def switchboard_read_def pyth_read_def)
qed

lemma passed_iff_no_flags: "passed (oracle_check ck ctx) \<longleftrightarrow> flags (oracle_check ck ctx) = []"
  by (simp add: oracle_check_def Let_def)

lemma critical_flag:
  assumes "f \<in> set (flags (oracle_check ck ctx))" "flag_code f = FLAG_DEVIATION"
  shows "out_severity (oracle_check ck ctx) = Critical"
proof -
  have "Critical \<in> oracle_flag_severity ` flag_code ` set (flags (oracle_check ck ctx))"
    using assms by (force simp flip: oracle_severities(1))
  then show ?thesis
    unfolding oracle_check_severity_Max by (intro Max_eqI) (auto simp: severity_le_Critical)
qed

subsection \<open>The tests pass\<close>

lemma deviation_report:
  assumes "keys_apart K" "0 \<le> b" "b \<le> a" "a \<le> 200" "a - b \<le> 60" "sigma_threshold ck = rnd t" "0 \<le> t" "t < 100"
  obtains s where "\<bar>s - (a - b) * 20 / 9\<bar> \<le> 1 / 1000"
    "t + 1 / 100 < (a - b) * 20 / 9 \<Longrightarrow>
       deviation_flags ck (test_cache K (rnd a) (rnd (9/20)) (rnd b) (rnd (19/50)) ts r)
         (test_price Switchboard (rnd a) (rnd (9/20)) ts) (pyth_feed_pubkey K) =
       [deviation_flag (test_price Switchboard (rnd a) (rnd (9/20)) ts) (test_price Pyth (rnd b) (rnd (19/50)) ts) (Fin s)]"
    "(a - b) * 20 / 9 < t - 1 / 100 \<Longrightarrow>
       deviation_flags ck (test_cache K (rnd a) (rnd (9/20)) (rnd b) (rnd (19/50)) ts r)
         (test_price Switchboard (rnd a) (rnd (9/20)) ts) (pyth_feed_pubkey K) = []"
proof -
  let ?p = "test_price Switchboard (rnd a) (rnd (9/20)) ts" and ?q = "test_price Pyth (rnd b) (rnd (19/50)) ts"
  obtain s where s: "deviation_sigma ?p ?q = Some (Fin s)" "\<bar>s - (a - b) * 20 / 9\<bar> \<le> 1 / 1000"
    using assms(2-5) by (auto simp: test_price_def intro: sigma_near [of ?p a ?q b])
  have "\<bar>t\<bar> < 256" using assms(7,8) by linarith
  then obtain u where u: "rnd t = Fin u" "\<bar>u - t\<bar> \<le> 1 / 1000000000000" by (rule rnd_near)
  have "u < s" if "t + 1 / 100 < (a - b) * 20 / 9" using that s(2) u(2) by linarith
  moreover have "\<not> u < s" if "(a - b) * 20 / 9 < t - 1 / 100" using that s(2) u(2) by linarith
  ultimately show thesis
    using s(2) by (intro that [of s]) (simp_all add: deviation_flags_def test_cache_prices [OF assms(1)] s(1) assms(6) u(1))
qed

lemma new_fields:
  "feed_map (oracle_sanity_new fm) = fm" "sigma_threshold (oracle_sanity_new fm) = rnd 3"
  "wide_confidence_ratio (oracle_sanity_new fm) = rnd (1/20)" "staleness_threshold_secs (oracle_sanity_new fm) = 30"
  by (simp_all add: oracle_sanity_new_def)

lemma no_stale: "staleness_threshold_secs ck = 30 \<Longrightarrow> reference_timestamp cache = op_timestamp p \<Longrightarrow> stale_flags ck cache k p = []"
  by (simp add: stale_flags_def Let_def)

lemma test_price_facts: "op_timestamp (test_price t p c ts) = ts" "price (test_price t p c ts) = p" "confidence (test_price t p c ts) = c"
  by (simp_all add: test_price_def)

text \<open>A Switchboard price over the Pyth price of 142.5, with the confidences of the tests and fresh prices.\<close>

lemma pair_report:
  assumes "keys_apart K" "285/2 \<le> a" "a \<le> 200" "cache = test_cache K (rnd a) (rnd (9/20)) (rnd (285/2)) (rnd (19/50)) ts ts"
    and "feed_map ck = test_feed_map K" "wide_confidence_ratio ck = rnd (1/20)" "staleness_threshold_secs ck = 30"
  shows "flags (oracle_check ck (test_context cache [switchboard_read K])) =
      deviation_flags ck cache (test_price Switchboard (rnd a) (rnd (9/20)) ts) (pyth_feed_pubkey K)"
    "flags (oracle_check ck (test_context cache [switchboard_read K, pyth_read K])) =
      deviation_flags ck cache (test_price Switchboard (rnd a) (rnd (9/20)) ts) (pyth_feed_pubkey K)"
proof -
  note get = test_cache_prices [OF assms(1), of "rnd a" "rnd (9/20)" "rnd (285/2)" "rnd (19/50)" ts ts, folded assms(4)]
  note narrow = narrow_confidence [OF assms(6)]
  have w: "wide_flags ck k (test_price Switchboard (rnd a) (rnd (9/20)) ts) = []"
    "wide_flags ck k (test_price Pyth (rnd (285/2)) (rnd (19/50)) ts) = []" for k
    using assms(2,3) by (auto intro!: narrow simp: test_price_facts)
  have st: "stale_flags ck cache k (test_price t p c ts) = []" for k t p c
    using assms(7) get(3) by (simp add: no_stale test_price_facts)
  show "flags (oracle_check ck (test_context cache [switchboard_read K])) =
      deviation_flags ck cache (test_price Switchboard (rnd a) (rnd (9/20)) ts) (pyth_feed_pubkey K)"
    unfolding one_read [OF assms(1,5) get(1)] w st by simp
  show "flags (oracle_check ck (test_context cache [switchboard_read K, pyth_read K])) =
      deviation_flags ck cache (test_price Switchboard (rnd a) (rnd (9/20)) ts) (pyth_feed_pubkey K)"
    unfolding two_reads [OF assms(1,5) get(1,2)] w st by simp
qed

lemma sigma_of_flag:
  assumes "P (Fin s)"
  shows "sigma_within (deviation_flag p q (Fin s)) P"
  using assms by (cases "op_oracle_type p") (simp_all add: sigma_within_def deviation_flag_def json_index_def json_f64_def)

lemma fin_literals: "x \<in> {3, 16/5, 120, 200, 9/20, 285/2, 19/50} \<Longrightarrow> \<exists>y. rnd x = Fin y \<and> \<bar>y - x\<bar> \<le> 1 / 1000000000000"
  by (rule rnd_near [of x]) auto

lemma sigma_tests:
  assumes "keys_apart K"
  shows "test_2_9_sigma_passes K" "test_custom_sigma_threshold K"
proof -
  let ?ck = "oracle_sanity_new (test_feed_map K)"
  note rep = deviation_report [OF assms]
  show "test_2_9_sigma_passes K"
    using pair_report(1) [OF assms _ _ refl new_fields(1,3,4), of "28761/200" 100]
    by (rule_tac rep [of "285/2" "28761/200" ?ck 3 100 100]) (simp_all add: test_2_9_sigma_passes_def Let_def new_fields passed_iff_no_flags)
  show "test_custom_sigma_threshold K"
    using pair_report(1) [OF assms _ _ refl, of "1443/10" "with_sigma_threshold (rnd 5) ?ck" 100]
    by (rule_tac rep [of "285/2" "1443/10" "with_sigma_threshold (rnd 5) ?ck" 5 100 100])
      (simp_all add: test_custom_sigma_threshold_def Let_def new_fields with_sigma_threshold_def)
qed

lemma critical_report:
  assumes "flags (oracle_check ck ctx) = [deviation_flag p q s]"
  shows "\<not> passed (oracle_check ck ctx)" "out_severity (oracle_check ck ctx) = Critical"
    "deviation_flag_of (oracle_check ck ctx) = Some (deviation_flag p q s)"
    "length (filter (\<lambda>f. flag_code f = FLAG_DEVIATION) (flags (oracle_check ck ctx))) = 1"
  using critical_flag [of "deviation_flag p q s" ck ctx] by (simp_all add: passed_iff_no_flags assms)

lemma deviating_tests:
  assumes "keys_apart K"
  shows "test_3_1_sigma_flags K" "test_drift_fixture_deviation K" "test_deduplication_both_feeds K"
proof -
  let ?ck = "oracle_sanity_new (test_feed_map K)"
  note rep = deviation_report [OF assms] and new = new_fields(1,3,4) [of "test_feed_map K"]
  obtain l h u where lits: "rnd 3 = Fin l" "\<bar>l - 3\<bar> \<le> 1 / 1000000000000" "rnd (16/5) = Fin h" "\<bar>h - 16/5\<bar> \<le> 1 / 1000000000000"
    "rnd 120 = Fin u" "\<bar>u - 120\<bar> \<le> 1 / 1000000000000"
    using fin_literals [of 3] fin_literals [of "16/5"] fin_literals [of 120] by auto
  obtain s where s: "\<bar>s - (28779/200 - 285/2) * 20 / 9\<bar> \<le> 1 / 1000"
    "flags (oracle_check ?ck (test_context (test_cache K (rnd (28779/200)) (rnd (9/20)) (rnd (285/2)) (rnd (19/50)) 100 100) [switchboard_read K])) =
      [deviation_flag (test_price Switchboard (rnd (28779/200)) (rnd (9/20)) 100) (test_price Pyth (rnd (285/2)) (rnd (19/50)) 100) (Fin s)]"
    using pair_report(1) [OF assms _ _ refl new, of "28779/200" 100]
    by (rule_tac rep [of "285/2" "28779/200" ?ck 3 100 100]) (simp_all add: new_fields)
  have "(28779/200 - 285/2) * 20 / 9 = (31/10 :: rat)" by simp
  then have "l < s" "s < h" using near_bounds [OF s(1)] near_bounds [OF lits(2)] near_bounds [OF lits(4)] by linarith+
  then have "sigma_within (deviation_flag p q (Fin s)) (\<lambda>v. f_lt (rnd 3) v \<and> f_lt v (rnd (16/5)))" for p q
    by (intro sigma_of_flag) (simp add: lits)
  then show "test_3_1_sigma_flags K"
    using critical_report [OF s(2)] by (simp add: test_3_1_sigma_flags_def Let_def)
  have drift: "\<exists>s. \<bar>s - (200 - 285/2) * 20 / 9\<bar> \<le> 1 / 1000 \<and>
      flags (oracle_check ?ck (test_context (test_cache K (rnd 200) (rnd (9/20)) (rnd (285/2)) (rnd (19/50)) ts ts) [switchboard_read K, pyth_read K])) =
      [deviation_flag (test_price Switchboard (rnd 200) (rnd (9/20)) ts) (test_price Pyth (rnd (285/2)) (rnd (19/50)) ts) (Fin s)]" for ts
    using pair_report(2) [OF assms _ _ refl new, of 200 ts]
    by (rule_tac rep [of "285/2" 200 ?ck 3 ts ts]) (auto simp: new_fields)
  show "test_deduplication_both_feeds K"
    using drift [of 100] critical_report(4) by (force simp: test_deduplication_both_feeds_def Let_def)
  obtain s where s: "\<bar>s - (200 - 285/2) * 20 / 9\<bar> \<le> 1 / 1000"
    "flags (oracle_check ?ck (test_context (test_cache K (rnd 200) (rnd (9/20)) (rnd (285/2)) (rnd (19/50)) 350000000 350000000) [switchboard_read K, pyth_read K])) =
      [deviation_flag (test_price Switchboard (rnd 200) (rnd (9/20)) 350000000) (test_price Pyth (rnd (285/2)) (rnd (19/50)) 350000000) (Fin s)]"
    using drift [of 350000000] by blast
  have "(200 - 285/2) * 20 / 9 = (1150/9 :: rat)" by simp
  then have "u < s" using near_bounds [OF s(1)] near_bounds [OF lits(6)] by linarith
  then have "sigma_within (deviation_flag p q (Fin s)) (\<lambda>v. f_lt (rnd 120) v)" for p q
    by (intro sigma_of_flag) (simp add: lits)
  moreover obtain x1 x2 x3 x4 where "rnd 200 = Fin x1" "rnd (9/20) = Fin x2" "rnd (285/2) = Fin x3" "rnd (19/50) = Fin x4"
    using fin_literals [of 200] fin_literals [of "9/20"] fin_literals [of "285/2"] fin_literals [of "19/50"] by auto
  ultimately show "test_drift_fixture_deviation K"
    using critical_report [OF s(2)]
    by (simp add: test_drift_fixture_deviation_def Let_def) (simp add: deviation_flag_def test_price_def json_index_def json_f64_def)
qed

lemma anomaly_tests:
  assumes "keys_apart K"
  shows "test_unknown_oracle_account K" "test_stale_feed K" "test_wide_confidence_interval K" "test_no_oracle_reads_passes K"
    "test_one_source_only_no_deviation K" "test_known_feed_not_cached_no_flag K"
proof -
  let ?ck = "oracle_sanity_new (test_feed_map K)"
  note feeds = test_feeds [OF assms] and get = test_cache_prices [OF assms]
  show "test_unknown_oracle_account K"
    by (simp add: test_unknown_oracle_account_def Let_def oracle_check_def test_context_facts check_read_def unknown_flags_def
        cache_get_def oracle_cache_default_def new_fields feeds)
  show "test_known_feed_not_cached_no_flag K"
    by (simp add: test_known_feed_not_cached_no_flag_def Let_def oracle_check_def test_context_facts check_read_def unknown_flags_def
        cache_get_def oracle_cache_default_def new_fields feeds switchboard_read_def)
  show "test_no_oracle_reads_passes K"
    by (simp add: test_no_oracle_reads_passes_def Let_def oracle_check_def test_context_facts)
  let ?stale = "test_cache K (rnd (285/2)) (rnd (9/20)) (rnd (285/2)) (rnd (19/50)) 100 160"
  have "\<exists>f. stale_flags ?ck ?stale (switchboard_feed_pubkey K) (test_price Switchboard (rnd (285/2)) (rnd (9/20)) 100) = [f] \<and>
      flag_code f = FLAG_STALE \<and> json_as_i64 (json_index (flag_data f) ''age_seconds'') = Some 60"
    by (simp add: stale_flags_def Let_def new_fields get test_price_facts json_index_def json_int_def)
  then show "test_stale_feed K"
    using one_read [OF assms new_fields(1) get(1), of "rnd (285/2)" "rnd (9/20)" "rnd (285/2)" "rnd (19/50)" 100 160]
    by (auto simp: test_stale_feed_def Let_def passed_iff_no_flags)
  let ?wide = "test_price Switchboard (rnd (285/2)) (rnd 15) 100"
  have "\<exists>f. f \<in> set (wide_flags ?ck (switchboard_feed_pubkey K) ?wide) \<and> flag_code f = FLAG_WIDE_CONF"
  proof -
    obtain x where x: "rnd (285/2) = Fin x" "\<bar>x - 285/2\<bar> \<le> 1 / 1000000000000" by (rule rnd_near [of "285/2"]) auto
    obtain y where y: "rnd 15 = Fin y" "\<bar>y - 15\<bar> \<le> 1 / 1000000000000" by (rule rnd_near [of 15]) auto
    obtain t where t: "rnd (1/20) = Fin t" "\<bar>t - 1/20\<bar> \<le> 1 / 1000000000000" by (rule rnd_near [of "1/20"]) auto
    have x0: "100 < x" "x < 143" "14 < y" "y < 16" using x(2) y(2) by linarith+
    then have q: "14/143 \<le> y / x" "y / x \<le> 16/100" by (simp_all add: pos_le_divide_eq pos_divide_le_eq)
    then have "\<bar>y / x\<bar> < 256" by linarith
    then obtain r where r: "rnd (y / x) = Fin r" "\<bar>r - y / x\<bar> \<le> 1 / 1000000000000" by (rule rnd_near)
    have "t < r" using q(1) r(2) t(2) by linarith
    then show ?thesis using x0 by (simp add: wide_flags_def Let_def new_fields test_price_facts x y t r)
  qed
  then show "test_wide_confidence_interval K"
    using one_read [OF assms new_fields(1) get(1), of "rnd (285/2)" "rnd 15" "rnd (285/2)" "rnd (19/50)" 100 100]
    by (auto simp: test_wide_confidence_interval_def Let_def passed_iff_no_flags list_ex_iff)
  show "test_one_source_only_no_deviation K"
  proof -
    let ?p = "test_price Switchboard (rnd 200) (rnd (9/20)) 100"
    let ?cache = "cache_insert (switchboard_feed_pubkey K) ?p (with_reference_timestamp 100)"
    have c: "cache_get ?cache (switchboard_feed_pubkey K) = Some ?p" "cache_get ?cache (pyth_feed_pubkey K) = None"
      using feeds_differ [OF assms] by (simp_all add: cache_get_def cache_insert_def with_reference_timestamp_def)
    then have "deviation_flags ?ck ?cache ?p (pyth_feed_pubkey K) = []" by (simp add: deviation_flags_def)
    then show ?thesis
      using one_read [OF assms new_fields(1) c(1)]
      by (simp add: test_one_source_only_no_deviation_def Let_def stale_flags_def wide_flags_def oracle_flag_codes)
  qed
qed

lemma oracle_suite_passes:
  assumes "keys_apart K"
  shows "oracle_suite K"
  using sigma_tests [OF assms] deviating_tests [OF assms] anomaly_tests [OF assms] by (simp add: oracle_suite_def)

end
