(* ===== verification/Intent_Suite.thy ===== *)
theory Intent_Suite
  imports Test_Support Intent_Diff
begin

section \<open>The test module of the intent diff checker\<close>

text \<open>
  \<^verbatim>\<open>mod tests\<close> of \<^verbatim>\<open>crates/ciel-checkers/src/intent_diff.rs\<close>: token balance changes, intents in words and in
  structure, and one predicate per test. The powers of ten the checker scales with come from
  \<^verbatim>\<open>10f64.powi\<close>; the tests rely on the two they use being exact (\<open>exact_powers\<close>).
  Shown: every test passes, for all fresh keys and whatever the Unicode tables say beyond ASCII.
\<close>

subsection \<open>Traces and contexts\<close>

definition wsol_mint :: pubkey where "wsol_mint = Pubkey WSOL_MINT"
definition eth_mint :: pubkey where "eth_mint = Pubkey ''7vfCXTUXx5WJV5JADk17DUJ4ksgau7utNKj4b963voxs''"

definition trace_with_token_deltas :: "token_balance_delta list \<Rightarrow> simulation_trace" where
  "trace_with_token_deltas deltas = empty_trace\<lparr>token_balance_deltas := deltas\<rparr>"

definition intent_ctx :: "simulation_trace \<Rightarrow> intent option \<Rightarrow> checker_context" where
  "intent_ctx tr i = (ctx_with tr)\<lparr>ctx_intent := i, known_programs := registry_new\<rparr>"

definition intent_text :: "string \<Rightarrow> intent" where
  "intent_text desc = \<lparr>description = desc, constraints = [], spec = None\<rparr>"

definition intent_with_spec :: "string \<Rightarrow> intent_spec \<Rightarrow> intent" where
  "intent_with_spec desc sp = \<lparr>description = desc, constraints = [], spec = Some sp\<rparr>"

definition token_delta :: "test_keys \<Rightarrow> string \<Rightarrow> pubkey \<Rightarrow> int \<Rightarrow> token_balance_delta" where
  "token_delta K owner_seed mint amount = \<lparr>tbd_owner = deterministic_pubkey K owner_seed, tbd_mint = mint, tbd_delta = amount\<rparr>"

definition swap_trace :: "test_keys \<Rightarrow> int \<Rightarrow> pubkey \<Rightarrow> int \<Rightarrow> simulation_trace" where
  "swap_trace K usdc_in mo out_amount =
     trace_with_token_deltas [token_delta K ''user'' usdc_mint usdc_in, token_delta K ''user'' mo out_amount]"

definition exact_powers :: "(int \<Rightarrow> f64) \<Rightarrow> bool" where
  "exact_powers powi10 \<longleftrightarrow> powi10 6 = Fin 1000000 \<and> powi10 9 = Fin 1000000000"

subsection \<open>Tests\<close>

definition test_swap_happy_path_parsed_goal :: "unicode \<Rightarrow> (int \<Rightarrow> f64) \<Rightarrow> test_keys \<Rightarrow> bool" where
  "test_swap_happy_path_parsed_goal U powi10 K \<longleftrightarrow>
     (let out = intent_check U powi10
            (intent_ctx (swap_trace K (- 100000000) wsol_mint 670000000) (Some (intent_text ''swap 100 USDC for SOL'')))
      in passed out \<and> out_severity out = SevNone \<and> flags out = [] \<and> contains (details out) ''matches'')"

definition test_swap_happy_path_via_sol_native_lamports :: "unicode \<Rightarrow> (int \<Rightarrow> f64) \<Rightarrow> test_keys \<Rightarrow> bool" where
  "test_swap_happy_path_via_sol_native_lamports U powi10 K \<longleftrightarrow>
     (let tr = trace_with_token_deltas [token_delta K ''user'' usdc_mint (- 100000000)];
          tr = tr\<lparr>balance_deltas := hm_insert (deterministic_pubkey K ''user-wallet'') 670000000 (balance_deltas tr)\<rparr>;
          out = intent_check U powi10 (intent_ctx tr (Some (intent_text ''swap 100 USDC for SOL'')))
      in passed out \<and> flags out = [])"

definition test_swap_mismatch_wrong_token :: "unicode \<Rightarrow> (int \<Rightarrow> f64) \<Rightarrow> test_keys \<Rightarrow> bool" where
  "test_swap_mismatch_wrong_token U powi10 K \<longleftrightarrow>
     (let out = intent_check U powi10
            (intent_ctx (swap_trace K (- 100000000) eth_mint 100000000) (Some (intent_text ''swap 100 USDC for SOL'')))
      in \<not> passed out \<and> out_severity out = High \<and> length (flags out) = 1 \<and>
         first_flag out (\<lambda>f. flag_code f = FLAG_INTENT_BALANCE_MISMATCH))"

definition test_inconclusive_rebalance_pattern :: "unicode \<Rightarrow> (int \<Rightarrow> f64) \<Rightarrow> bool" where
  "test_inconclusive_rebalance_pattern U powi10 \<longleftrightarrow>
     (let out = intent_check U powi10
            (intent_ctx (trace_with_token_deltas []) (Some (intent_text ''rebalance portfolio to 60/30/10 split'')))
      in passed out \<and> out_severity out = SevNone \<and> length (flags out) = 1 \<and>
         first_flag out (\<lambda>f. flag_code f = FLAG_INTENT_VERIFICATION_INCONCLUSIVE))"

definition test_no_intent_is_noop :: "unicode \<Rightarrow> (int \<Rightarrow> f64) \<Rightarrow> bool" where
  "test_no_intent_is_noop U powi10 \<longleftrightarrow>
     (let out = intent_check U powi10 (intent_ctx empty_trace None)
      in passed out \<and> out_severity out = SevNone \<and> flags out = [] \<and> contains (details out) ''raw tx mode'')"

definition test_swap_structured_spec_preferred_over_description :: "unicode \<Rightarrow> (int \<Rightarrow> f64) \<Rightarrow> test_keys \<Rightarrow> bool" where
  "test_swap_structured_spec_preferred_over_description U powi10 K \<longleftrightarrow>
     (let out = intent_check U powi10
            (intent_ctx (swap_trace K (- 100000000) wsol_mint 670000000)
              (Some (intent_with_spec ''rebalance portfolio to 60/30/10 split'' (SpecSwap 100000000 usdc_mint wsol_mint None))))
      in passed out \<and> flags out = [])"

definition test_swap_min_amount_out_violated :: "unicode \<Rightarrow> (int \<Rightarrow> f64) \<Rightarrow> test_keys \<Rightarrow> bool" where
  "test_swap_min_amount_out_violated U powi10 K \<longleftrightarrow>
     (let out = intent_check U powi10
            (intent_ctx (swap_trace K (- 100000000) wsol_mint 670000000)
              (Some (intent_with_spec ''swap 100 USDC for SOL'' (SpecSwap 100000000 usdc_mint wsol_mint (Some 700000000)))))
      in \<not> passed out \<and> first_flag out (\<lambda>f. flag_code f = FLAG_INTENT_BALANCE_MISMATCH))"

definition test_swap_within_1pct_tolerance :: "unicode \<Rightarrow> (int \<Rightarrow> f64) \<Rightarrow> test_keys \<Rightarrow> bool" where
  "test_swap_within_1pct_tolerance U powi10 K \<longleftrightarrow>
     passed (intent_check U powi10
       (intent_ctx (swap_trace K (- 99500000) wsol_mint 670000000) (Some (intent_text ''swap 100 USDC for SOL''))))"

definition test_swap_outside_1pct_tolerance :: "unicode \<Rightarrow> (int \<Rightarrow> f64) \<Rightarrow> test_keys \<Rightarrow> bool" where
  "test_swap_outside_1pct_tolerance U powi10 K \<longleftrightarrow>
     (let out = intent_check U powi10
            (intent_ctx (swap_trace K (- 98000000) wsol_mint 670000000) (Some (intent_text ''swap 100 USDC for SOL'')))
      in \<not> passed out \<and> first_flag out (\<lambda>f. flag_code f = FLAG_INTENT_BALANCE_MISMATCH))"

definition test_swap_wrong_direction :: "unicode \<Rightarrow> (int \<Rightarrow> f64) \<Rightarrow> test_keys \<Rightarrow> bool" where
  "test_swap_wrong_direction U powi10 K \<longleftrightarrow>
     \<not> passed (intent_check U powi10
       (intent_ctx (swap_trace K 100000000 wsol_mint 670000000) (Some (intent_text ''swap 100 USDC for SOL''))))"

definition test_transfer_happy_path :: "unicode \<Rightarrow> (int \<Rightarrow> f64) \<Rightarrow> test_keys \<Rightarrow> bool" where
  "test_transfer_happy_path U powi10 K \<longleftrightarrow>
     (let out = intent_check U powi10
            (intent_ctx (trace_with_token_deltas [token_delta K ''sender'' usdc_mint (- 5000000)])
              (Some (intent_text ''transfer 5 USDC to alice.sol'')))
      in passed out \<and> flags out = [])"

definition test_deposit_outflow_verified_receipt_inconclusive :: "unicode \<Rightarrow> (int \<Rightarrow> f64) \<Rightarrow> test_keys \<Rightarrow> bool" where
  "test_deposit_outflow_verified_receipt_inconclusive U powi10 K \<longleftrightarrow>
     (let out = intent_check U powi10
            (intent_ctx (trace_with_token_deltas [token_delta K ''user'' wsol_mint (- 10000000000)])
              (Some (intent_text ''deposit 10 SOL into marinade'')))
      in passed out \<and> out_severity out = SevNone \<and> length (flags out) = 1 \<and>
         first_flag out (\<lambda>f. flag_code f = FLAG_INTENT_VERIFICATION_INCONCLUSIVE \<and>
           Option.bind (json_get (flag_data f) ''reason'') json_as_str = Some ''deposit_receipt_unverified''))"

definition test_llm_stub_returns_none :: bool where
  "test_llm_stub_returns_none \<longleftrightarrow> intent_diff_llm_analyze (intent_text ''swap 100 USDC for SOL'') empty_trace = None"

definition intent_suite :: "unicode \<Rightarrow> (int \<Rightarrow> f64) \<Rightarrow> test_keys \<Rightarrow> bool" where
  "intent_suite U powi10 K \<longleftrightarrow>
     test_swap_happy_path_parsed_goal U powi10 K \<and> test_swap_happy_path_via_sol_native_lamports U powi10 K \<and>
     test_swap_mismatch_wrong_token U powi10 K \<and> test_inconclusive_rebalance_pattern U powi10 \<and>
     test_no_intent_is_noop U powi10 \<and> test_swap_structured_spec_preferred_over_description U powi10 K \<and>
     test_swap_min_amount_out_violated U powi10 K \<and> test_swap_within_1pct_tolerance U powi10 K \<and>
     test_swap_outside_1pct_tolerance U powi10 K \<and> test_swap_wrong_direction U powi10 K \<and>
     test_transfer_happy_path U powi10 K \<and> test_deposit_outflow_verified_receipt_inconclusive U powi10 K \<and>
     test_llm_stub_returns_none"

subsection \<open>What the goals are parsed into\<close>

lemma goal_words:
  assumes "list_all ascii_word ws"
  shows "map (to_lowercase U) (split_whitespace U (join '' '' ws)) = map (map char_lower) ws"
  unfolding split_whitespace_join [OF assms]
  using assms by (induction ws) (simp_all add: to_lowercase_def ascii_word_ascii)

lemma goal_tokens:
  assumes "list_all ascii_word ws" "join '' '' ws = g" "map (map char_lower) ws = ts"
  shows "map (to_lowercase U) (split_whitespace U g) = ts"
  using goal_words [OF assms(1), of U] unfolding assms(2,3) .

lemma whole_literals:
  "rnd 100 = Fin 100" "rnd 5 = Fin 5" "rnd 10 = Fin 10"
  "rnd 100000000 = Fin 100000000" "rnd 5000000 = Fin 5000000" "rnd 10000000000 = Fin 10000000000"
proof -
  show "rnd 100 = Fin 100" by (rule rnd_evalI [where e = 6 and n = "100 * 2 ^ 46"]) (simp_all add: pow2_def)
  show "rnd 5 = Fin 5" by (rule rnd_evalI [where e = 2 and n = "5 * 2 ^ 50"]) (simp_all add: pow2_def)
  show "rnd 10 = Fin 10" by (rule rnd_evalI [where e = 3 and n = "10 * 2 ^ 49"]) (simp_all add: pow2_def)
  show "rnd 100000000 = Fin 100000000" by (rule rnd_evalI [where e = 26 and n = "100000000 * 2 ^ 26"]) (simp_all add: pow2_def)
  show "rnd 5000000 = Fin 5000000" by (rule rnd_evalI [where e = 22 and n = "5000000 * 2 ^ 30"]) (simp_all add: pow2_def)
  show "rnd 10000000000 = Fin 10000000000" by (rule rnd_evalI [where e = 33 and n = "10000000000 * 2 ^ 19"]) (simp_all add: pow2_def)
qed

lemma amount_words: "parse_amount ''100'' = Some (Fin 100)" "parse_amount ''5'' = Some (Fin 5)" "parse_amount ''10'' = Some (Fin 10)"
proof -
  have n: "parse_number ''100'' = Some 100" "parse_number ''5'' = Some 5" "parse_number ''10'' = Some 10" by code_simp+
  have "split_sign s = (False, s)" if "s \<in> {''100'', ''5'', ''10''}" for s using that by auto
  then show "parse_amount ''100'' = Some (Fin 100)" "parse_amount ''5'' = Some (Fin 5)" "parse_amount ''10'' = Some (Fin 10)"
    by (simp_all add: parse_amount_def parse_f64_def n whole_literals char_lower_def code_of_def)
qed

lemma round_whole: "0 \<le> n \<Longrightarrow> round_half_away (of_int n) = n"
  by (simp add: round_half_away_def floor_unique)

lemma raw_units:
  assumes "exact_powers powi10"
  shows "to_raw_units powi10 (Fin 100) 6 = 100000000" "to_raw_units powi10 (Fin 5) 6 = 5000000"
    "to_raw_units powi10 (Fin 10) 9 = 10000000000"
  using assms round_whole [of 100000000] round_whole [of 5000000] round_whole [of 10000000000]
  by (simp_all add: to_raw_units_def exact_powers_def whole_literals truncate_rat_def i128_min_def i128_max_def)

lemma goals_parsed:
  "parse_intent_goal U ''swap 100 USDC for SOL'' = PSwap (Fin 100) ''USDC'' ''SOL''"
  "parse_intent_goal U ''transfer 5 USDC to alice.sol'' = PTransfer (Fin 5) ''USDC'' ''alice.sol''"
  "parse_intent_goal U ''deposit 10 SOL into marinade'' = PDeposit (Fin 10) ''SOL'' ''marinade''"
  "parse_intent_goal U ''rebalance portfolio to 60/30/10 split'' = Unrecognized"
proof -
  have w: "map (to_lowercase U) (split_whitespace U ''swap 100 USDC for SOL'') = [''swap'', ''100'', ''usdc'', ''for'', ''sol'']"
    by (rule goal_tokens [of "[''swap'', ''100'', ''USDC'', ''for'', ''SOL'']"]) code_simp+
  have w2: "map (to_lowercase U) (split_whitespace U ''transfer 5 USDC to alice.sol'') = [''transfer'', ''5'', ''usdc'', ''to'', ''alice.sol'']"
    by (rule goal_tokens [of "[''transfer'', ''5'', ''USDC'', ''to'', ''alice.sol'']"]) code_simp+
  have w3: "map (to_lowercase U) (split_whitespace U ''deposit 10 SOL into marinade'') = [''deposit'', ''10'', ''sol'', ''into'', ''marinade'']"
    by (rule goal_tokens [of "[''deposit'', ''10'', ''SOL'', ''into'', ''marinade'']"]) code_simp+
  have w4: "map (to_lowercase U) (split_whitespace U ''rebalance portfolio to 60/30/10 split'') =
      [''rebalance'', ''portfolio'', ''to'', ''60/30/10'', ''split'']"
    by (rule goal_tokens [of "[''rebalance'', ''portfolio'', ''to'', ''60/30/10'', ''split'']"]) code_simp+
  have up: "map char_upper ''usdc'' = ''USDC''" "map char_upper ''sol'' = ''SOL''" by code_simp+
  have upper: "to_uppercase U ''usdc'' = ''USDC''" "to_uppercase U ''sol'' = ''SOL''"
    unfolding to_uppercase_def up by (simp_all add: is_ascii_def code_of_def)
  note evals = parse_swap_def parse_transfer_def parse_deposit_def upper amount_words
  show "parse_intent_goal U ''swap 100 USDC for SOL'' = PSwap (Fin 100) ''USDC'' ''SOL''"
    unfolding parse_intent_goal_def Let_def w w2 w3 w4 by (simp add: evals)
  show "parse_intent_goal U ''transfer 5 USDC to alice.sol'' = PTransfer (Fin 5) ''USDC'' ''alice.sol''"
    unfolding parse_intent_goal_def Let_def w w2 w3 w4 by (simp add: evals)
  show "parse_intent_goal U ''deposit 10 SOL into marinade'' = PDeposit (Fin 10) ''SOL'' ''marinade''"
    unfolding parse_intent_goal_def Let_def w w2 w3 w4 by (simp add: evals)
  show "parse_intent_goal U ''rebalance portfolio to 60/30/10 split'' = Unrecognized"
    unfolding parse_intent_goal_def Let_def w w2 w3 w4 by simp
qed

lemma test_tokens: "token_info U ''USDC'' = Some (usdc_mint, 6)" "token_info U ''SOL'' = Some (wsol_mint, 9)"
  by (simp_all add: token_info_def to_uppercase_def is_ascii_def code_of_def char_upper_def TOKEN_REGISTRY_def usdc_mint_def
      wsol_mint_def WSOL_MINT_def)

subsection \<open>The tests pass\<close>

lemma contains_mid: "contains (a @ pat @ b) pat"
proof -
  have "contains s pat" if "take (length pat) s = pat" for s using that by (cases s) auto
  then show ?thesis by (induction a) simp_all
qed

lemma swap_passed_output:
  assumes "passed (verify_swap tr a mi mo least bps src desc)"
  shows "out_severity (verify_swap tr a mi mo least bps src desc) = SevNone" "flags (verify_swap tr a mi mo least bps src desc) = []"
    "contains (details (verify_swap tr a mi mo least bps src desc)) ''matches''"
proof -
  have "\<exists>a' b'. details (verify_swap tr a mi mo least bps src desc) = a' @ ''matches'' @ b'"
    using assms by (simp add: verify_swap_def passed_noop_def failed_output_def Let_def split: if_splits)
      (rule exI [of _ "''Intent '' @ [CHR 0x27] @ goal_text src desc @ [CHR 0x27] @ '' ''"], simp)
  then show "contains (details (verify_swap tr a mi mo least bps src desc)) ''matches''" using contains_mid by metis
  show "out_severity (verify_swap tr a mi mo least bps src desc) = SevNone" "flags (verify_swap tr a mi mo least bps src desc) = []"
    using assms by (simp_all add: verify_swap_def passed_noop_def failed_output_def Let_def split: if_splits)
qed

lemma mints_differ [simp]: "usdc_mint \<noteq> wsol_mint" "wsol_mint \<noteq> usdc_mint" "eth_mint \<noteq> usdc_mint" "eth_mint \<noteq> wsol_mint" "pk_text wsol_mint = WSOL_MINT"
  by (simp_all add: usdc_mint_def wsol_mint_def eth_mint_def WSOL_MINT_def)

lemma intent_ctx_facts: "ctx_intent (intent_ctx tr i) = i" "ctx_trace (intent_ctx tr i) = tr"
  by (simp_all add: intent_ctx_def ctx_with_def)

lemmas intent_suite_eval = intent_check_def intent_ctx_facts intent_text_def intent_with_spec_def goals_parsed test_tokens first_flag_def
  verify_swap_from_text_def verify_transfer_from_text_def verify_deposit_from_text_def Let_def

lemmas intent_amounts = sum_mint_delta_def swap_trace_def trace_with_token_deltas_def empty_trace_def token_delta_def i128_sum_def
  within_tolerance_def i128_wrap_small saturating_mul_small SWAP_TOLERANCE_BPS_def TRANSFER_TOLERANCE_BPS_def DEPOSIT_TOLERANCE_BPS_def

lemmas intent_outputs = verify_swap_def verify_transfer_def verify_deposit_def passed_noop_def failed_output_def inconclusive_def

lemma swap_tests:
  assumes "exact_powers powi10"
  shows "test_swap_happy_path_parsed_goal U powi10 K" "test_swap_happy_path_via_sol_native_lamports U powi10 K"
    "test_swap_mismatch_wrong_token U powi10 K" "test_swap_within_1pct_tolerance U powi10 K"
    "test_swap_outside_1pct_tolerance U powi10 K" "test_swap_wrong_direction U powi10 K"
proof -
  note raw = raw_units [OF assms]
  have happy: "passed (verify_swap (swap_trace K (- 100000000) wsol_mint 670000000) 100000000 usdc_mint wsol_mint None SWAP_TOLERANCE_BPS src desc)" for src desc
    by (simp add: intent_outputs Let_def intent_amounts)
  show "test_swap_happy_path_parsed_goal U powi10 K"
    by (simp add: test_swap_happy_path_parsed_goal_def intent_suite_eval raw happy swap_passed_output [OF happy])
  show "test_swap_happy_path_via_sol_native_lamports U powi10 K"
    by (simp add: test_swap_happy_path_via_sol_native_lamports_def intent_suite_eval raw intent_outputs intent_amounts)
  show "test_swap_mismatch_wrong_token U powi10 K"
    by (simp add: test_swap_mismatch_wrong_token_def intent_suite_eval raw intent_outputs intent_amounts)
  show "test_swap_within_1pct_tolerance U powi10 K"
    by (simp add: test_swap_within_1pct_tolerance_def intent_suite_eval raw intent_outputs intent_amounts)
  show "test_swap_outside_1pct_tolerance U powi10 K"
    by (simp add: test_swap_outside_1pct_tolerance_def intent_suite_eval raw intent_outputs intent_amounts)
  show "test_swap_wrong_direction U powi10 K"
    by (simp add: test_swap_wrong_direction_def intent_suite_eval raw intent_outputs intent_amounts)
qed

lemma structured_tests:
  "test_swap_structured_spec_preferred_over_description U powi10 K" "test_swap_min_amount_out_violated U powi10 K"
  "test_inconclusive_rebalance_pattern U powi10" "test_no_intent_is_noop U powi10" "test_llm_stub_returns_none"
  by (simp_all add: test_swap_structured_spec_preferred_over_description_def test_swap_min_amount_out_violated_def
      test_inconclusive_rebalance_pattern_def test_no_intent_is_noop_def test_llm_stub_returns_none_def intent_diff_llm_analyze_def
      intent_suite_eval intent_outputs intent_amounts)

lemma outflow_tests:
  assumes "exact_powers powi10"
  shows "test_transfer_happy_path U powi10 K" "test_deposit_outflow_verified_receipt_inconclusive U powi10 K"
proof -
  note raw = raw_units [OF assms]
  have s: "sum_mint_delta (trace_with_token_deltas [token_delta K ''sender'' usdc_mint (- 5000000)]) usdc_mint = - 5000000"
    "sum_mint_delta (trace_with_token_deltas [token_delta K ''user'' wsol_mint (- 10000000000)]) wsol_mint = - 10000000000"
    by (simp_all add: intent_amounts)
  have t: "within_tolerance (- 5000000) (i128_wrap (- 5000000)) TRANSFER_TOLERANCE_BPS"
    "within_tolerance (- 10000000000) (i128_wrap (- 10000000000)) DEPOSIT_TOLERANCE_BPS"
    by (simp_all add: intent_amounts Let_def)
  show "test_transfer_happy_path U powi10 K"
    by (simp add: test_transfer_happy_path_def intent_suite_eval raw verify_transfer_def s t passed_noop_def)
  show "test_deposit_outflow_verified_receipt_inconclusive U powi10 K"
    by (simp add: test_deposit_outflow_verified_receipt_inconclusive_def intent_suite_eval raw verify_deposit_def s t)
qed

lemma intent_suite_passes:
  assumes "exact_powers powi10"
  shows "intent_suite U powi10 K"
  using swap_tests [OF assms] structured_tests outflow_tests [OF assms] by (simp add: intent_suite_def)

end
