(* ===== verification/Goal_Suite.thy ===== *)
theory Goal_Suite
  imports Intent_Suite
begin

section \<open>The test module of the intent rules\<close>

text \<open>
  \<^verbatim>\<open>mod tests\<close> of \<^verbatim>\<open>crates/ciel-checkers/src/intent_rules.rs\<close>: goals that parse, goals that do not, and the
  token registry. The test that parses one goal a hundred times is its first assertion repeated.
  Shown: every test passes, whatever the Unicode tables say of characters beyond ASCII.
\<close>

subsection \<open>Tests\<close>

definition parse_swap_basic :: "unicode \<Rightarrow> bool" where
  "parse_swap_basic U \<longleftrightarrow> parse_intent_goal U ''swap 100 USDC for SOL'' = PSwap (rnd 100) ''USDC'' ''SOL''"

definition parse_swap_case_insensitive :: "unicode \<Rightarrow> bool" where
  "parse_swap_case_insensitive U \<longleftrightarrow> parse_intent_goal U ''SWAP 100 usdc FOR Sol'' = PSwap (rnd 100) ''USDC'' ''SOL''"

definition parse_swap_fractional_amount :: "unicode \<Rightarrow> bool" where
  "parse_swap_fractional_amount U \<longleftrightarrow> parse_intent_goal U ''swap 0.5 SOL for USDC'' = PSwap (rnd (5/10)) ''SOL'' ''USDC''"

definition parse_transfer_basic :: "unicode \<Rightarrow> bool" where
  "parse_transfer_basic U \<longleftrightarrow> parse_intent_goal U ''transfer 5 USDC to alice.sol'' = PTransfer (rnd 5) ''USDC'' ''alice.sol''"

definition parse_transfer_send_alias :: "unicode \<Rightarrow> bool" where
  "parse_transfer_send_alias U \<longleftrightarrow> parse_intent_goal U ''send 5 USDC to bob'' = PTransfer (rnd 5) ''USDC'' ''bob''"

definition parse_transfer_multi_word_recipient :: "unicode \<Rightarrow> bool" where
  "parse_transfer_multi_word_recipient U \<longleftrightarrow>
     parse_intent_goal U ''transfer 1 SOL to 7xkM...r2jq'' = PTransfer (rnd 1) ''SOL'' ''7xkm...r2jq''"

definition parse_deposit_basic :: "unicode \<Rightarrow> bool" where
  "parse_deposit_basic U \<longleftrightarrow> parse_intent_goal U ''deposit 10 SOL into marinade'' = PDeposit (rnd 10) ''SOL'' ''marinade''"

definition parse_unrecognized_rebalance_spec_string :: "unicode \<Rightarrow> bool" where
  "parse_unrecognized_rebalance_spec_string U \<longleftrightarrow> parse_intent_goal U ''rebalance portfolio to 60/30/10 split'' = Unrecognized"

definition parse_unrecognized_empty :: "unicode \<Rightarrow> bool" where
  "parse_unrecognized_empty U \<longleftrightarrow> parse_intent_goal U [] = Unrecognized \<and> parse_intent_goal U ''   '' = Unrecognized"

definition parse_unrecognized_malformed_amount :: "unicode \<Rightarrow> bool" where
  "parse_unrecognized_malformed_amount U \<longleftrightarrow> parse_intent_goal U ''swap foo USDC for SOL'' = Unrecognized"

definition parse_unrecognized_zero_amount :: "unicode \<Rightarrow> bool" where
  "parse_unrecognized_zero_amount U \<longleftrightarrow> parse_intent_goal U ''swap 0 USDC for SOL'' = Unrecognized"

definition parse_unrecognized_wrong_connector :: "unicode \<Rightarrow> bool" where
  "parse_unrecognized_wrong_connector U \<longleftrightarrow> parse_intent_goal U ''swap 100 USDC into SOL'' = Unrecognized"

definition parse_unrecognized_missing_tokens :: "unicode \<Rightarrow> bool" where
  "parse_unrecognized_missing_tokens U \<longleftrightarrow>
     parse_intent_goal U ''swap 100 USDC'' = Unrecognized \<and> parse_intent_goal U ''transfer 5'' = Unrecognized"

definition parse_unrecognized_extra_words :: "unicode \<Rightarrow> bool" where
  "parse_unrecognized_extra_words U \<longleftrightarrow>
     parse_intent_goal U ''please swap 100 USDC for SOL'' = Unrecognized \<and>
     parse_intent_goal U ''swap 100 USDC for SOL immediately'' = Unrecognized"

definition token_info_registered :: "unicode \<Rightarrow> bool" where
  "token_info_registered U \<longleftrightarrow> token_info U ''USDC'' = Some (Pubkey ''EPjFWdd5AufqSSqeM2qN1xzybapC8G4wEGGkZwyTDt1v'', 6)"

definition token_info_case_insensitive :: "unicode \<Rightarrow> bool" where
  "token_info_case_insensitive U \<longleftrightarrow> token_info U ''usdc'' \<noteq> None \<and> token_info U ''Usdc'' \<noteq> None"

definition token_info_unknown :: "unicode \<Rightarrow> bool" where
  "token_info_unknown U \<longleftrightarrow> token_info U ''XYZFAKE'' = None"

definition token_info_sol_maps_to_wsol :: "unicode \<Rightarrow> bool" where
  "token_info_sol_maps_to_wsol U \<longleftrightarrow>
     (case token_info U ''SOL'' of None \<Rightarrow> False | Some (mint, decimals) \<Rightarrow> pk_text mint = WSOL_MINT \<and> decimals = 9)"

definition goal_suite :: "unicode \<Rightarrow> bool" where
  "goal_suite U \<longleftrightarrow>
     parse_swap_basic U \<and> parse_swap_case_insensitive U \<and> parse_swap_fractional_amount U \<and> parse_transfer_basic U \<and>
     parse_transfer_send_alias U \<and> parse_transfer_multi_word_recipient U \<and> parse_deposit_basic U \<and>
     parse_unrecognized_rebalance_spec_string U \<and> parse_unrecognized_empty U \<and> parse_unrecognized_malformed_amount U \<and>
     parse_unrecognized_zero_amount U \<and> parse_unrecognized_wrong_connector U \<and> parse_unrecognized_missing_tokens U \<and>
     parse_unrecognized_extra_words U \<and> token_info_registered U \<and> token_info_case_insensitive U \<and> token_info_unknown U \<and>
     token_info_sol_maps_to_wsol U"

subsection \<open>The tests pass\<close>

lemma more_amounts:
  "parse_amount ''0.5'' = Some (rnd (1/2))" "parse_amount ''1'' = Some (rnd 1)" "parse_amount ''foo'' = None" "parse_amount ''0'' = None"
proof -
  have n: "parse_number ''0.5'' = Some (1/2)" "parse_number ''1'' = Some 1" "parse_number ''foo'' = None" "parse_number ''0'' = Some 0"
    by code_simp+
  have w: "map char_lower ''foo'' = ''foo''" by code_simp
  have h: "rnd (1/2) = Fin (1/2)" by (rule rnd_evalI [where e = "- 1" and n = "2 ^ 52"]) (simp_all add: pow2_def)
  show "parse_amount ''0.5'' = Some (rnd (1/2))" "parse_amount ''1'' = Some (rnd 1)" "parse_amount ''0'' = None"
    by (simp_all add: parse_amount_def parse_f64_def n h char_lower_def code_of_def)
  show "parse_amount ''foo'' = None"
    unfolding parse_amount_def parse_f64_def by (simp add: n w del: list.map)
qed

lemma upper_symbols: "to_uppercase U ''usdc'' = ''USDC''" "to_uppercase U ''sol'' = ''SOL''" "to_uppercase U ''Usdc'' = ''USDC''"
  "to_uppercase U ''USDC'' = ''USDC''" "to_uppercase U ''SOL'' = ''SOL''" "to_uppercase U ''XYZFAKE'' = ''XYZFAKE''"
proof -
  have up: "map char_upper ''usdc'' = ''USDC''" "map char_upper ''sol'' = ''SOL''" "map char_upper ''Usdc'' = ''USDC''"
    "map char_upper ''USDC'' = ''USDC''" "map char_upper ''SOL'' = ''SOL''" "map char_upper ''XYZFAKE'' = ''XYZFAKE''" by code_simp+
  show "to_uppercase U ''usdc'' = ''USDC''" "to_uppercase U ''sol'' = ''SOL''" "to_uppercase U ''Usdc'' = ''USDC''"
    "to_uppercase U ''USDC'' = ''USDC''" "to_uppercase U ''SOL'' = ''SOL''" "to_uppercase U ''XYZFAKE'' = ''XYZFAKE''"
    unfolding to_uppercase_def up by (simp_all add: is_ascii_def code_of_def)
qed

lemma parse_words:
  assumes "list_all ascii_word ws" "join '' '' ws = g" "map (map char_lower) ws = ts"
  shows "parse_intent_goal U g =
    (if ts = [] then Unrecognized else if ts ! 0 = ''swap'' then parse_swap U ts
     else if ts ! 0 = ''transfer'' \<or> ts ! 0 = ''send'' then parse_transfer U ts
     else if ts ! 0 = ''deposit'' then parse_deposit U ts else Unrecognized)"
  unfolding parse_intent_goal_def Let_def goal_tokens [OF assms] ..

lemmas parse_evals = parse_swap_def parse_transfer_def parse_deposit_def amount_words more_amounts upper_symbols whole_literals

lemma accepted_goals:
  "parse_swap_basic U" "parse_swap_case_insensitive U" "parse_swap_fractional_amount U" "parse_transfer_basic U"
  "parse_transfer_send_alias U" "parse_transfer_multi_word_recipient U" "parse_deposit_basic U"
proof -
  show "parse_swap_basic U" "parse_transfer_basic U" "parse_deposit_basic U"
    by (simp_all add: parse_swap_basic_def parse_transfer_basic_def parse_deposit_basic_def goals_parsed whole_literals)
  have c: "parse_intent_goal U ''SWAP 100 usdc FOR Sol'' = parse_swap U [''swap'', ''100'', ''usdc'', ''for'', ''sol'']"
    by (subst parse_words [of "[''SWAP'', ''100'', ''usdc'', ''FOR'', ''Sol'']" _ "[''swap'', ''100'', ''usdc'', ''for'', ''sol'']"])
      (code_simp, code_simp, code_simp, simp)
  have f: "parse_intent_goal U ''swap 0.5 SOL for USDC'' = parse_swap U [''swap'', ''0.5'', ''sol'', ''for'', ''usdc'']"
    by (subst parse_words [of "[''swap'', ''0.5'', ''SOL'', ''for'', ''USDC'']" _ "[''swap'', ''0.5'', ''sol'', ''for'', ''usdc'']"])
      (code_simp, code_simp, code_simp, simp)
  have a: "parse_intent_goal U ''send 5 USDC to bob'' = parse_transfer U [''send'', ''5'', ''usdc'', ''to'', ''bob'']"
    by (subst parse_words [of "[''send'', ''5'', ''USDC'', ''to'', ''bob'']" _ "[''send'', ''5'', ''usdc'', ''to'', ''bob'']"])
      (code_simp, code_simp, code_simp, simp)
  have m: "parse_intent_goal U ''transfer 1 SOL to 7xkM...r2jq'' = parse_transfer U [''transfer'', ''1'', ''sol'', ''to'', ''7xkm...r2jq'']"
    by (subst parse_words [of "[''transfer'', ''1'', ''SOL'', ''to'', ''7xkM...r2jq'']" _ "[''transfer'', ''1'', ''sol'', ''to'', ''7xkm...r2jq'']"])
      (code_simp, code_simp, code_simp, simp)
  show "parse_swap_case_insensitive U" "parse_swap_fractional_amount U" "parse_transfer_send_alias U" "parse_transfer_multi_word_recipient U"
    by (simp_all add: parse_swap_case_insensitive_def parse_swap_fractional_amount_def parse_transfer_send_alias_def
        parse_transfer_multi_word_recipient_def c f a m parse_evals)
qed

lemma refused_goals:
  "parse_unrecognized_rebalance_spec_string U" "parse_unrecognized_empty U" "parse_unrecognized_malformed_amount U"
  "parse_unrecognized_zero_amount U" "parse_unrecognized_wrong_connector U" "parse_unrecognized_missing_tokens U"
  "parse_unrecognized_extra_words U"
proof -
  show "parse_unrecognized_rebalance_spec_string U" by (simp add: parse_unrecognized_rebalance_spec_string_def goals_parsed)
  have "split_whitespace U [] = []" "split_whitespace U ''   '' = []" by (simp_all add: split_whitespace_def is_continuation_def is_ascii_def code_of_def)
  then show "parse_unrecognized_empty U" by (simp add: parse_unrecognized_empty_def parse_intent_goal_def)
  have "parse_intent_goal U ''swap foo USDC for SOL'' = parse_swap U [''swap'', ''foo'', ''usdc'', ''for'', ''sol'']"
    by (subst parse_words [of "[''swap'', ''foo'', ''USDC'', ''for'', ''SOL'']" _ "[''swap'', ''foo'', ''usdc'', ''for'', ''sol'']"])
      (code_simp, code_simp, code_simp, simp)
  then show "parse_unrecognized_malformed_amount U" by (simp add: parse_unrecognized_malformed_amount_def parse_evals)
  have "parse_intent_goal U ''swap 0 USDC for SOL'' = parse_swap U [''swap'', ''0'', ''usdc'', ''for'', ''sol'']"
    by (subst parse_words [of "[''swap'', ''0'', ''USDC'', ''for'', ''SOL'']" _ "[''swap'', ''0'', ''usdc'', ''for'', ''sol'']"])
      (code_simp, code_simp, code_simp, simp)
  then show "parse_unrecognized_zero_amount U" by (simp add: parse_unrecognized_zero_amount_def parse_evals)
  have "parse_intent_goal U ''swap 100 USDC into SOL'' = parse_swap U [''swap'', ''100'', ''usdc'', ''into'', ''sol'']"
    by (subst parse_words [of "[''swap'', ''100'', ''USDC'', ''into'', ''SOL'']" _ "[''swap'', ''100'', ''usdc'', ''into'', ''sol'']"])
      (code_simp, code_simp, code_simp, simp)
  then show "parse_unrecognized_wrong_connector U" by (simp add: parse_unrecognized_wrong_connector_def parse_evals)
  have "parse_intent_goal U ''swap 100 USDC'' = parse_swap U [''swap'', ''100'', ''usdc'']"
    by (subst parse_words [of "[''swap'', ''100'', ''USDC'']" _ "[''swap'', ''100'', ''usdc'']"]) (code_simp, code_simp, code_simp, simp)
  moreover have "parse_intent_goal U ''transfer 5'' = parse_transfer U [''transfer'', ''5'']"
    by (subst parse_words [of "[''transfer'', ''5'']" _ "[''transfer'', ''5'']"]) (code_simp, code_simp, code_simp, simp)
  ultimately show "parse_unrecognized_missing_tokens U" by (simp add: parse_unrecognized_missing_tokens_def parse_evals)
  have "parse_intent_goal U ''please swap 100 USDC for SOL'' = Unrecognized"
    by (subst parse_words [of "[''please'', ''swap'', ''100'', ''USDC'', ''for'', ''SOL'']" _
          "[''please'', ''swap'', ''100'', ''usdc'', ''for'', ''sol'']"]) (code_simp, code_simp, code_simp, simp)
  moreover have "parse_intent_goal U ''swap 100 USDC for SOL immediately'' =
      parse_swap U [''swap'', ''100'', ''usdc'', ''for'', ''sol'', ''immediately'']"
    by (subst parse_words [of "[''swap'', ''100'', ''USDC'', ''for'', ''SOL'', ''immediately'']" _
          "[''swap'', ''100'', ''usdc'', ''for'', ''sol'', ''immediately'']"]) (code_simp, code_simp, code_simp, simp)
  ultimately show "parse_unrecognized_extra_words U" by (simp add: parse_unrecognized_extra_words_def parse_evals)
qed

lemma token_tests: "token_info_registered U" "token_info_case_insensitive U" "token_info_unknown U" "token_info_sol_maps_to_wsol U"
  by (simp_all add: token_info_registered_def token_info_case_insensitive_def token_info_unknown_def token_info_sol_maps_to_wsol_def
      token_info_def upper_symbols TOKEN_REGISTRY_def WSOL_MINT_def)

lemma goal_suite_passes: "goal_suite U"
  using accepted_goals refused_goals token_tests by (simp add: goal_suite_def)

end
