(* ===== verification/Feed_Suite.thy ===== *)
theory Feed_Suite
  imports Test_Support Drift_Fixture
begin

section \<open>The test module of the oracle cache\<close>

text \<open>
  \<^verbatim>\<open>mod tests\<close> of \<^verbatim>\<open>crates/ciel-checkers/src/oracle_cache.rs\<close>: the cache, the feed map, and the two parsers on
  accounts built field by field. The tests of the parsers rely on \<^verbatim>\<open>10f64.powi\<close> being accurate at the
  exponents 6 and -8 (\<open>accurate_powers\<close>). Shown: every test passes.
\<close>

subsection \<open>Accounts\<close>

text \<open>\<^verbatim>\<open>to_le_bytes\<close> of a signed number.\<close>

definition int_le_bytes :: "nat \<Rightarrow> int \<Rightarrow> bytes" where
  "int_le_bytes n v = le_bytes n (nat (v mod 2 ^ (8 * n)))"

definition build_switchboard_test_account :: "int \<Rightarrow> nat \<Rightarrow> int \<Rightarrow> nat \<Rightarrow> int \<Rightarrow> bytes" where
  "build_switchboard_test_account price_mantissa price_scale std_dev_mantissa std_dev_scale ts =
     (let d = replicate SB_MIN_SIZE 0;
          d = copy_at 0 SB_DISCRIMINATOR d;
          d = copy_at SB_RESULT_MANTISSA (int_le_bytes 16 price_mantissa) d;
          d = copy_at SB_RESULT_SCALE (le_bytes 4 price_scale) d;
          d = copy_at SB_STDDEV_MANTISSA (int_le_bytes 16 std_dev_mantissa) d;
          d = copy_at SB_STDDEV_SCALE (le_bytes 4 std_dev_scale) d
      in copy_at SB_ROUND_TIMESTAMP (int_le_bytes 8 ts) d)"

definition build_pyth_test_account :: "int \<Rightarrow> nat \<Rightarrow> int \<Rightarrow> int \<Rightarrow> u8 \<Rightarrow> bytes" where
  "build_pyth_test_account raw_price raw_conf expo ts status =
     (let d = replicate 3312 0;
          d = copy_at PYTH_MAGIC_OFFSET (le_bytes 4 PYTH_MAGIC) d;
          d = copy_at 4 (le_bytes 4 2) d;
          d = copy_at PYTH_ATYPE_OFFSET (le_bytes 4 PYTH_ACCOUNT_TYPE_PRICE) d;
          d = copy_at PYTH_EXPO_OFFSET (int_le_bytes 4 expo) d;
          d = copy_at PYTH_TIMESTAMP_OFFSET (int_le_bytes 8 ts) d;
          d = copy_at PYTH_AGG_PRICE (int_le_bytes 8 raw_price) d;
          d = copy_at PYTH_AGG_CONF (le_bytes 8 raw_conf) d
      in d[PYTH_AGG_STATUS := status])"

definition accurate_powers :: "(int \<Rightarrow> f64) \<Rightarrow> bool" where
  "accurate_powers powi10 \<longleftrightarrow>
     powi10 6 = Fin 1000000 \<and> (\<exists>p. powi10 (- 8) = Fin p \<and> \<bar>p - 1 / 100000000\<bar> \<le> 1 / 100000000000000000000)"

subsection \<open>Tests\<close>

definition test_oracle_cache_default_is_empty :: bool where
  "test_oracle_cache_default_is_empty \<longleftrightarrow> prices oracle_cache_default = [] \<and> reference_timestamp oracle_cache_default = 0"

definition test_oracle_cache_insert_and_get :: "test_keys \<Rightarrow> bool" where
  "test_oracle_cache_insert_and_get K \<longleftrightarrow>
     (let k = new_unique K 0;
          cache = cache_insert k \<lparr>op_oracle_type = Switchboard, price = rnd (1425/10), confidence = rnd (45/100),
            op_timestamp = 100, asset = ''SOL/USD''\<rparr> (with_reference_timestamp 100)
      in case cache_get cache k of
           None \<Rightarrow> False
         | Some e \<Rightarrow> close_to (price e) (rnd (1425/10)) EPSILON \<and> op_oracle_type e = Switchboard)"

definition test_canonical_feed_map_register_and_lookup :: "test_keys \<Rightarrow> bool" where
  "test_canonical_feed_map_register_and_lookup K \<longleftrightarrow>
     (let sb = new_unique K 0; py = new_unique K 1; m = feed_register ''SOL/USD'' sb py feed_map_empty
      in is_known m sb \<and> is_known m py \<and> \<not> is_known m (new_unique K 2) \<and>
         asset_for m sb = Some ''SOL/USD'' \<and> asset_for m py = Some ''SOL/USD'' \<and>
         cross_reference m sb = Some py \<and> cross_reference m py = Some sb)"

definition test_canonical_feed_map_cross_reference_unknown :: "test_keys \<Rightarrow> bool" where
  "test_canonical_feed_map_cross_reference_unknown K \<longleftrightarrow> cross_reference feed_map_empty (new_unique K 0) = None"

definition test_default_mainnet_map_has_entries :: bool where
  "test_default_mainnet_map_has_entries \<longleftrightarrow>
     pubkey_to_asset default_mainnet \<noteq> [] \<and> asset_to_switchboard default_mainnet \<noteq> [] \<and> asset_to_pyth default_mainnet \<noteq> []"

definition test_parse_switchboard_v2_valid :: "(int \<Rightarrow> f64) \<Rightarrow> bool" where
  "test_parse_switchboard_v2_valid powi10 \<longleftrightarrow>
     (case parse_switchboard_v2 powi10 (build_switchboard_test_account 214028000 6 150000 6 1700000000) ''SOL/USD'' of
        Inl e \<Rightarrow> False
      | Inr p \<Rightarrow>
          op_oracle_type p = Switchboard \<and> close_to (price p) (rnd (214028/1000)) (rnd (1/1000)) \<and>
          close_to (confidence p) (rnd (15/100)) (rnd (1/1000)) \<and> op_timestamp p = 1700000000 \<and> asset p = ''SOL/USD'')"

definition test_parse_switchboard_v2_too_short :: "(int \<Rightarrow> f64) \<Rightarrow> bool" where
  "test_parse_switchboard_v2_too_short powi10 \<longleftrightarrow>
     (case parse_switchboard_v2 powi10 (replicate 100 0) ''SOL/USD'' of Inl (TooShort got need) \<Rightarrow> True | _ \<Rightarrow> False)"

definition test_parse_switchboard_v2_bad_discriminator :: "(int \<Rightarrow> f64) \<Rightarrow> bool" where
  "test_parse_switchboard_v2_bad_discriminator powi10 \<longleftrightarrow>
     (case parse_switchboard_v2 powi10 (copy_at 0 [0, 0, 0, 0, 0, 0, 0, 0] (replicate SB_MIN_SIZE 0)) ''SOL/USD'' of
        Inl (BadDiscriminator expected got) \<Rightarrow> True | _ \<Rightarrow> False)"

definition test_parse_pyth_price_valid :: "(int \<Rightarrow> f64) \<Rightarrow> bool" where
  "test_parse_pyth_price_valid powi10 \<longleftrightarrow>
     (case parse_pyth_price powi10 (build_pyth_test_account 21402800000 5000000 (- 8) 1700000000 1) ''SOL/USD'' of
        Inl e \<Rightarrow> False
      | Inr p \<Rightarrow>
          op_oracle_type p = Pyth \<and> close_to (price p) (rnd (214028/1000)) (rnd (1/1000)) \<and>
          close_to (confidence p) (rnd (5/100)) (rnd (1/1000)) \<and> op_timestamp p = 1700000000 \<and> asset p = ''SOL/USD'')"

definition test_parse_pyth_price_too_short :: "(int \<Rightarrow> f64) \<Rightarrow> bool" where
  "test_parse_pyth_price_too_short powi10 \<longleftrightarrow>
     (case parse_pyth_price powi10 (replicate 100 0) ''SOL/USD'' of Inl (TooShort got need) \<Rightarrow> True | _ \<Rightarrow> False)"

definition test_parse_pyth_price_bad_magic :: "(int \<Rightarrow> f64) \<Rightarrow> bool" where
  "test_parse_pyth_price_bad_magic powi10 \<longleftrightarrow>
     (case parse_pyth_price powi10 (copy_at 0 (le_bytes 4 0xDEADBEEF) (replicate 3312 0)) ''SOL/USD'' of
        Inl (BadMagic expected got) \<Rightarrow> True | _ \<Rightarrow> False)"

definition test_parse_pyth_price_bad_account_type :: "(int \<Rightarrow> f64) \<Rightarrow> bool" where
  "test_parse_pyth_price_bad_account_type powi10 \<longleftrightarrow>
     (let d = copy_at 8 (le_bytes 4 1) (copy_at 4 (le_bytes 4 2) (copy_at 0 (le_bytes 4 PYTH_MAGIC) (replicate 3312 0)))
      in case parse_pyth_price powi10 d ''SOL/USD'' of Inl (BadAccountType expected got) \<Rightarrow> True | _ \<Rightarrow> False)"

definition test_pyth_is_trading :: bool where
  "test_pyth_is_trading \<longleftrightarrow>
     pyth_is_trading (build_pyth_test_account 100 1 (- 2) 100 1) \<and> \<not> pyth_is_trading (build_pyth_test_account 100 1 (- 2) 100 2) \<and>
     \<not> pyth_is_trading (build_pyth_test_account 100 1 (- 2) 100 0)"

definition feed_suite :: "(int \<Rightarrow> f64) \<Rightarrow> test_keys \<Rightarrow> bool" where
  "feed_suite powi10 K \<longleftrightarrow>
     test_oracle_cache_default_is_empty \<and> test_oracle_cache_insert_and_get K \<and> test_canonical_feed_map_register_and_lookup K \<and>
     test_canonical_feed_map_cross_reference_unknown K \<and> test_default_mainnet_map_has_entries \<and>
     test_parse_switchboard_v2_valid powi10 \<and> test_parse_switchboard_v2_too_short powi10 \<and>
     test_parse_switchboard_v2_bad_discriminator powi10 \<and> test_parse_pyth_price_valid powi10 \<and>
     test_parse_pyth_price_too_short powi10 \<and> test_parse_pyth_price_bad_magic powi10 \<and>
     test_parse_pyth_price_bad_account_type powi10 \<and> test_pyth_is_trading"

subsection \<open>Reading back what was written\<close>

lemma slice_copy_same: "off \<le> length d \<Longrightarrow> n = length bs \<Longrightarrow> slice (copy_at off bs d) off n = bs"
  by (simp add: slice_def copy_at_def)

lemma slice_copy_other:
  assumes "off' + n \<le> off \<or> off + length bs \<le> off'" "off + length bs \<le> length d"
  shows "slice (copy_at off bs d) off' n = slice d off' n"
  using assms by (auto simp: slice_def copy_at_def drop_take min_def)

lemma slice_update_other: "i < off \<or> off + n \<le> i \<Longrightarrow> slice (d[i := x]) off n = slice d off n"
  by (auto simp: slice_def drop_update_swap)

lemma le_nat_int_bytes: "le_nat (int_le_bytes n v) = nat (v mod 2 ^ (8 * n))"
proof -
  have e: "(256 :: nat) ^ n = 2 ^ (8 * n)" by (simp add: power_mult)
  have "nat (v mod 2 ^ (8 * n)) < nat (2 ^ (8 * n))" by (subst nat_less_eq_zless) simp_all
  then show ?thesis unfolding int_le_bytes_def le_nat_le_bytes e by (simp add: nat_power_eq)
qed

lemma length_int_le_bytes [simp]: "length (int_le_bytes n v) = n"
  by (simp add: int_le_bytes_def)

lemma signed_back: "0 < n \<Longrightarrow> - (2 ^ (8 * n - 1)) \<le> v \<Longrightarrow> v < 2 ^ (8 * n - 1) \<Longrightarrow> wrap_signed (8 * n) (int (le_nat (int_le_bytes n v))) = v"
proof -
  assume a: "0 < n" "- (2 ^ (8 * n - 1)) \<le> v" "v < 2 ^ (8 * n - 1)"
  have "wrap_signed (8 * n) (int (le_nat (int_le_bytes n v))) = wrap_signed (8 * n) v"
    by (simp add: le_nat_int_bytes wrap_signed_def mod_simps)
  also have "\<dots> = v" using a by (intro wrap_signed_id) auto
  finally show ?thesis .
qed

lemmas sb_offsets = SB_MIN_SIZE_def SB_ROUND_TIMESTAMP_def SB_RESULT_MANTISSA_def SB_RESULT_SCALE_def SB_STDDEV_MANTISSA_def
  SB_STDDEV_SCALE_def

lemmas pyth_offsets = PYTH_MIN_SIZE_def PYTH_MAGIC_OFFSET_def PYTH_ATYPE_OFFSET_def PYTH_EXPO_OFFSET_def PYTH_TIMESTAMP_OFFSET_def
  PYTH_AGG_PRICE_def PYTH_AGG_CONF_def PYTH_AGG_STATUS_def

lemma length_discriminator [simp]: "length SB_DISCRIMINATOR = 8"
  by (simp add: SB_DISCRIMINATOR_def)

lemma switchboard_fields:
  fixes pm sm ts :: int and ps ss :: nat
  defines "d \<equiv> build_switchboard_test_account pm ps sm ss ts"
  shows "length d = SB_MIN_SIZE" "slice d 0 8 = SB_DISCRIMINATOR" "slice d SB_RESULT_MANTISSA 16 = int_le_bytes 16 pm"
    "slice d SB_RESULT_SCALE 4 = le_bytes 4 ps" "slice d SB_STDDEV_MANTISSA 16 = int_le_bytes 16 sm"
    "slice d SB_STDDEV_SCALE 4 = le_bytes 4 ss" "slice d SB_ROUND_TIMESTAMP 8 = int_le_bytes 8 ts"
  unfolding d_def build_switchboard_test_account_def Let_def sb_offsets
  by (simp_all add: slice_copy_same slice_copy_other length_copy_at)

lemma pyth_fields:
  fixes rp expo ts :: int and rc :: nat and st :: u8
  defines "d \<equiv> build_pyth_test_account rp rc expo ts st"
  shows "length d = 3312" "slice d PYTH_MAGIC_OFFSET 4 = le_bytes 4 PYTH_MAGIC" "slice d PYTH_ATYPE_OFFSET 4 = le_bytes 4 PYTH_ACCOUNT_TYPE_PRICE"
    "slice d PYTH_EXPO_OFFSET 4 = int_le_bytes 4 expo" "slice d PYTH_TIMESTAMP_OFFSET 8 = int_le_bytes 8 ts"
    "slice d PYTH_AGG_PRICE 8 = int_le_bytes 8 rp" "slice d PYTH_AGG_CONF 8 = le_bytes 8 rc" "d ! PYTH_AGG_STATUS = st"
  unfolding d_def build_pyth_test_account_def Let_def pyth_offsets
  by (simp_all add: slice_copy_same slice_copy_other slice_update_other length_copy_at)

subsection \<open>The tests pass\<close>

lemma feed_map_tests:
  assumes "keys_apart K"
  shows "test_oracle_cache_default_is_empty" "test_oracle_cache_insert_and_get K" "test_canonical_feed_map_register_and_lookup K"
    "test_canonical_feed_map_cross_reference_unknown K" "test_default_mainnet_map_has_entries"
proof -
  obtain y where y: "rnd (285/2) = Fin y" by (rule rnd_near [of "285/2"]) auto
  show "test_oracle_cache_insert_and_get K"
    by (simp add: test_oracle_cache_insert_and_get_def Let_def cache_get_def cache_insert_def with_reference_timestamp_def y close_refl)
  show "test_oracle_cache_default_is_empty" "test_canonical_feed_map_register_and_lookup K"
    "test_canonical_feed_map_cross_reference_unknown K"
    by (simp_all add: test_oracle_cache_default_is_empty_def oracle_cache_default_def test_canonical_feed_map_register_and_lookup_def
        test_canonical_feed_map_cross_reference_unknown_def Let_def feed_register_def feed_map_empty_def is_known_def asset_for_def
        cross_reference_def fresh_key_facts [OF assms])
  have "rows \<noteq> [] \<Longrightarrow> pubkey_to_asset (register_all rows m) \<noteq> [] \<and> asset_to_switchboard (register_all rows m) \<noteq> [] \<and>
      asset_to_pyth (register_all rows m) \<noteq> []" for rows m
    by (cases rows rule: rev_cases) (auto simp: register_all_def feed_register_def split: prod.splits)
  moreover have "mainnet_feeds \<noteq> []" by (simp add: mainnet_feeds_def)
  ultimately show "test_default_mainnet_map_has_entries"
    by (simp add: test_default_mainnet_map_has_entries_def default_mainnet_def)
qed

lemma whole_numbers:
  "f_of_int 214028000 = Fin 214028000" "f_of_int 150000 = Fin 150000" "f_of_int 21402800000 = Fin 21402800000" "f_of_int 5000000 = Fin 5000000"
proof -
  show "f_of_int 214028000 = Fin 214028000" unfolding f_of_int_def
    by (rule rnd_evalI [where e = 27 and n = "214028000 * 2 ^ 25"]) (simp_all add: pow2_def)
  show "f_of_int 150000 = Fin 150000" unfolding f_of_int_def
    by (rule rnd_evalI [where e = 17 and n = "150000 * 2 ^ 35"]) (simp_all add: pow2_def)
  show "f_of_int 21402800000 = Fin 21402800000" unfolding f_of_int_def
    by (rule rnd_evalI [where e = 34 and n = "21402800000 * 2 ^ 18"]) (simp_all add: pow2_def)
  show "f_of_int 5000000 = Fin 5000000" unfolding f_of_int_def
    by (rule rnd_evalI [where e = 22 and n = "5000000 * 2 ^ 30"]) (simp_all add: pow2_def)
qed

lemma switchboard_tests:
  assumes "accurate_powers powi10"
  shows "test_parse_switchboard_v2_valid powi10" "test_parse_switchboard_v2_too_short powi10"
    "test_parse_switchboard_v2_bad_discriminator powi10"
proof -
  show "test_parse_switchboard_v2_too_short powi10"
    by (simp add: test_parse_switchboard_v2_too_short_def parse_switchboard_v2_def SB_MIN_SIZE_def)
  have "slice (copy_at 0 [0, 0, 0, 0, 0, 0, 0, 0] (replicate SB_MIN_SIZE 0)) 0 8 = [0, 0, 0, 0, 0, 0, 0, 0 :: u8]"
    by (rule slice_copy_same) simp_all
  then show "test_parse_switchboard_v2_bad_discriminator powi10"
    by (simp add: test_parse_switchboard_v2_bad_discriminator_def parse_switchboard_v2_def SB_MIN_SIZE_def SB_DISCRIMINATOR_def length_copy_at)
  let ?d = "build_switchboard_test_account 214028000 6 150000 6 1700000000"
  note fields = switchboard_fields [of 214028000 6 150000 6 1700000000]
  have i: "read_i ?d SB_RESULT_MANTISSA 16 = 214028000" "read_i ?d SB_STDDEV_MANTISSA 16 = 150000" "read_i ?d SB_ROUND_TIMESTAMP 8 = 1700000000"
    unfolding read_i_def read_u_def fields using signed_back [of 16 214028000] signed_back [of 16 150000] signed_back [of 8 1700000000]
    by simp_all
  have u: "read_u ?d SB_RESULT_SCALE 4 = 6" "read_u ?d SB_STDDEV_SCALE 4 = 6"
    unfolding read_u_def fields by (simp_all add: le_nat_le_bytes)
  have w: "wrap_signed 32 6 = 6" by (simp add: wrap_signed_def)
  obtain y where y: "rnd (53507/250) = Fin y" "\<bar>y - 53507/250\<bar> \<le> 1 / 1000000000000" by (rule rnd_near [of "53507/250"]) auto
  obtain z where z: "rnd (3/20) = Fin z" "\<bar>z - 3/20\<bar> \<le> 1 / 1000000000000" by (rule rnd_near [of "3/20"]) auto
  have "parse_switchboard_v2 powi10 ?d ''SOL/USD'' =
      Inr \<lparr>op_oracle_type = Switchboard, price = Fin y, confidence = Fin z, op_timestamp = 1700000000, asset = ''SOL/USD''\<rparr>"
    using assms by (simp add: parse_switchboard_v2_def fields switchboard_decimal_def i u w whole_numbers accurate_powers_def y z)
  moreover have "\<bar>y - 53507/250\<bar> \<le> 1/100000" "\<bar>z - 3/20\<bar> \<le> 1/100000" using y(2) z(2) by linarith+
  ultimately show "test_parse_switchboard_v2_valid powi10"
    using near_close [of y "53507/250"] near_close [of z "3/20"] by (simp add: test_parse_switchboard_v2_valid_def)
qed

lemma pyth_tests:
  assumes "accurate_powers powi10"
  shows "test_parse_pyth_price_valid powi10" "test_parse_pyth_price_too_short powi10" "test_parse_pyth_price_bad_magic powi10"
    "test_parse_pyth_price_bad_account_type powi10" "test_pyth_is_trading"
proof -
  show "test_parse_pyth_price_too_short powi10"
    by (simp add: test_parse_pyth_price_too_short_def parse_pyth_price_def PYTH_MIN_SIZE_def)
  show "test_parse_pyth_price_bad_magic powi10"
    by (simp add: test_parse_pyth_price_bad_magic_def parse_pyth_price_def pyth_offsets length_copy_at read_u_def slice_copy_same
        le_nat_le_bytes PYTH_MAGIC_def Let_def)
  show "test_parse_pyth_price_bad_account_type powi10"
    by (simp add: test_parse_pyth_price_bad_account_type_def parse_pyth_price_def pyth_offsets length_copy_at read_u_def slice_copy_same
        slice_copy_other le_nat_le_bytes PYTH_MAGIC_def PYTH_ACCOUNT_TYPE_PRICE_def Let_def)
  show "test_pyth_is_trading"
    by (simp add: test_pyth_is_trading_def pyth_is_trading_def pyth_fields PYTH_AGG_STATUS_def [symmetric]) (simp add: PYTH_AGG_STATUS_def)
  let ?d = "build_pyth_test_account 21402800000 5000000 (- 8) 1700000000 1"
  note fields = pyth_fields [of 21402800000 5000000 "- 8" 1700000000 1]
  have i: "read_i ?d PYTH_EXPO_OFFSET 4 = - 8" "read_i ?d PYTH_TIMESTAMP_OFFSET 8 = 1700000000" "read_i ?d PYTH_AGG_PRICE 8 = 21402800000"
    unfolding read_i_def read_u_def fields using signed_back [of 4 "- 8"] signed_back [of 8 1700000000] signed_back [of 8 21402800000]
    by simp_all
  have u: "read_u ?d PYTH_MAGIC_OFFSET 4 = PYTH_MAGIC" "read_u ?d PYTH_ATYPE_OFFSET 4 = PYTH_ACCOUNT_TYPE_PRICE" "read_u ?d PYTH_AGG_CONF 8 = 5000000"
    unfolding read_u_def fields by (simp_all add: le_nat_le_bytes PYTH_MAGIC_def PYTH_ACCOUNT_TYPE_PRICE_def)
  obtain p where p: "powi10 (- 8) = Fin p" "\<bar>p - 1 / 100000000\<bar> \<le> 1 / 100000000000000000000" using assms by (auto simp: accurate_powers_def)
  have e: "\<bar>21402800000 * p - 53507/250\<bar> \<le> 1 / 1000000000" "\<bar>5000000 * p - 1/20\<bar> \<le> 1 / 1000000000"
    using near_bounds [OF p(2)] by linarith+
  then have b: "\<bar>21402800000 * p\<bar> < 256" "\<bar>5000000 * p\<bar> < 256" by linarith+
  obtain y where y: "rnd (21402800000 * p) = Fin y" "\<bar>y - 21402800000 * p\<bar> \<le> 1 / 1000000000000" using b(1) by (rule rnd_near)
  obtain z where z: "rnd (5000000 * p) = Fin z" "\<bar>z - 5000000 * p\<bar> \<le> 1 / 1000000000000" using b(2) by (rule rnd_near)
  have "parse_pyth_price powi10 ?d ''SOL/USD'' =
      Inr \<lparr>op_oracle_type = Pyth, price = Fin y, confidence = Fin z, op_timestamp = 1700000000, asset = ''SOL/USD''\<rparr>"
    by (simp add: parse_pyth_price_def fields(1) PYTH_MIN_SIZE_def i u whole_numbers p(1) y(1) z(1) Let_def)
  moreover have "\<bar>y - 53507/250\<bar> \<le> 1/100000" "\<bar>z - 1/20\<bar> \<le> 1/100000" using y(2) z(2) e by linarith+
  ultimately show "test_parse_pyth_price_valid powi10"
    using near_close [of y "53507/250"] near_close [of z "1/20"] by (simp add: test_parse_pyth_price_valid_def)
qed

lemma feed_suite_passes:
  assumes "keys_apart K" "accurate_powers powi10"
  shows "feed_suite powi10 K"
  using feed_map_tests [OF assms(1)] switchboard_tests [OF assms(2)] pyth_tests [OF assms(2)] by (simp add: feed_suite_def)

end
