(* ===== verification/Core_Suite.thy ===== *)
theory Core_Suite
  imports Test_Support Scorer Account_Cache Rpc
begin

section \<open>The test modules of the registry, runner, scorer, cache, tracker and breaker\<close>

text \<open>
  \<^verbatim>\<open>mod tests\<close> of \<^verbatim>\<open>program_registry.rs\<close> and \<^verbatim>\<open>runner.rs\<close> (\<^verbatim>\<open>ciel-checkers\<close>), \<^verbatim>\<open>scorer_stub.rs\<close> (\<^verbatim>\<open>ciel-pipeline\<close>), and of
  \<^verbatim>\<open>cache.rs\<close>, \<^verbatim>\<open>staleness.rs\<close> and \<^verbatim>\<open>rpc.rs\<close> (\<^verbatim>\<open>ciel-fork\<close>). A test on the paused clock runs at an arbitrary instant
  \<open>t\<close> and advances it as written; a test whose results pass through a \<^verbatim>\<open>HashMap\<close> holds for every
  iteration order (\<open>shuffle\<close>), and the hundred concurrent tasks of the cache test may take their steps in
  any order (\<open>sched\<close>). Left out are \<^verbatim>\<open>test_concurrent_runs_do_not_block_on_slow_checker\<close>, which measures how
  threads share the processor, and the ignored tests that need the network.
  Shown: every test passes.
\<close>

subsection \<open>The program registry\<close>

definition test_default_is_empty :: bool where
  "test_default_is_empty \<longleftrightarrow> registry_is_empty registry_new \<and> registry_len registry_new = 0"

definition test_with_mainnet_defaults_populated :: bool where
  "test_with_mainnet_defaults_populated \<longleftrightarrow>
     (let reg = with_mainnet_defaults
      in registry_len reg = 8 \<and>
         is_known_protocol reg SPL_TOKEN_PROGRAM_ID = Some ''SPL Token'' \<and>
         is_known_protocol reg SPL_TOKEN_2022_PROGRAM_ID = Some ''SPL Token-2022'' \<and>
         is_known_protocol reg DRIFT_V2_PROGRAM_ID = Some ''Drift v2'' \<and>
         is_known_protocol reg SQUADS_V4_PROGRAM_ID = Some ''Squads v4'' \<and>
         is_known_protocol reg RAYDIUM_AMM_V4_PROGRAM_ID = Some ''Raydium AMM v4'' \<and>
         is_known_protocol reg JUPITER_V6_PROGRAM_ID = Some ''Jupiter V6'' \<and>
         is_known_protocol reg ORCA_WHIRLPOOL_PROGRAM_ID = Some ''Orca Whirlpool'' \<and>
         is_known_protocol reg BPF_LOADER_UPGRADEABLE_PROGRAM_ID = Some ''BPF Loader Upgradeable'')"

definition test_unknown_program_returns_none :: "test_keys \<Rightarrow> bool" where
  "test_unknown_program_returns_none K \<longleftrightarrow> is_known_protocol with_mainnet_defaults (new_unique K 0) = None"

definition test_register_adds_entry :: "test_keys \<Rightarrow> bool" where
  "test_register_adds_entry K \<longleftrightarrow>
     (let custom = new_unique K 0; reg = register custom ''Custom Protocol'' registry_new
      in is_known_protocol reg custom = Some ''Custom Protocol'' \<and> registry_len reg = 1)"

subsection \<open>The runner\<close>

definition runner_context :: checker_context where
  "runner_context = (ctx_with empty_trace)\<lparr>ctx_slot := 100, known_programs := registry_new\<rparr>"

definition slow_stub :: "time \<Rightarrow> checker" where
  "slow_stub delay =
     \<lparr>name = ''slow_stub'',
      check = (\<lambda>ctx. \<lparr>checker_name = ''slow_stub'', passed = True, out_severity = SevNone, flags = [], details = ''slow''\<rparr>),
      ready_after = (\<lambda>ctx. Some delay)\<rparr>"

definition is_completed :: "checker_status \<Rightarrow> bool" where
  "is_completed s \<longleftrightarrow> (case s of Completed out \<Rightarrow> True | TimedOut \<Rightarrow> False)"

definition test_run_all_stubs_complete :: "nat \<Rightarrow> bool" where
  "test_run_all_stubs_complete elapsed_ms \<longleftrightarrow>
     (let r = run_checkers elapsed_ms runner_context all_stub_checkers
      in length (outputs r) = 7 \<and> \<not> has_timeouts r \<and>
         list_all (\<lambda>(k, s). case s of Completed out \<Rightarrow> passed out \<and> out_severity out = SevNone | TimedOut \<Rightarrow> False) (outputs r))"

definition test_slow_checker_times_out :: "nat \<Rightarrow> bool" where
  "test_slow_checker_times_out elapsed_ms \<longleftrightarrow>
     (let r = run_checkers elapsed_ms runner_context (all_stub_checkers @ [slow_stub (from_millis 200)])
      in length (outputs r) = 8 \<and> has_timeouts r \<and> hm_get (outputs r) ''slow_stub'' = Some TimedOut \<and>
         length (filter (\<lambda>(k, s). is_completed s) (outputs r)) = 7)"

definition test_run_empty_checkers :: "nat \<Rightarrow> bool" where
  "test_run_empty_checkers elapsed_ms \<longleftrightarrow>
     (let r = run_checkers elapsed_ms runner_context [] in length (outputs r) = 0 \<and> \<not> has_timeouts r)"

subsection \<open>The scorer\<close>

definition make_output :: "unicode \<Rightarrow> string \<Rightarrow> severity \<Rightarrow> checker_output" where
  "make_output U n s =
     \<lparr>checker_name = n, passed = (s = SevNone), out_severity = s,
      flags = (if s = SevNone then []
               else [\<lparr>flag_code = to_uppercase U n @ ''_FLAG'', flag_message = n @ '' finding'', flag_data = json_obj []\<rparr>]),
      details = n @ '' details''\<rparr>"

type_synonym result_order = "(string \<times> checker_status) list \<Rightarrow> (string \<times> checker_status) list"

definition make_results :: "result_order \<Rightarrow> (string \<times> checker_status) list \<Rightarrow> checker_results" where
  "make_results shuffle es = \<lparr>outputs = reorder shuffle (hm_collect es), total_duration_ms = 10\<rparr>"

abbreviation found :: "unicode \<Rightarrow> string \<Rightarrow> severity \<Rightarrow> string \<times> checker_status" where
  "found U n s \<equiv> (n, Completed (make_output U n s))"

definition test_all_checkers_pass_score_1_0 :: "unicode \<Rightarrow> result_order \<Rightarrow> bool" where
  "test_all_checkers_pass_score_1_0 U shuffle \<longleftrightarrow>
     close_to (compute_safety_score (make_results shuffle [found U ''a'' SevNone, found U ''b'' SevNone, found U ''c'' SevNone]))
       (rnd 1) EPSILON"

definition test_single_critical_score_0_0 :: "unicode \<Rightarrow> result_order \<Rightarrow> bool" where
  "test_single_critical_score_0_0 U shuffle \<longleftrightarrow>
     close_to (compute_safety_score (make_results shuffle [found U ''a'' SevNone, found U ''b'' Critical])) (rnd 0) EPSILON"

definition test_penalty_accumulation :: "unicode \<Rightarrow> result_order \<Rightarrow> bool" where
  "test_penalty_accumulation U shuffle \<longleftrightarrow>
     close_to (compute_safety_score (make_results shuffle [found U ''a'' Low, found U ''b'' Medium, found U ''c'' High]))
       (rnd (40/100)) (rnd (1/10000000000))"

definition test_timed_out_penalty :: "unicode \<Rightarrow> result_order \<Rightarrow> bool" where
  "test_timed_out_penalty U shuffle \<longleftrightarrow>
     close_to (compute_safety_score (make_results shuffle [found U ''a'' SevNone, (''b'', TimedOut)])) (rnd (90/100)) (rnd (1/10000000000))"

definition test_score_floor_clamp :: "unicode \<Rightarrow> result_order \<Rightarrow> bool" where
  "test_score_floor_clamp U shuffle \<longleftrightarrow>
     close_to (compute_safety_score (make_results shuffle [found U ''a'' Critical, found U ''b'' Critical])) (rnd 0) EPSILON"

definition test_verdict_approve_at_0_70 :: "result_order \<Rightarrow> bool" where
  "test_verdict_approve_at_0_70 shuffle \<longleftrightarrow> score_to_verdict (rnd (70/100)) (make_results shuffle []) = Approve"

definition test_verdict_warn_below_0_70 :: "result_order \<Rightarrow> bool" where
  "test_verdict_warn_below_0_70 shuffle \<longleftrightarrow> score_to_verdict (rnd (6999/10000)) (make_results shuffle []) = Warn"

definition test_verdict_block_below_0_40 :: "result_order \<Rightarrow> bool" where
  "test_verdict_block_below_0_40 shuffle \<longleftrightarrow> score_to_verdict (rnd (3999/10000)) (make_results shuffle []) = Block"

definition test_critical_forces_block_even_with_high_score :: "unicode \<Rightarrow> result_order \<Rightarrow> bool" where
  "test_critical_forces_block_even_with_high_score U shuffle \<longleftrightarrow>
     score_to_verdict (rnd (95/100)) (make_results shuffle [found U ''a'' Critical]) = Block"

definition test_encode_score_u16 :: bool where
  "test_encode_score_u16 \<longleftrightarrow>
     encode_score_u16 (rnd (75/100)) = 7500 \<and> encode_score_u16 (rnd 1) = 10000 \<and> encode_score_u16 (rnd 0) = 0 \<and>
     encode_score_u16 (rnd (5/10)) = 5000 \<and> encode_score_u16 (rnd (15/10)) = 10000 \<and> encode_score_u16 (rnd (- (5/10))) = 0"

subsection \<open>The account cache\<close>

definition make_test_account :: "pubkey \<Rightarrow> u64 \<Rightarrow> account" where
  "make_test_account own lam = \<lparr>lamports = lam, acct_data = [1, 2, 3], acct_owner = own, executable = False, rent_epoch = 0\<rparr>"

definition test_insert_and_get :: "test_keys \<Rightarrow> time \<Rightarrow> bool" where
  "test_insert_and_get K t \<longleftrightarrow>
     (let k = new_unique K 0; a = make_test_account (new_unique K 1) 1000; c = acache_insert t k a False account_cache_new
      in case acache_get t k c of
           (c', None) \<Rightarrow> False
         | (c', Some b) \<Rightarrow> lamports b = 1000 \<and> acct_data b = acct_data a \<and> acache_len c' = 1)"

definition test_cache_miss :: "test_keys \<Rightarrow> time \<Rightarrow> bool" where
  "test_cache_miss K t \<longleftrightarrow>
     (case acache_get t (new_unique K 0) account_cache_new of (c, r) \<Rightarrow> r = None \<and> acache_len c = 0)"

definition test_stale_entry_returns_none :: "test_keys \<Rightarrow> time \<Rightarrow> bool" where
  "test_stale_entry_returns_none K t \<longleftrightarrow>
     (let k = new_unique K 0; c = acache_insert t k (make_test_account (new_unique K 1) 500) False (with_ttl 1 1);
          (c1, r1) = acache_get t k c; (c2, r2) = acache_get (t + from_secs 2) k c1
      in r1 \<noteq> None \<and> r2 = None \<and> acache_len c2 = 0)"

definition test_monitored_longer_ttl :: "test_keys \<Rightarrow> time \<Rightarrow> bool" where
  "test_monitored_longer_ttl K t \<longleftrightarrow>
     (let regular = new_unique K 0; monitored = new_unique K 1;
          c = acache_insert t regular (make_test_account (new_unique K 2) 100) False (with_ttl 1 5);
          c = acache_insert t monitored (make_test_account (new_unique K 3) 200) True c;
          t1 = t + from_secs 2; t2 = t1 + from_secs 4;
          (c1, r1) = acache_get t1 regular c; (c2, r2) = acache_get t1 monitored c1; (c3, r3) = acache_get t2 monitored c2
      in r1 = None \<and> r2 \<noteq> None \<and> r3 = None)"

definition test_evict_stale :: "test_keys \<Rightarrow> time \<Rightarrow> bool" where
  "test_evict_stale K t \<longleftrightarrow>
     (let c = fold (\<lambda>i. acache_insert t (new_unique K (2 * i)) (make_test_account (new_unique K (2 * i + 1)) 100) False) [0, 1, 2] (with_ttl 1 5);
          c = acache_insert t (new_unique K 6) (make_test_account (new_unique K 7) 200) True c;
          (c', evicted) = evict_stale (t + from_secs 2) c
      in acache_len c = 4 \<and> evicted = 3 \<and> acache_len c' = 1)"

definition test_monitored_keys :: "test_keys \<Rightarrow> time \<Rightarrow> bool" where
  "test_monitored_keys K t \<longleftrightarrow>
     (let k1 = new_unique K 0; k2 = new_unique K 1; k3 = new_unique K 2;
          c = acache_insert t k1 (make_test_account (new_unique K 3) 100) True account_cache_new;
          c = acache_insert t k2 (make_test_account (new_unique K 4) 200) True c;
          c = acache_insert t k3 (make_test_account (new_unique K 5) 300) False c;
          ks = sort (monitored_keys c)
      in ks = sort [k1, k2] \<and> length ks = 2)"

text \<open>
  The hundred tasks of \<^verbatim>\<open>test_concurrent_access\<close>: the steps of a schedule are the insertions and the reads of
  the tasks, each at its instant, and task \<open>i\<close> draws the keys number \<open>draw i\<close> and \<open>draw (100 + i)\<close>. A schedule
  takes the steps in any order within the time to live of an entry, so that no look is
  followed by a removal and a read is one step.
\<close>

datatype task_step = TaskInsert nat | TaskGet nat

fun run_task :: "test_keys \<Rightarrow> (nat \<Rightarrow> nat) \<Rightarrow> time \<times> task_step \<Rightarrow> account_cache \<Rightarrow> account_cache" where
  "run_task K draw (now, TaskInsert i) c =
     acache_insert now (new_unique K (draw i)) (make_test_account (new_unique K (draw (100 + i))) (of_nat i)) (even i) c"
| "run_task K draw (now, TaskGet i) c = fst (acache_get now (new_unique K (draw i)) c)"

definition test_concurrent_access :: "test_keys \<Rightarrow> (nat \<Rightarrow> nat) \<Rightarrow> (time \<times> task_step) list \<Rightarrow> bool" where
  "test_concurrent_access K draw sched \<longleftrightarrow> acache_len (fold (run_task K draw) sched account_cache_new) = 100"

definition schedule_ok :: "(nat \<Rightarrow> nat) \<Rightarrow> time \<Rightarrow> (time \<times> task_step) list \<Rightarrow> bool" where
  "schedule_ok draw t sched \<longleftrightarrow>
     distinct (map draw [0..<200]) \<and> list_all (\<lambda>i. draw i < 200) [0..<200] \<and>
     mset (map snd sched) = mset (map TaskInsert [0..<100] @ map TaskGet [0..<100]) \<and>
     list_all (\<lambda>(now, st). t \<le> now \<and> now \<le> t + from_secs DEFAULT_TTL_SECS) sched"

subsection \<open>The staleness tracker\<close>

definition test_config :: staleness_config where
  "test_config = \<lparr>warn_threshold = from_secs 1, timeout_threshold = from_secs 3\<rparr>"

definition test_staleness_fresh_after_update :: "time \<Rightarrow> bool" where
  "test_staleness_fresh_after_update t \<longleftrightarrow>
     (let tr = record_update t 100 (tracker_new t test_config)
      in staleness_state_at t tr = Fresh \<and> last_slot tr = 100 \<and> time_since_last_update t tr < from_millis 50)"

definition test_staleness_warn_after_threshold :: "time \<Rightarrow> bool" where
  "test_staleness_warn_after_threshold t \<longleftrightarrow>
     staleness_state_at (t + from_millis 1500) (record_update t 100 (tracker_new t test_config)) = StaleWarn"

definition test_staleness_timeout_after_threshold :: "time \<Rightarrow> bool" where
  "test_staleness_timeout_after_threshold t \<longleftrightarrow>
     staleness_state_at (t + from_millis 4000) (record_update t 100 (tracker_new t test_config)) = StaleTimeout"

definition test_staleness_recovers_after_update :: "time \<Rightarrow> bool" where
  "test_staleness_recovers_after_update t \<longleftrightarrow>
     (let tr = record_update t 100 (tracker_new t test_config); t1 = t + from_millis 1500; tr' = record_update t1 200 tr
      in staleness_state_at t1 tr = StaleWarn \<and> staleness_state_at t1 tr' = Fresh \<and> last_slot tr' = 200)"

subsection \<open>The circuit breaker\<close>

definition test_circuit_breaker_starts_closed :: "time \<Rightarrow> bool" where
  "test_circuit_breaker_starts_closed t \<longleftrightarrow> cb_state circuit_breaker_new = Closed \<and> snd (is_available t circuit_breaker_new)"

definition test_circuit_breaker_opens_after_threshold :: "time \<Rightarrow> bool" where
  "test_circuit_breaker_opens_after_threshold t \<longleftrightarrow>
     (let cb = (record_failure t ^^ 4) circuit_breaker_new; (cb1, ok1) = is_available t cb;
          cb2 = record_failure t cb1; (cb3, ok3) = is_available t cb2
      in cb_state cb = Closed \<and> ok1 \<and> cb_state cb2 = Open \<and> \<not> ok3)"

definition test_circuit_breaker_window_expiry :: "time \<Rightarrow> bool" where
  "test_circuit_breaker_window_expiry t \<longleftrightarrow>
     (let cb = (record_failure t ^^ 4) circuit_breaker_new
      in cb_state (record_failure (t + from_secs 11) cb) = Closed)"

definition test_circuit_breaker_recovery :: "time \<Rightarrow> bool" where
  "test_circuit_breaker_recovery t \<longleftrightarrow>
     (let cb = (record_failure t ^^ 5) circuit_breaker_new; (cb1, ok1) = is_available t cb;
          t1 = t + from_secs 31; (cb2, ok2) = is_available t1 cb1; cb3 = record_success cb2
      in cb_state cb = Open \<and> \<not> ok1 \<and> ok2 \<and> cb_state cb2 = HalfOpen \<and> cb_state cb3 = Closed \<and> snd (is_available t1 cb3))"

definition test_circuit_breaker_half_open_failure :: "time \<Rightarrow> bool" where
  "test_circuit_breaker_half_open_failure t \<longleftrightarrow>
     (let cb = (record_failure t ^^ 5) circuit_breaker_new; t1 = t + from_secs 31;
          (cb1, ok1) = is_available t1 cb; cb2 = record_failure t1 cb1
      in ok1 \<and> cb_state cb1 = HalfOpen \<and> cb_state cb2 = Open \<and> \<not> snd (is_available t1 cb2))"

definition test_rpc_manager_from_env_missing_keys :: "(string \<Rightarrow> string option) \<Rightarrow> bool" where
  "test_rpc_manager_from_env_missing_keys E \<longleftrightarrow>
     (case rpc_urls_from_env (E(''HELIUS_API_KEY'' := None, ''TRITON_API_KEY'' := None)) of
        Inl (ConfigError msg) \<Rightarrow> contains msg ''HELIUS_API_KEY''
      | _ \<Rightarrow> False)"

definition core_suite ::
    "unicode \<Rightarrow> result_order \<Rightarrow> (string \<Rightarrow> string option) \<Rightarrow> nat \<Rightarrow> time \<Rightarrow> (nat \<Rightarrow> nat) \<Rightarrow> (time \<times> task_step) list \<Rightarrow>
     test_keys \<Rightarrow> bool" where
  "core_suite U shuffle E elapsed_ms t draw sched K \<longleftrightarrow>
     test_default_is_empty \<and> test_with_mainnet_defaults_populated \<and> test_unknown_program_returns_none K \<and> test_register_adds_entry K \<and>
     test_run_all_stubs_complete elapsed_ms \<and> test_slow_checker_times_out elapsed_ms \<and> test_run_empty_checkers elapsed_ms \<and>
     test_all_checkers_pass_score_1_0 U shuffle \<and> test_single_critical_score_0_0 U shuffle \<and> test_penalty_accumulation U shuffle \<and>
     test_timed_out_penalty U shuffle \<and> test_score_floor_clamp U shuffle \<and> test_verdict_approve_at_0_70 shuffle \<and>
     test_verdict_warn_below_0_70 shuffle \<and> test_verdict_block_below_0_40 shuffle \<and>
     test_critical_forces_block_even_with_high_score U shuffle \<and> test_encode_score_u16 \<and>
     test_insert_and_get K t \<and> test_cache_miss K t \<and> test_stale_entry_returns_none K t \<and> test_monitored_longer_ttl K t \<and>
     test_evict_stale K t \<and> test_monitored_keys K t \<and> test_concurrent_access K draw sched \<and>
     test_staleness_fresh_after_update t \<and> test_staleness_warn_after_threshold t \<and> test_staleness_timeout_after_threshold t \<and>
     test_staleness_recovers_after_update t \<and>
     test_circuit_breaker_starts_closed t \<and> test_circuit_breaker_opens_after_threshold t \<and> test_circuit_breaker_window_expiry t \<and>
     test_circuit_breaker_recovery t \<and> test_circuit_breaker_half_open_failure t \<and> test_rpc_manager_from_env_missing_keys E"

subsection \<open>The registry and the runner pass\<close>

lemma registry_tests:
  assumes "keys_apart K"
  shows "test_default_is_empty" "test_with_mainnet_defaults_populated" "test_unknown_program_returns_none K" "test_register_adds_entry K"
  by (simp_all add: test_default_is_empty_def test_with_mainnet_defaults_populated_def test_unknown_program_returns_none_def
      test_register_adds_entry_def registry_is_empty_def registry_len_def registry_new_def with_mainnet_defaults_def register_def
      is_known_protocol_def program_ids Let_def fresh_key_unknown [OF assms, unfolded with_mainnet_defaults_def register_def
        is_known_protocol_def registry_new_def program_ids, simplified])

lemma runner_tests: "test_run_all_stubs_complete e" "test_slow_checker_times_out e" "test_run_empty_checkers e"
  by (simp_all add: test_run_all_stubs_complete_def test_slow_checker_times_out_def test_run_empty_checkers_def Let_def run_checkers_def
      all_stub_checkers_def stub_checker_def slow_stub_def run_one_def hm_collect_def has_timeouts_def is_completed_def
      CHECKER_DEADLINE_MS_def from_millis_def)

subsection \<open>The cache, the tracker and the breaker pass\<close>

lemma cache_tests:
  assumes "keys_apart K"
  shows "test_insert_and_get K t" "test_cache_miss K t" "test_stale_entry_returns_none K t" "test_monitored_longer_ttl K t"
    "test_evict_stale K t" "test_monitored_keys K t"
  by (simp_all add: test_insert_and_get_def test_cache_miss_def test_stale_entry_returns_none_def test_monitored_longer_ttl_def
      test_evict_stale_def test_monitored_keys_def Let_def acache_get_def cache_look_def cache_drop_def acache_insert_def
      acache_len_def evict_stale_def monitored_keys_def account_cache_new_def with_ttl_def expired_def effective_ttl_def elapsed_def
      from_secs_def make_test_account_def fresh_key_facts [OF assms])

text \<open>After any part of a schedule the cache holds the accounts of the tasks that inserted, none of them old.\<close>

lemma tasks_cache:
  assumes "list_all (\<lambda>(now, st). t \<le> now \<and> now \<le> t + from_secs DEFAULT_TTL_SECS) sched"
    and "hm_ok (entries c)" "\<forall>k e. hm_get (entries c) k = Some e \<longrightarrow> t \<le> inserted_at e"
    and "ttl c = from_secs DEFAULT_TTL_SECS" "monitored_ttl c = from_secs DEFAULT_MONITORED_TTL_SECS"
  shows "hm_ok (entries (fold (run_task K draw) sched c)) \<and>
    dom (hm_get (entries (fold (run_task K draw) sched c))) =
      dom (hm_get (entries c)) \<union> (\<lambda>i. new_unique K (draw i)) ` {i. TaskInsert i \<in> set (map snd sched)}"
  using assms
proof (induction sched arbitrary: c)
  case (Cons s sched)
  obtain now st where s: "s = (now, st)" by (cases s)
  show ?case
  proof (cases st)
    case (TaskInsert i)
    let ?c = "run_task K draw s c"
    have "hm_ok (entries ?c)" "\<forall>k e. hm_get (entries ?c) k = Some e \<longrightarrow> t \<le> inserted_at e"
      "ttl ?c = from_secs DEFAULT_TTL_SECS" "monitored_ttl ?c = from_secs DEFAULT_MONITORED_TTL_SECS"
      using Cons.prems by (auto simp: s TaskInsert acache_insert_def hm.invar_put update_conv')
    from Cons.IH [OF _ this] show ?thesis
      using Cons.prems(1) by (auto simp: s TaskInsert acache_insert_def update_conv' split: if_splits)
  next
    case (TaskGet i)
    have "\<not> expired now c e" if "hm_get (entries c) k = Some e" for k e
    proof -
      have "t \<le> inserted_at e" using Cons.prems(3) that by blast
      moreover have "now \<le> t + from_secs DEFAULT_TTL_SECS" using Cons.prems(1) by (simp add: s)
      ultimately have "elapsed now (inserted_at e) \<le> 300000000000"
        by (simp add: elapsed_def DEFAULT_TTL_SECS_def from_secs_def)
      then show ?thesis using Cons.prems(4,5)
        by (auto simp: expired_def effective_ttl_def DEFAULT_TTL_SECS_def DEFAULT_MONITORED_TTL_SECS_def from_secs_def)
    qed
    then have "run_task K draw s c = c"
      by (auto simp: s TaskGet acache_get_def cache_look_def split: option.splits)
    then show ?thesis using Cons.IH [OF _ Cons.prems(2-5)] Cons.prems(1) by (auto simp: s TaskGet)
  qed
qed simp

lemma concurrent_test:
  assumes "keys_apart K" "schedule_ok draw t sched"
  shows "test_concurrent_access K draw sched"
proof -
  let ?c = "fold (run_task K draw) sched account_cache_new"
  have "set (map snd sched) = set (map TaskInsert [0..<100] @ map TaskGet [0..<100])"
    using assms(2) unfolding schedule_ok_def by (metis mset_eq_setD)
  then have "{i. TaskInsert i \<in> set (map snd sched)} = {0..<100}" by auto
  moreover have "list_all (\<lambda>(now, st). t \<le> now \<and> now \<le> t + from_secs DEFAULT_TTL_SECS) sched"
    using assms(2) by (simp add: schedule_ok_def)
  ultimately have c: "hm_ok (entries ?c)" "dom (hm_get (entries ?c)) = (\<lambda>i. new_unique K (draw i)) ` {0..<100}"
    using tasks_cache [of t sched account_cache_new K draw] by (auto simp: account_cache_new_def hm_ok_def)
  have "inj_on (\<lambda>i. new_unique K (draw i)) {0..<100}"
  proof (rule inj_onI)
    fix i j :: nat assume ij: "i \<in> {0..<100}" "j \<in> {0..<100}" "new_unique K (draw i) = new_unique K (draw j)"
    have d: "inj_on draw {0..<200}" "draw i < 200" "draw j < 200"
      using assms(2) ij(1,2) by (simp_all add: schedule_ok_def distinct_map list_all_iff)
    then have "draw i = draw j" using fresh_key_facts(2) [OF assms(1)] ij(3) by blast
    then show "i = j" using inj_onD [OF d(1)] ij(1,2) by simp
  qed
  then have "card (dom (hm_get (entries ?c))) = 100" by (simp add: c(2) card_image)
  moreover have "length (entries ?c) = card (fst ` set (entries ?c))"
    using c(1) distinct_card [of "map fst (entries ?c)"] by (simp add: hm_ok_def)
  ultimately show ?thesis by (simp add: test_concurrent_access_def acache_len_def dom_map_of_conv_image_fst)
qed

lemma tracker_tests:
  "test_staleness_fresh_after_update t" "test_staleness_warn_after_threshold t" "test_staleness_timeout_after_threshold t"
  "test_staleness_recovers_after_update t"
  by (simp_all add: test_staleness_fresh_after_update_def test_staleness_warn_after_threshold_def
      test_staleness_timeout_after_threshold_def test_staleness_recovers_after_update_def Let_def staleness_state_at_def
      record_update_def tracker_new_def test_config_def time_since_last_update_def elapsed_def from_secs_def from_millis_def)

lemma failures_at_once:
  "(record_failure t ^^ 4) circuit_breaker_new = circuit_breaker_new\<lparr>failures := [t, t, t, t]\<rparr>"
  "(record_failure t ^^ 5) circuit_breaker_new =
     circuit_breaker_new\<lparr>failures := [t, t, t, t, t], cb_state := Open, opened_at := Some t\<rparr>"
proof -
  have four: "(f ^^ 4) x = f (f (f (f x)))" and five: "(f ^^ 5) x = f (f (f (f (f x))))" for f :: "'a \<Rightarrow> 'a" and x
    by (simp_all add: eval_nat_numeral)
  show "(record_failure t ^^ 4) circuit_breaker_new = circuit_breaker_new\<lparr>failures := [t, t, t, t]\<rparr>"
    "(record_failure t ^^ 5) circuit_breaker_new =
       circuit_breaker_new\<lparr>failures := [t, t, t, t, t], cb_state := Open, opened_at := Some t\<rparr>"
    by (simp_all add: four five record_failure_def circuit_breaker_new_def Let_def elapsed_def FAILURE_THRESHOLD_def FAILURE_WINDOW_def)
qed

lemma breaker_tests:
  "test_circuit_breaker_starts_closed t" "test_circuit_breaker_opens_after_threshold t" "test_circuit_breaker_window_expiry t"
  "test_circuit_breaker_recovery t" "test_circuit_breaker_half_open_failure t" "test_rpc_manager_from_env_missing_keys E"
  unfolding test_circuit_breaker_starts_closed_def test_circuit_breaker_opens_after_threshold_def test_circuit_breaker_window_expiry_def
    test_circuit_breaker_recovery_def test_circuit_breaker_half_open_failure_def test_rpc_manager_from_env_missing_keys_def
    Let_def failures_at_once
  by (simp_all add: rpc_urls_from_env_def is_available_def record_failure_def record_success_def circuit_breaker_new_def elapsed_def
      FAILURE_THRESHOLD_def FAILURE_WINDOW_def OPEN_DURATION_def from_secs_def Let_def)

subsection \<open>The scorer passes\<close>

lemma make_results_mset: "mset (outputs (make_results shuffle es)) = mset (hm_collect es)"
  by (simp add: make_results_def reorder_def)

lemma make_results_set: "set (outputs (make_results shuffle es)) = set (hm_collect es)"
  by (metis make_results_mset set_mset_mset)

lemma exact_score_of:
  assumes "hm_collect es = es"
  shows "exact_score (make_results shuffle es) = max 0 (min 1 (exact_sum (map snd es)))"
    "length (outputs (make_results shuffle es)) = length es"
proof -
  have m: "mset (outputs (make_results shuffle es)) = mset es" using make_results_mset [of shuffle es] assms by simp
  then have "mset (map exact_penalty (map snd (outputs (make_results shuffle es)))) = mset (map exact_penalty (map snd es))" by simp
  then show "exact_score (make_results shuffle es) = max 0 (min 1 (exact_sum (map snd es)))"
    unfolding exact_score_def exact_sum_def by (metis sum_mset_sum_list)
  show "length (outputs (make_results shuffle es)) = length es" using m by (metis size_mset)
qed

text \<open>Within the tolerance of \<^verbatim>\<open>1e-10\<close>: for a few checkers the rounding error is far smaller.\<close>

lemma score_close:
  assumes "hm_collect es = es" "length es \<le> 8" "exact_sum (map snd es) = v" "0 \<le> v" "v \<le> 1"
  shows "close_to (compute_safety_score (make_results shuffle es)) (rnd v) (rnd (1/10000000000))"
proof -
  let ?r = "make_results shuffle es"
  have len: "length (map snd (outputs ?r)) \<le> 8" using exact_score_of(2) [OF assms(1)] assms(2) by simp
  have "exact_score ?r = v" using exact_score_of(1) [OF assms(1)] assms(3-5) by simp
  then have ex: "max 0 (min 1 (exact_sum (map snd (outputs ?r)))) = v" by (simp add: exact_score_def)
  obtain y where y: "foldl (\<lambda>score status. f_sub score (status_penalty status)) (rnd 1) (map snd (outputs ?r)) = Fin y"
    "\<bar>y - exact_sum (map snd (outputs ?r))\<bar> \<le> of_nat (length (map snd (outputs ?r))) * loop_eps"
    using score_loop_error [of "map snd (outputs ?r)"] len by auto
  have "of_nat (length (map snd (outputs ?r))) * loop_eps \<le> 8 * loop_eps"
    using len by (intro mult_right_mono) (auto simp: loop_eps_def)
  then have "\<bar>y - exact_sum (map snd (outputs ?r))\<bar> \<le> 8 * loop_eps" using y(2) by (rule order_trans [rotated])
  moreover have "\<bar>max 0 (min 1 y) - v\<bar> \<le> \<bar>y - exact_sum (map snd (outputs ?r))\<bar>"
    using clamp_lipschitz [of y "exact_sum (map snd (outputs ?r))"] unfolding ex .
  moreover define u where "u = max 0 (min 1 y)"
  ultimately have near: "\<bar>u - v\<bar> \<le> 8 * loop_eps" by simp
  have score: "compute_safety_score ?r = Fin u"
    unfolding compute_safety_score_def y(1) u_def by (rule f_clamp_unit)
  obtain w where w: "rnd v = Fin w" "\<bar>w - v\<bar> \<le> 1 / 1000000000000" using assms(4,5) by (auto intro: rnd_near [of v])
  have eps: "8 * loop_eps \<le> 2 / 1000000000000" by (simp add: loop_eps_def pow2_def)
  then have "\<bar>u - w\<bar> < 256" using near w(2) by linarith
  then obtain d where d: "rnd (u - w) = Fin d" "\<bar>d - (u - w)\<bar> \<le> 1 / 1000000000000" by (rule rnd_near)
  obtain e where e: "rnd (1/10000000000) = Fin e" "\<bar>e - 1/10000000000\<bar> \<le> 1 / 1000000000000" by (rule rnd_near [of "1/10000000000"]) auto
  have "\<bar>d\<bar> < e" using eps near w(2) d(2) e(2) by linarith
  then show ?thesis by (simp add: close_to_def score w(1) d(1) e(1))
qed

text \<open>Scores of whole penalties are exact.\<close>

lemma rnd_minus: "rnd x = Fin y \<Longrightarrow> rnd (- x) = Fin (- y)"
  by (auto simp: rnd_def rnd_to_def split: option.splits if_splits)

lemma whole_steps: "f_sub (Fin 1) (Fin 0) = Fin 1" "f_sub (Fin 1) (Fin 1) = Fin 0" "f_sub (Fin 0) (Fin 0) = Fin 0"
  "f_sub (Fin 0) (Fin 1) = Fin (- 1)"
  using rnd_minus [OF rnd_1] by simp_all

lemma clean_loop: "list_all (\<lambda>st. status_penalty st = Fin 0) sts \<Longrightarrow> foldl (\<lambda>score st. f_sub score (status_penalty st)) (Fin 1) sts = Fin 1"
  by (induction sts) (simp_all add: whole_steps)

lemma two_orders:
  assumes "hm_collect [a, b] = [a, b]"
  shows "outputs (make_results shuffle [a, b]) = [a, b] \<or> outputs (make_results shuffle [a, b]) = [b, a]"
proof -
  let ?xs = "outputs (make_results shuffle [a, b])"
  have m: "mset ?xs = {#a, b#}" using make_results_mset [of shuffle "[a, b]"] assms by simp
  then have "length ?xs = 2" by (metis mset.simps(1) mset.simps(2) length_Cons list.size(3) numeral_2_eq_2 size_mset)
  then obtain x y where xs: "?xs = [x, y]" by (auto simp: numeral_2_eq_2 length_Suc_conv)
  then show ?thesis using m by (auto simp: add_eq_conv_ex)
qed

lemma score_tests:
  "test_all_checkers_pass_score_1_0 U shuffle" "test_single_critical_score_0_0 U shuffle" "test_penalty_accumulation U shuffle"
  "test_timed_out_penalty U shuffle" "test_score_floor_clamp U shuffle"
proof -
  show "test_penalty_accumulation U shuffle"
    unfolding test_penalty_accumulation_def by (rule score_close) (simp_all add: hm_collect_def make_output_def exact_sum_def)
  show "test_timed_out_penalty U shuffle"
    unfolding test_timed_out_penalty_def by (rule score_close) (simp_all add: hm_collect_def make_output_def exact_sum_def)
  let ?es = "[found U ''a'' SevNone, found U ''b'' SevNone, found U ''c'' SevNone]"
  have "hm_collect ?es = ?es" by (simp add: hm_collect_def)
  then have "list_all (\<lambda>st. status_penalty st = Fin 0) (map snd (outputs (make_results shuffle ?es)))"
    using make_results_set [of shuffle ?es] by (simp add: list_all_iff make_output_def)
  then show "test_all_checkers_pass_score_1_0 U shuffle"
    unfolding test_all_checkers_pass_score_1_0_def compute_safety_score_def by (simp add: clean_loop f_clamp_def close_refl)
  show "test_single_critical_score_0_0 U shuffle"
    using two_orders [of "found U ''a'' SevNone" "found U ''b'' Critical" shuffle]
    by (auto simp: test_single_critical_score_0_0_def compute_safety_score_def hm_collect_def make_output_def whole_steps f_clamp_def
        close_refl simp del: f_sub.simps)
  show "test_score_floor_clamp U shuffle"
    using two_orders [of "found U ''a'' Critical" "found U ''b'' Critical" shuffle]
    by (auto simp: test_score_floor_clamp_def compute_safety_score_def hm_collect_def make_output_def whole_steps f_clamp_def
        close_refl simp del: f_sub.simps)
qed

lemma verdict_tests:
  "test_verdict_approve_at_0_70 shuffle" "test_verdict_warn_below_0_70 shuffle" "test_verdict_block_below_0_40 shuffle"
  "test_critical_forces_block_even_with_high_score U shuffle" "test_encode_score_u16"
proof -
  have none: "completed (make_results shuffle []) = []"
    using make_results_mset [of shuffle "[]"] by (simp add: completed_def hm_collect_def)
  obtain a where a: "rnd (7/10) = Fin a" "\<bar>a - 7/10\<bar> \<le> 1 / 1000000000000" by (rule rnd_near [of "7/10"]) auto
  obtain b where b: "rnd (2/5) = Fin b" "\<bar>b - 2/5\<bar> \<le> 1 / 1000000000000" by (rule rnd_near [of "2/5"]) auto
  obtain c where c: "rnd (6999/10000) = Fin c" "\<bar>c - 6999/10000\<bar> \<le> 1 / 1000000000000" by (rule rnd_near [of "6999/10000"]) auto
  obtain d where d: "rnd (3999/10000) = Fin d" "\<bar>d - 3999/10000\<bar> \<le> 1 / 1000000000000" by (rule rnd_near [of "3999/10000"]) auto
  have "\<not> a \<le> c" "b \<le> c" "\<not> a \<le> d" "\<not> b \<le> d"
    using near_bounds [OF a(2)] near_bounds [OF b(2)] near_bounds [OF c(2)] near_bounds [OF d(2)] by linarith+
  then show "test_verdict_approve_at_0_70 shuffle" "test_verdict_warn_below_0_70 shuffle" "test_verdict_block_below_0_40 shuffle"
    by (simp_all add: test_verdict_approve_at_0_70_def test_verdict_warn_below_0_70_def test_verdict_block_below_0_40_def
        score_to_verdict_def none a b c d)
  have "make_output U ''a'' Critical \<in> set (completed (make_results shuffle [found U ''a'' Critical]))"
    by (simp add: set_completed make_results_set hm_collect_def)
  then have "\<exists>out \<in> set (completed (make_results shuffle [found U ''a'' Critical])). out_severity out = Critical"
    by (rule bexI [rotated]) (simp add: make_output_def)
  then show "test_critical_forces_block_even_with_high_score U shuffle"
    by (simp add: test_critical_forces_block_even_with_high_score_def score_to_verdict_def)
  have lits: "rnd (3/4) = Fin (3/4)" "rnd (1/2) = Fin (1/2)" "rnd (3/2) = Fin (3/2)"
  proof -
    show "rnd (3/4) = Fin (3/4)" by (rule rnd_evalI [where e = "- 1" and n = "3 * 2 ^ 51"]) (simp_all add: pow2_def)
    show "rnd (1/2) = Fin (1/2)" by (rule rnd_evalI [where e = "- 1" and n = "2 ^ 52"]) (simp_all add: pow2_def)
    show "rnd (3/2) = Fin (3/2)" by (rule rnd_evalI [where e = 0 and n = "3 * 2 ^ 51"]) (simp_all add: pow2_def)
  qed
  have clamped: "encode_score_u16 (Fin y) = encode_score_u16 (Fin (max 0 (min 1 y)))" for y
    unfolding encode_score_u16_def f_clamp_unit by (simp add: max_def min_def)
  have "encode_score_u16 (Fin (3/4)) = 7500" "encode_score_u16 (Fin 1) = 10000" "encode_score_u16 (Fin 0) = 0" "encode_score_u16 (Fin (1/2)) = 5000"
    using encode_score_near [of "3/4" 15] encode_score_near [of 1 20] encode_score_near [of 0 0] encode_score_near [of "1/2" 10] by simp_all
  then show "test_encode_score_u16"
    using clamped [of "3/2"] clamped [of "- 1/2"] rnd_minus [OF lits(2)] by (simp add: test_encode_score_u16_def lits)
qed

lemma core_suite_passes:
  "keys_apart K \<Longrightarrow> schedule_ok draw t sched \<Longrightarrow> core_suite U shuffle E elapsed_ms t draw sched K"
  unfolding core_suite_def
  by (intro conjI registry_tests runner_tests score_tests verdict_tests cache_tests concurrent_test tracker_tests breaker_tests)

end
