(* ===== verification/Test_Suites.thy ===== *)
theory Test_Suites
  imports Approval_Suite Authority_Suite Oracle_Suite Goal_Suite Feed_Suite Core_Suite
begin

section \<open>The test suites together\<close>

text \<open>
  The model of each component against the tests the repository keeps for the code. Shown: every
  assertion holds, for every choice of the keys, instants and iteration orders the tests draw.
\<close>

text \<open>C30: The components pass the tests the repository keeps for them, for every choice of what the tests
  leave open: the keys drawn (different from one another and from the programs the tests name), the
  instants, the iteration order of the result map, the order in which the tasks of the concurrent
  cache test take their steps, the environment, the Unicode tables, and a \<^verbatim>\<open>10f64.powi\<close> that is accurate at the
  exponents used. No assertion fails in the tests of \<^verbatim>\<open>approval_abuse.rs\<close>, \<^verbatim>\<open>authority_diff.rs\<close>,
  \<^verbatim>\<open>oracle_sanity.rs\<close>, \<^verbatim>\<open>oracle_cache.rs\<close>, \<^verbatim>\<open>intent_diff.rs\<close>, \<^verbatim>\<open>intent_rules.rs\<close>, \<^verbatim>\<open>program_registry.rs\<close>, \<^verbatim>\<open>runner.rs\<close>,
  \<^verbatim>\<open>scorer_stub.rs\<close>, \<^verbatim>\<open>cache.rs\<close>, \<^verbatim>\<open>staleness.rs\<close> and \<^verbatim>\<open>rpc.rs\<close>, except the seven that are not modelled: the five that
  compare two runs on one input, the Borsh round trip of an output and the one that measures ten
  runners against the clock; the ignored tests, which need the network, are not modelled either.\<close>

theorem test_suites_pass:
  assumes "keys_apart K" "exact_powers powi10" "accurate_powers powi10" "schedule_ok draw t sched"
  shows "approval_suite K \<and> authority_suite U K \<and> oracle_suite K \<and> intent_suite U powi10 K \<and> goal_suite U \<and>
    feed_suite powi10 K \<and> core_suite U shuffle E elapsed_ms t draw sched K"
  by (intro conjI approval_suite_passes authority_suite_passes oracle_suite_passes intent_suite_passes goal_suite_passes
      feed_suite_passes core_suite_passes assms)

definition exact_powi10 :: "int \<Rightarrow> f64" where
  "exact_powi10 n = Fin (if 0 \<le> n then 10 ^ nat n else 1 / 10 ^ nat (- n))"

text \<open>All tasks insert before any reads, the later tasks first.\<close>

definition late_first :: "(time \<times> task_step) list" where
  "late_first = map (\<lambda>i. (i, TaskInsert (99 - i))) [0..<100] @ map (\<lambda>i. (100 + i, TaskGet i)) [0..<100]"

lemma late_first_ok: "schedule_ok id 0 late_first"
proof -
  have "mset (map (\<lambda>i. TaskInsert (99 - i)) [0..<100]) = mset (rev (map (\<lambda>i. TaskInsert i) [0..<100]))"
    by (rule arg_cong [where f = mset], rule nth_equalityI) (simp_all add: rev_nth)
  then have "mset (map snd late_first) = mset (map TaskInsert [0..<100] @ map TaskGet [0..<100])"
    by (simp add: late_first_def comp_def flip: mset_map)
  then show ?thesis
    by (auto simp: schedule_ok_def late_first_def list_all_iff DEFAULT_TTL_SECS_def from_secs_def)
qed

theorem test_suites_pass_witness:
  "approval_suite marked_keys \<and> authority_suite ascii_tables marked_keys \<and> oracle_suite marked_keys \<and>
   intent_suite ascii_tables exact_powi10 marked_keys \<and> goal_suite ascii_tables \<and> feed_suite exact_powi10 marked_keys \<and>
   core_suite ascii_tables rev (\<lambda>v. None) 3 0 id late_first marked_keys"
proof -
  have "exact_powers exact_powi10" by (simp add: exact_powers_def exact_powi10_def)
  moreover have "accurate_powers exact_powi10"
    unfolding accurate_powers_def by (intro conjI exI [of _ "1 / 100000000"]) (simp_all add: exact_powi10_def)
  ultimately show ?thesis by (rule test_suites_pass [OF marked_keys_fresh _ _ late_first_ok])
qed

end
