(* ===== verification/Spec2Isabelle.thy ===== *)
theory Spec2Isabelle
  imports Checker_Wire Fork_System Service Real_Checkers Wire_Pins Fixture_Tool Test_Suites
begin

text \<open>
  A verification library for Ciel, a pre-execution verdict service for Solana transactions.

  \<^bold>\<open>The program.\<close> A request brings a transaction to the API server (\<^verbatim>\<open>ciel-server\<close>), which hands it
  to the verdict pipeline (\<^verbatim>\<open>ciel-pipeline\<close>). The pipeline checks how stale its view of the chain
  is, simulates the transaction on a local fork (\<^verbatim>\<open>ciel-fork\<close>), runs safety checkers on the trace
  (\<^verbatim>\<open>ciel-checkers\<close>), turns their findings into a score and a verdict, and signs an attestation
  (\<^verbatim>\<open>ciel-signer\<close>). Verdicts are logged to a database, and a background task records what became of
  approved transactions. The fork is fed by RPC providers behind a circuit breaker and by an
  account stream.

  \<^bold>\<open>The theories\<close>, in the order of their imports, with the files under \<^verbatim>\<open>src/crates\<close> they model:
  \<^item> \<open>Ciel_Prelude\<close>: machine words, results, hash maps and ordered maps as stores with one
    interface (\<open>kv_store\<close>, \<open>kv_map\<close>), strings as UTF-8 bytes, time, and the two ways to reason about
    runs: invariants (locale \<open>step_invariant\<close>) and simulation of labelled steps (\<open>labelled_simulation\<close>).
  \<^item> \<open>F64\<close>: IEEE double arithmetic by exact rounding of rationals. \<open>Json\<close>: \<^verbatim>\<open>serde_json\<close> values, parsing and
    display of floats.
  \<^item> \<open>Trace\<close> (\<^verbatim>\<open>ciel-fork/trace.rs\<close>), \<open>Program_Registry\<close>, \<open>Oracle_Cache\<close> (\<^verbatim>\<open>ciel-checkers\<close>, files of the same
    names): the data the checkers read.
  \<^item> \<open>Checker_Core\<close> (\<^verbatim>\<open>traits.rs\<close>, \<^verbatim>\<open>runner.rs\<close>, \<^verbatim>\<open>hash.rs\<close>, \<^verbatim>\<open>stubs.rs\<close>): checkers as values, the runner with its
    80 ms deadline, the Borsh form of outputs and their hash. Shown: the runner reports every
    checker, the hash fixes the outputs and not their order. \<open>Checker_Wire\<close>: the derived readers of the
    same layout (locale \<open>wire_pair\<close>). Shown: what is read back from the bytes of an output, which is the
    output itself unless its flags carry floats, whose JSON text \<^verbatim>\<open>serde_json\<close> reads approximately.
  \<^item> \<open>Authority_Diff\<close>, \<open>Approval_Abuse\<close>, \<open>Oracle_Sanity\<close>, \<open>Intent_Rules\<close>, \<open>Intent_Diff\<close>: the four real checkers.
    Shown: exactly which traces they flag and how severely.
  \<^item> \<open>Attestation\<close> and \<open>Pea\<close> (\<^verbatim>\<open>ciel-signer\<close>): the signed payloads, their wire form, the signer, and
    the JSON envelope. Shown: round trips, separation of the three payload kinds. \<open>Pea_Examples\<close>
    (\<^verbatim>\<open>examples/gen_pea_examples.rs\<close>): the generator of the published examples and the schema of the
    envelope. Shown: the tool accepts what it writes, envelopes conform to the schema. \<open>Wire_Pins\<close>: the
    committed fixtures and the comparisons that pin the wire format (locale \<open>pinned_payload\<close>).
  \<^item> \<open>Scorer\<close> (\<^verbatim>\<open>scorer_stub.rs\<close>): the score in floating point against the exact score.
  \<^item> \<open>Account_Cache\<close>, \<open>Rpc\<close>, \<open>Executor\<close>, \<open>Geyser\<close> (\<^verbatim>\<open>ciel-fork\<close>): the cache and the staleness tracker, the
    breaker (refining an abstract machine) and the failover, the simulator and the trace it
    extracts, the account stream. \<open>Fork_System\<close>: the cache and the tracker that these components
    share, as one labelled step relation. Shown: under every interleaving the cache refines a
    register per key, and an outage of the stream reaches the verdicts.
  \<^item> \<open>Pipeline\<close> (\<^verbatim>\<open>pipeline.rs\<close>), \<open>Outcome\<close> (\<^verbatim>\<open>verdict_store.rs\<close>, \<^verbatim>\<open>outcome.rs\<close>): an evaluation from transaction to
    signed response and log row, and the capture of outcomes.
  \<^item> \<open>Server\<close> (\<^verbatim>\<open>ciel-server\<close>): the handlers of both interfaces, errors, metrics, and the start of
    the process. \<open>Service\<close>: the running server as a step relation over the verdict log, with
    invariants of all its runs and what a deployment answers over time.
  \<^item> \<open>Drift_Fixture\<close> (\<^verbatim>\<open>ciel-fixtures\<close>): the synthetic replay of the Drift exploit and its files. Shown: a
    fixture survives its files. \<open>Real_Checkers\<close>: the four real checkers in the pipeline. Shown: what
    its context leaves them, and what they answer to the fixture. \<open>Fixture_Tool\<close> (\<^verbatim>\<open>tx_from_fixture.rs\<close>): the
    command that prints a fixture's transaction. Shown: posted to the server, it is evaluated as
    that transaction.
  \<^item> \<open>Test_Support\<close>, \<open>Approval_Suite\<close>, \<open>Authority_Suite\<close>, \<open>Oracle_Suite\<close>, \<open>Intent_Suite\<close>, \<open>Goal_Suite\<close>, \<open>Feed_Suite\<close>,
    \<open>Core_Suite\<close>: the repository's own tests of the four checkers, the intent rules, the oracle cache,
    the registry, the runner, the scorer, the account cache, the tracker and the breaker, one
    predicate per test. Shown (\<open>Test_Suites\<close>): the model passes them, for all choices the tests leave
    open; seven tests that compare a run with itself or measure threads are left out.
  \<^item> This theory: properties that span components.

  \<^bold>\<open>How the code is represented.\<close> Structs are records, enums datatypes, fallible functions return
  \<open>'e + 'a\<close>, a panic is \<open>None\<close>. Fixed-width integers are words; arithmetic wraps as in a release
  build. Mutable state is passed explicitly; a handler that awaits is split there, and everything
  it reads from outside (the clock, replies, faults) is an argument. A \<^verbatim>\<open>HashMap\<close> is an association
  list together with an arbitrary iteration order (\<open>shuffle\<close>). Instants are nanoseconds.

  \<^bold>\<open>Parameters.\<close> Code outside the repository is an argument: LiteSVM and bincode (\<open>svm_ops\<close>), Ed25519,
  SHA-256, the JSON printer, base64 and hexadecimal codecs, RPC providers, the stream, the
  database, the environment, Unicode tables beyond ASCII, \<^verbatim>\<open>10f64.powi\<close>. What a theorem assumes of
  them is a named predicate (\<open>ed25519_correct\<close>, \<open>sha256_sized\<close>, \<open>codecs_roundtrip\<close>, \<open>injective_json\<close>,
  \<open>json_reads_back\<close>, \<open>text_roundtrips\<close>, \<open>env_roundtrips\<close>; that a JSON text is read back is assumed only of
  values without floats and of bounded depth, \<open>exact_text\<close>), each shown to be satisfiable by a concrete instance in the witnesses.

  \<^bold>\<open>Bounds.\<close> The scorer theorems hold for up to a thousand checkers, which keeps the accumulated
  rounding error below \<open>2\<^sup>-\<^sup>3\<^sup>2\<close>; the program has seven. Loops of the program that end are recursive
  functions; the reconnection loop of the stream and the capture task, which never end, are given a
  list of the rounds they run.

  \<^bold>\<open>Not modelled.\<close> Logging to \<^verbatim>\<open>tracing\<close> other than the verdict line, the HTTP and gRPC frameworks
  (routing, request ids and the extraction of requests), the SQL engine beyond the three
  statements used, the conversions between the two versions of the account type that LiteSVM makes
  necessary (the model has one type), the on-chain program (a stub that accepts everything), the tests
  that need LiteSVM, the network or threads and those of the pipeline, the server and the fixtures (whose
  subject is covered by the theorems), and the crates and files that hold no code yet
  (intent compiler, LLM client, enforcement adapters, SDK, three of the seven checkers).
\<close>

section \<open>Properties across components\<close>

subsection \<open>From the signed transaction to the verdict\<close>

lemma signed_call_in_trace:
  assumes "before_checkers S p T tx = Inr pe" "i < length (instructions tx)"
  shows "cpi_of (account_keys tx) i 1 (instructions tx ! i) \<in> set (cpi_graph (pe_trace pe))"
proof -
  let ?calls = "map (\<lambda>i. cpi_of (account_keys tx) i 1 (instructions tx ! i)) [0..<length (instructions tx)]"
  have "take (length (instructions tx)) (cpi_graph (pe_trace pe)) = ?calls"
    using trace_signed_calls [OF before_checkers_facts(3) [OF assms(1)]] by blast
  moreover have "cpi_of (account_keys tx) i 1 (instructions tx ! i) \<in> set ?calls" using assms(2) by simp
  ultimately show ?thesis by (metis in_set_takeD)
qed

text \<open>C1: The shape of the Drift handoff is never let through. If the transaction advances a durable nonce
  first and one of its own instructions is an authority change that upgrades a program or touches
  a known protocol, then a pipeline with the authority checker answers BLOCK or TIMEOUT, whatever
  the simulator makes of the transaction (also when the simulation fails), whatever the other
  checkers say, and however stale the state is.\<close>

theorem handoff_blocked:
  assumes "evaluate_raw_tx S shuffle p T tx = Some (Inr (resp, lg))"
    and "distinct (map name (vp_checkers p))" "authority_diff_checker U \<in> set (vp_checkers p)"
    and "\<And>pe. has_durable_nonce_precursor (checker_ctx tx pe)"
    and "i < length (instructions tx)" "c = cpi_of (account_keys tx) i 1 (instructions tx ! i)"
    and "match_call c with_mainnet_defaults = Some f"
    and "lookup_known_protocol_in_call c with_mainnet_defaults \<noteq> None \<or> flag_code f = FLAG_BPF_UPGRADE_IN_CPI"
  shows "resp_verdict resp = Block \<or> resp_verdict resp = Timeout"
  using evaluation_cases [OF assms(1)]
proof (elim disjE conjE exE)
  assume "build_timeout_response S p T tx = Inr resp"
  then show ?thesis using timeout_response_facts by blast
next
  fix pe assume b: "before_checkers S p T tx = Inr pe"
  let ?ctx = "checker_ctx tx pe"
  have "c \<in> set (cpi_graph (ctx_trace ?ctx))" using signed_call_in_trace [OF b assms(5)] assms(6) by (simp add: checker_ctx_def)
  then have "out_severity (authority_check U ?ctx) = Critical"
    using hidden_change_critical [of ?ctx c f U] assms(4,7,8) by (simp add: checker_ctx_def)
  then show ?thesis
    using critical_result_blocks [OF assms(1-3) b synchronous_result] by (simp add: authority_diff_checker_def)
qed

text \<open>A high finding costs more than the margin above the threshold of APPROVE.\<close>

lemma high_exact_score:
  assumes "out \<in> set (completed r)" "High \<le> out_severity out"
  shows "exact_score r \<le> 6/10"
proof -
  obtain k where k: "(k, Completed out) \<in> set (outputs r)" using assms(1) set_completed by blast
  then have "exact_penalty (Completed out) \<le> sum_list (map exact_penalty (map snd (outputs r)))"
    using exact_penalty_bounds by (intro member_le_sum_list) force+
  moreover have "4/10 \<le> exact_penalty (Completed out)" using assms(2) by (cases "out_severity out") auto
  ultimately have "exact_sum (map snd (outputs r)) \<le> 6/10" unfolding exact_sum_def by linarith
  then show ?thesis by (auto simp: exact_score_def)
qed

lemma length_hm_collect: "length (hm_collect kvs) \<le> length kvs"
proof -
  have u: "length (AList.update k v m) \<le> Suc (length m)" for k v and m :: "('a, 'b) hashmap"
    by (induction m) auto
  have "length (fold (\<lambda>(k, v). AList.update k v) kvs m) \<le> length m + length kvs" for kvs and m :: "('a, 'b) hashmap"
  proof (induction kvs arbitrary: m)
    case (Cons kv kvs)
    obtain k v where kv: "kv = (k, v)" by (cases kv)
    from Cons [of "AList.update k v m"] u [of k v m] show ?case by (simp add: kv)
  qed simp
  from this [of kvs "[]"] show ?thesis by (simp add: hm_collect_def)
qed

lemma length_checked_results: "length (outputs (checked_results shuffle p T tx pe)) \<le> length (vp_checkers p)"
  using length_hm_collect [of "map (run_one (checker_ctx tx pe)) (vp_checkers p)"]
  by (simp add: checked_results_def Let_def run_checkers_def length_reorder)

text \<open>C4: A serious finding is never approved. If a checker of a set of at most a thousand with distinct names
  reports a high or critical severity in time, then the verdict is not APPROVE, however the
  penalties are rounded and in whatever order they are summed.\<close>

theorem serious_finding_not_approved:
  assumes "evaluate_raw_tx S shuffle p T tx = Some (Inr (resp, lg))"
    and "distinct (map name (vp_checkers p))" "length (vp_checkers p) \<le> 1000" "c \<in> set (vp_checkers p)"
    and "before_checkers S p T tx = Inr pe"
    and "snd (run_one (checker_ctx tx pe) c) = Completed out" "High \<le> out_severity out"
  shows "resp_verdict resp \<noteq> Approve"
  using evaluation_cases [OF assms(1)]
proof (elim disjE conjE exE)
  assume "build_timeout_response S p T tx = Inr resp"
  then show ?thesis using timeout_response_facts by force
next
  fix pe'
  assume "before_checkers S p T tx = Inr pe'"
    and a: "after_checkers S p T tx pe' (checked_results shuffle p T tx pe') = Some (Inr (resp, lg))"
  then have pe: "pe' = pe" using assms(5) by simp
  let ?r = "checked_results shuffle p T tx pe"
  have "out \<in> set (completed ?r)"
    using checked_results_mem [OF assms(2,4), of tx pe shuffle T] assms(6) by (auto simp: set_completed)
  then have "exact_score ?r \<le> 6/10" using assms(7) by (rule high_exact_score)
  moreover have "length (outputs ?r) \<le> 1000" using length_checked_results assms(3) le_trans by blast
  ultimately have "score_to_verdict (compute_safety_score ?r) ?r \<noteq> Approve" using verdict_exact [of ?r] by auto
  then show ?thesis using after_checkers_facts [OF a] by (auto simp: pe final_verdict_def Let_def)
qed

subsection \<open>What the pipeline's context leaves the checkers\<close>

text \<open>The pipeline hides prices and intents from its checkers. In the context it builds, with its empty
  price cache and no intent, the oracle checker never reports a manipulated, stale or wide feed: its
  severity is high when some read feed is missing from its map and none otherwise, whatever the
  prices on chain; and the intent checker passes every transaction.\<close>

theorem pipeline_context_blind:
  "out_severity (oracle_check ck (checker_ctx tx pe)) =
     (if \<exists>rd \<in> set (oracle_reads (pe_trace pe)). \<not> is_known (feed_map ck) (oracle_pubkey rd) then High else SevNone) \<and>
   passed (intent_check U powi10 (checker_ctx tx pe))"
  by (simp add: context_oracle_severity context_intent_passes)

subsection \<open>Runs\<close>

lemma handoff_call: "cpi_of (account_keys handoff_tx) 1 1 (instructions handoff_tx ! 1) = squads_call"
  by (simp add: handoff_tx_def cpi_of_def squads_call_def key_at_def get_def)

lemma handoff_precursor: "has_durable_nonce_precursor (checker_ctx handoff_tx pe)"
  by (simp add: has_durable_nonce_precursor_def checker_ctx_def handoff_tx_def get_def SYSTEM_DISC_ADVANCE_NONCE_ACCOUNT_def)

text \<open>The handoff before a simulator that rejects it.\<close>

definition guarded_pipeline :: "(pubkey, account) hashmap verdict_pipeline" where
  "guarded_pipeline = demo_pipeline [authority_diff_checker ascii_tables]"

lemma guarded_before:
  "\<exists>pe. before_checkers silent_services guarded_pipeline zero_timeline handoff_tx = Inr pe \<and>
     cpi_graph (pe_trace pe) = [cpi_of (account_keys handoff_tx) 0 1 (instructions handoff_tx ! 0), squads_call]"
proof -
  have "extract_cpi_graph handoff_tx [] (account_keys handoff_tx) =
      [cpi_of (account_keys handoff_tx) 0 1 (instructions handoff_tx ! 0), squads_call]"
    unfolding handoff_call [symmetric] by (simp add: extract_cpi_graph_def handoff_tx_def numeral_eq_Suc)
  then show ?thesis
    by (simp add: before_checkers_def compute_tx_hash_def silent_services_def demo_services_def toy_svm_def
        guarded_pipeline_def demo_pipeline_def zero_timeline_def staleness_state_at_def time_since_last_update_def
        elapsed_def tracker_new_def execute_transaction_def Let_def)
qed

lemma guarded_output:
  assumes "cpi_graph (pe_trace pe) = [cpi_of (account_keys handoff_tx) 0 1 (instructions handoff_tx ! 0), squads_call]"
  shows "\<exists>b. borsh_output (\<lambda>v. Inr []) (authority_check ascii_tables (checker_ctx handoff_tx pe)) = Inr b"
proof -
  have first_call: "match_call (cpi_of (account_keys handoff_tx) 0 1 (instructions handoff_tx ! 0)) with_mainnet_defaults = None"
    by (simp add: handoff_tx_def cpi_of_def key_at_def get_def match_call_def program_ids)
  obtain f where f: "match_call squads_call with_mainnet_defaults = Some f" "length (flag_code f) < 100" "length (flag_message f) < 2 ^ 32"
    by (simp add: squads_call_def match_call_def match_squads_proxy_def show_nat.simps FLAG_MULTISIG_ADMIN_HANDOFF_CANDIDATE_def)
  show ?thesis
    using f by (simp add: authority_check_def authority_flags_def checker_ctx_def assms List.map_filter_simps flag_call_def first_call
        borsh_output_def borsh_string_def borsh_vec_def str_bytes_def borsh_flag_vec_def borsh_flag_def
        borsh_serialize_json_value_def Let_def show_nat.simps)
qed

lemma guarded_run:
  "\<exists>resp lg pe. evaluate_raw_tx silent_services id guarded_pipeline zero_timeline handoff_tx = Some (Inr (resp, lg)) \<and>
     before_checkers silent_services guarded_pipeline zero_timeline handoff_tx = Inr pe \<and>
     cpi_graph (pe_trace pe) = [cpi_of (account_keys handoff_tx) 0 1 (instructions handoff_tx ! 0), squads_call]"
proof -
  obtain pe where pe: "before_checkers silent_services guarded_pipeline zero_timeline handoff_tx = Inr pe"
    "cpi_graph (pe_trace pe) = [cpi_of (account_keys handoff_tx) 0 1 (instructions handoff_tx ! 0), squads_call]"
    using guarded_before by blast
  let ?r = "checked_results id guarded_pipeline zero_timeline handoff_tx pe"
  have "completed ?r = [authority_check ascii_tables (checker_ctx handoff_tx pe)]"
    by (simp add: checked_results_def Let_def run_checkers_def guarded_pipeline_def demo_pipeline_def run_one_def
        authority_diff_checker_def hm_collect_def reorder_def completed_def)
  then obtain oh where "checker_outputs_hash (json_to_vec silent_services) (sha256 silent_services) ?r = Some oh"
    using guarded_output [OF pe(2)] by (auto simp: checker_outputs_hash_def silent_services_def)
  from synchronous_respond [OF _ pe(1) this] show ?thesis
    using pe by (fastforce simp: guarded_pipeline_def demo_pipeline_def authority_diff_checker_def)
qed

theorem handoff_blocked_witness:
  "\<exists>resp lg. evaluate_raw_tx silent_services id guarded_pipeline zero_timeline handoff_tx = Some (Inr (resp, lg)) \<and>
     (resp_verdict resp = Block \<or> resp_verdict resp = Timeout)"
proof -
  obtain resp lg where r: "evaluate_raw_tx silent_services id guarded_pipeline zero_timeline handoff_tx = Some (Inr (resp, lg))"
    using guarded_run by blast
  obtain f where f: "match_call squads_call with_mainnet_defaults = Some f" using squads_call_facts(1) by blast
  have "distinct (map name (vp_checkers guarded_pipeline))" "authority_diff_checker ascii_tables \<in> set (vp_checkers guarded_pipeline)"
    "1 < length (instructions handoff_tx)"
    by (simp_all add: guarded_pipeline_def demo_pipeline_def handoff_tx_def)
  from handoff_blocked [OF r this(1,2) handoff_precursor this(3) handoff_call [symmetric] f] squads_call_facts(2) r
  show ?thesis by auto
qed

theorem serious_finding_not_approved_witness:
  "\<exists>resp lg. evaluate_raw_tx silent_services id guarded_pipeline zero_timeline handoff_tx = Some (Inr (resp, lg)) \<and>
     resp_verdict resp \<noteq> Approve"
proof -
  obtain resp lg pe where r: "evaluate_raw_tx silent_services id guarded_pipeline zero_timeline handoff_tx = Some (Inr (resp, lg))"
    and pe: "before_checkers silent_services guarded_pipeline zero_timeline handoff_tx = Inr pe"
      "cpi_graph (pe_trace pe) = [cpi_of (account_keys handoff_tx) 0 1 (instructions handoff_tx ! 0), squads_call]"
    using guarded_run by blast
  let ?c = "authority_diff_checker ascii_tables" and ?ctx = "checker_ctx handoff_tx pe"
  have c: "distinct (map name (vp_checkers guarded_pipeline))" "length (vp_checkers guarded_pipeline) \<le> 1000"
    "?c \<in> set (vp_checkers guarded_pipeline)"
    by (simp_all add: guarded_pipeline_def demo_pipeline_def)
  obtain f where f: "match_call squads_call with_mainnet_defaults = Some f" using squads_call_facts(1) by blast
  have "High \<le> out_severity (authority_check ascii_tables ?ctx)"
    using hidden_change_critical [of ?ctx squads_call f ascii_tables] f squads_call_facts(2) handoff_precursor pe(2)
    by (simp add: checker_ctx_def)
  moreover have "snd (run_one ?ctx ?c) = Completed (authority_check ascii_tables ?ctx)"
    by (simp add: run_one_def authority_diff_checker_def)
  ultimately show ?thesis using serious_finding_not_approved [OF r c pe(1)] r by blast
qed

end
